theory Spec2Isabelle
  imports Complex_Main "HOL-Library.Multiset" "HOL-Library.List_Lexorder" "HOL-Library.Char_ord"
begin

section \<open>Strings of the run-time\<close>

text \<open>
  The TypeScript sources work on JavaScript strings. They are modelled as \<^typ>\<open>string\<close>,
  every \<^typ>\<open>char\<close> read as the code unit of the same number, U+0000 to U+00FF (ASCII and
  the Latin-1 supplement, which holds every letter of Portuguese). On this range the
  built-ins the sources call are the tables written below; strings with code units
  beyond U+00FF are outside the model.
\<close>

definition code :: "char \<Rightarrow> nat" where
  "code c = of_char c"

text \<open>
  The class \<open>\s\<close> of a regular expression, which is also what \<open>String.prototype.trim\<close>
  removes: TAB, LF, VT, FF, CR, SPACE and, in the Latin-1 supplement, NO-BREAK SPACE.
\<close>

definition isWhiteSpace :: "char \<Rightarrow> bool" where
  "isWhiteSpace c = ((9 \<le> code c \<and> code c \<le> 13) \<or> code c = 32 \<or> code c = 160)"

definition isDigit :: "char \<Rightarrow> bool" where
  "isDigit c = (48 \<le> code c \<and> code c \<le> 57)"

text \<open>The class \<open>\w\<close> that decides \<open>\b\<close> (no \<open>u\<close> or \<open>i\<close> flag): \<open>[A-Za-z0-9_]\<close>.\<close>

definition isWordChar :: "char \<Rightarrow> bool" where
  "isWordChar c = ((65 \<le> code c \<and> code c \<le> 90) \<or> (97 \<le> code c \<and> code c \<le> 122)
     \<or> isDigit c \<or> code c = 95)"

definition trim :: "string \<Rightarrow> string" where
  "trim s = rev (dropWhile isWhiteSpace (rev (dropWhile isWhiteSpace s)))"

text \<open>
  \<open>.normalize("NFD")\<close> followed by the removal of the combining marks, one code unit at a time: a
  letter of the Latin-1 supplement with a canonical decomposition becomes its base
  letter followed by one combining mark of U+0300..U+036F, which the replacement
  deletes; every other code unit of the range is its own normal form.
\<close>

definition stripMarks :: "char \<Rightarrow> char" where
  "stripMarks c = (let n = code c in
     if 192 \<le> n \<and> n \<le> 197 then CHR ''A''
     else if n = 199 then CHR ''C''
     else if 200 \<le> n \<and> n \<le> 203 then CHR ''E''
     else if 204 \<le> n \<and> n \<le> 207 then CHR ''I''
     else if n = 209 then CHR ''N''
     else if 210 \<le> n \<and> n \<le> 214 then CHR ''O''
     else if 217 \<le> n \<and> n \<le> 220 then CHR ''U''
     else if n = 221 then CHR ''Y''
     else if 224 \<le> n \<and> n \<le> 229 then CHR ''a''
     else if n = 231 then CHR ''c''
     else if 232 \<le> n \<and> n \<le> 235 then CHR ''e''
     else if 236 \<le> n \<and> n \<le> 239 then CHR ''i''
     else if n = 241 then CHR ''n''
     else if 242 \<le> n \<and> n \<le> 246 then CHR ''o''
     else if 249 \<le> n \<and> n \<le> 252 then CHR ''u''
     else if n = 253 \<or> n = 255 then CHR ''y''
     else c)"

text \<open>\<open>toLowerCase\<close> on one code unit: A..Z, and U+00C0..U+00DE without the sign U+00D7.\<close>

definition lowerChar :: "char \<Rightarrow> char" where
  "lowerChar c = (let n = code c in
     if (65 \<le> n \<and> n \<le> 90) \<or> (192 \<le> n \<and> n \<le> 222 \<and> n \<noteq> 215) then char_of (n + 32) else c)"

definition toLowerCase :: "string \<Rightarrow> string" where
  "toLowerCase s = map lowerChar s"

text \<open>
  \<open>toUpperCase\<close> leaves the range: U+00DF becomes the two units of \<open>SS\<close>, U+00FF becomes
  U+0178 and U+00B5 becomes U+039C. Its result is therefore a list of code unit numbers.
\<close>

definition upperUnits :: "char \<Rightarrow> nat list" where
  "upperUnits c = (let n = code c in
     if (97 \<le> n \<and> n \<le> 122) \<or> (224 \<le> n \<and> n \<le> 254 \<and> n \<noteq> 247) then [n - 32]
     else if n = 223 then [83, 83]
     else if n = 255 then [376]
     else if n = 181 then [924]
     else [n])"

definition toUpperCase :: "string \<Rightarrow> nat list" where
  "toUpperCase s = concat (map upperUnits s)"

text \<open>\<open>.replace(/\s+/g, " ")\<close>: every maximal run of white space becomes one space.\<close>

function collapseSpaces :: "string \<Rightarrow> string" where
  "collapseSpaces [] = []"
| "collapseSpaces (c # cs) =
     (if isWhiteSpace c then CHR '' '' # collapseSpaces (dropWhile isWhiteSpace cs)
      else c # collapseSpaces cs)"
  by pat_completeness auto
termination
  by (relation "measure length") (auto simp: less_Suc_eq_le length_dropWhile_le)

definition normalizeLocationPart :: "string \<Rightarrow> string" where
  "normalizeLocationPart v = trim (collapseSpaces (toLowerCase (map stripMarks v)))"

text \<open>JavaScript truthiness of a nullable string: \<open>null\<close> and the empty string are falsy.\<close>

definition truthy :: "string option \<Rightarrow> bool" where
  "truthy v = (case v of None \<Rightarrow> False | Some s \<Rightarrow> s \<noteq> [])"

section \<open>Typology inference\<close>

text \<open>
  The decimal numeral of a natural number, as the template literal prints an integer
  (the \<open>bedrooms\<close> column is a 32-bit \<open>integer\<close>, far below the exponent notation).
\<close>

fun showNat :: "nat \<Rightarrow> string" where
  "showNat n = (if n < 10 then [char_of (48 + n)] else showNat (n div 10) @ [char_of (48 + n mod 10)])"

declare showNat.simps [simp del]

text \<open>
  The regular expression of \<open>inferTypologyLabel\<close>,
  \<^verbatim>\<open>/\b[tT]\s*([0-9]{1,2})(?:\s*\+\s*([0-9]{1,2}))?\b/\<close>, matched the way \<open>String.match\<close> does:
  at the leftmost position where it can match, greedy quantifiers first.

  \<open>takeDigits\<close> is \<open>([0-9]{1,2})\<close>: the longest run of one or two digits. Giving back the
  second digit never helps, because what follows in the expression (white space, \<open>+\<close> or
  \<open>\b\<close>) cannot match in front of a digit. For the same reason each \<open>\s*\<close> takes the whole
  run of white space.
\<close>

definition takeDigits :: "string \<Rightarrow> string \<times> string" where
  "takeDigits s = (let ds = takeWhile isDigit (take 2 s) in (ds, drop (length ds) s))"

text \<open>\<open>\b\<close> behind a digit: the end of the string or a character outside \<open>\w\<close>.\<close>

definition wordEnd :: "string \<Rightarrow> bool" where
  "wordEnd s = (case s of [] \<Rightarrow> True | c # _ \<Rightarrow> \<not> isWordChar c)"

text \<open>The optional group \<open>(?:\s*\+\s*([0-9]{1,2}))\<close> followed by the closing \<open>\b\<close>.\<close>

definition matchExtra :: "string \<Rightarrow> string option" where
  "matchExtra s = (case dropWhile isWhiteSpace s of
       [] \<Rightarrow> None
     | p # r \<Rightarrow>
         if p = CHR ''+'' then
           (let (extra, r') = takeDigits (dropWhile isWhiteSpace r)
            in if extra \<noteq> [] \<and> wordEnd r' then Some extra else None)
         else None)"

text \<open>
  The expression behind its opening \<open>\b\<close>, tried at the head of \<open>s\<close>. When the group
  matches but the closing \<open>\b\<close> fails behind it, the group is given up and \<open>\b\<close> is tried
  behind the base digits.
\<close>

definition matchTokenAt :: "string \<Rightarrow> (string \<times> string option) option" where
  "matchTokenAt s = (case s of
       [] \<Rightarrow> None
     | c # r \<Rightarrow>
         if c = CHR ''t'' \<or> c = CHR ''T'' then
           (let (base, r') = takeDigits (dropWhile isWhiteSpace r)
            in if base = [] then None
               else (case matchExtra r' of
                       Some extra \<Rightarrow> Some (base, Some extra)
                     | None \<Rightarrow> if wordEnd r' then Some (base, None) else None))
         else None)"

text \<open>
  The search for the leftmost match. \<open>prevWord\<close> says whether the character in front of
  the position is in \<open>\w\<close>; the opening \<open>\b\<close> in front of the letter holds when it is not.
\<close>

fun searchToken :: "bool \<Rightarrow> string \<Rightarrow> (string \<times> string option) option" where
  "searchToken prevWord [] = None"
| "searchToken prevWord (c # cs) =
     (case (if prevWord then None else matchTokenAt (c # cs)) of
        Some m \<Rightarrow> Some m
      | None \<Rightarrow> searchToken (isWordChar c) cs)"

definition titleMatch :: "string \<Rightarrow> (string \<times> string option) option" where
  "titleMatch rawTitle = searchToken False rawTitle"

text \<open>
  \<open>inferTypologyLabel(bedrooms, title)\<close>. \<open>bedrooms\<close> is the nullable \<open>integer\<close> column of
  \<open>listings_normalized\<close>, so the number is an integer: \<open>Number.isFinite\<close> holds and
  \<open>Math.round\<close> returns it unchanged. The test \<open>bedrooms >= 0\<close> is kept.
\<close>

definition inferTypologyLabel :: "int option \<Rightarrow> string option \<Rightarrow> string" where
  "inferTypologyLabel bedrooms title =
     (let rawTitle = (case title of None \<Rightarrow> [] | Some t \<Rightarrow> t) in
      case titleMatch rawTitle of
        Some (base, extra) \<Rightarrow>
          (case extra of
             Some e \<Rightarrow> ''T'' @ base @ ''+'' @ e
           | None \<Rightarrow> ''T'' @ base)
      | None \<Rightarrow>
          (case bedrooms of
             Some b \<Rightarrow> if 0 \<le> b then ''T'' @ showNat (nat b) else ''Unknown''
           | None \<Rightarrow> ''Unknown''))"

section \<open>The administrative index\<close>

datatype AdminLevel = Country | District | Municipality | Parish

text \<open>
  \<open>AdminAreaOption\<close> of \<open>lib/types\<close>. The optional fields are options; the coordinates are
  \<open>number | null\<close>, modelled as exact rationals (rounding of the 64-bit floats is not
  modelled). Field names that several object types of the source share (\<open>id\<close>,
  \<open>district\<close>, \<open>municipality\<close>, \<open>parish\<close>, \<open>title\<close>, ...) carry a prefix in all
  records but one, since a record field is a constant of the theory.
\<close>

record AdminAreaOption =
  area_id :: string
  label :: string
  level :: AdminLevel
  country :: string
  area_district :: "string option"
  area_municipality :: "string option"
  area_parish :: "string option"
  lat :: "rat option"
  lng :: "rat option"
  sample_count :: nat

record PortugalAdminDataset =
  districts :: "AdminAreaOption list"
  municipalities :: "AdminAreaOption list"
  parishes :: "AdminAreaOption list"

record AdminNameRecord =
  name_district :: string
  name_municipality :: string
  name_parish :: string

text \<open>The value type \<open>{ municipality: string; district: string }\<close> of \<open>municipalityByKey\<close>.\<close>

record MunicipalityRecord =
  mun_municipality :: string
  mun_district :: string

record PortugalAdminIndex =
  districtByKey :: "string \<rightharpoonup> string"
  municipalityByKey :: "string \<rightharpoonup> MunicipalityRecord"
  parishByKey :: "string \<rightharpoonup> AdminNameRecord"

text \<open>
  \<open>x?.trim()\<close> on an optional field: \<open>undefined\<close> stays \<open>undefined\<close>, which the test
  \<open>!x\<close> of the loops rejects like the empty string.
\<close>

definition trimOpt :: "string option \<Rightarrow> string option" where
  "trimOpt v = map_option trim v"

text \<open>The bodies of the three loops of \<open>buildPortugalAdminIndex\<close>.\<close>

definition addDistrict :: "(string \<rightharpoonup> string) \<Rightarrow> AdminAreaOption \<Rightarrow> (string \<rightharpoonup> string)" where
  "addDistrict m d =
     (let lbl = trim (label d) in
      if lbl = [] then m else m(normalizeLocationPart lbl \<mapsto> lbl))"

definition addMunicipality ::
  "(string \<rightharpoonup> MunicipalityRecord) \<Rightarrow> AdminAreaOption \<Rightarrow> (string \<rightharpoonup> MunicipalityRecord)" where
  "addMunicipality m a =
     (let municipalityName = trim (label a) in
      case trimOpt (area_district a) of
        None \<Rightarrow> m
      | Some districtName \<Rightarrow>
          if municipalityName = [] \<or> districtName = [] then m
          else m(normalizeLocationPart municipalityName \<mapsto>
                   \<lparr>mun_municipality = municipalityName, mun_district = districtName\<rparr>))"

definition addParish ::
  "(string \<rightharpoonup> AdminNameRecord) \<Rightarrow> AdminAreaOption \<Rightarrow> (string \<rightharpoonup> AdminNameRecord)" where
  "addParish m a =
     (let parishName = trim (label a) in
      case (trimOpt (area_municipality a), trimOpt (area_district a)) of
        (Some municipalityName, Some districtName) \<Rightarrow>
          if parishName = [] \<or> municipalityName = [] \<or> districtName = [] then m
          else m(normalizeLocationPart parishName \<mapsto>
                   \<lparr>name_district = districtName, name_municipality = municipalityName,
                    name_parish = parishName\<rparr>)
      | _ \<Rightarrow> m)"

definition buildPortugalAdminIndex :: "PortugalAdminDataset \<Rightarrow> PortugalAdminIndex" where
  "buildPortugalAdminIndex dataset =
     \<lparr>districtByKey = foldl addDistrict Map.empty (districts dataset),
      municipalityByKey = foldl addMunicipality Map.empty (municipalities dataset),
      parishByKey = foldl addParish Map.empty (parishes dataset)\<rparr>"

section \<open>The location resolver\<close>

definition isDelimiter :: "char \<Rightarrow> bool" where
  "isDelimiter c = (c \<in> set '',-|/;()'')"

text \<open>
  \<open>raw.split(/[,\-|/;()]+/)\<close>: the pieces between maximal runs of delimiters; a run at
  the start or at the end of the text leaves an empty piece there. \<open>cur\<close> is the piece
  being read.
\<close>

function splitDelims :: "string \<Rightarrow> string \<Rightarrow> string list" where
  "splitDelims cur [] = [cur]"
| "splitDelims cur (c # cs) =
     (if isDelimiter c then cur # splitDelims [] (dropWhile isDelimiter cs)
      else splitDelims (cur @ [c]) cs)"
  by pat_completeness auto
termination
  by (relation "measure (\<lambda>(cur, s). length s)") (auto simp: less_Suc_eq_le length_dropWhile_le)

definition extractLocationCandidates :: "string option \<Rightarrow> string list" where
  "extractLocationCandidates locationText =
     (let raw = trim (case locationText of None \<Rightarrow> [] | Some t \<Rightarrow> t) in
      if raw = [] then []
      else filter (\<lambda>part. part \<noteq> []) (map trim (splitDelims [] raw)))"

text \<open>The value \<open>{ district, municipality, parish }\<close> that the resolver builds and returns.\<close>

record Resolved =
  district :: "string option"
  municipality :: "string option"
  parish :: "string option"

text \<open>
  The three loops of \<open>resolveAdminHierarchy\<close>, each over the candidates in order and left
  at the first hit. A hit of the parish or municipality map is an object, always truthy;
  a hit of the district map is a string, and the empty string is not taken.
\<close>

fun parishPass :: "PortugalAdminIndex \<Rightarrow> string list \<Rightarrow> Resolved \<Rightarrow> Resolved" where
  "parishPass index [] r = r"
| "parishPass index (part # rest) r =
     (case parishByKey index (normalizeLocationPart part) of
        Some parishHit \<Rightarrow>
          r\<lparr>district := Some (name_district parishHit),
            municipality := Some (name_municipality parishHit),
            parish := Some (name_parish parishHit)\<rparr>
      | None \<Rightarrow> parishPass index rest r)"

fun municipalityPass :: "PortugalAdminIndex \<Rightarrow> string list \<Rightarrow> Resolved \<Rightarrow> Resolved" where
  "municipalityPass index [] r = r"
| "municipalityPass index (part # rest) r =
     (case municipalityByKey index (normalizeLocationPart part) of
        Some municipalityHit \<Rightarrow>
          r\<lparr>district := Some (mun_district municipalityHit),
            municipality := Some (mun_municipality municipalityHit)\<rparr>
      | None \<Rightarrow> municipalityPass index rest r)"

fun districtPass :: "PortugalAdminIndex \<Rightarrow> string list \<Rightarrow> Resolved \<Rightarrow> Resolved" where
  "districtPass index [] r = r"
| "districtPass index (part # rest) r =
     (if truthy (districtByKey index (normalizeLocationPart part))
      then r\<lparr>district := districtByKey index (normalizeLocationPart part)\<rparr>
      else districtPass index rest r)"

definition resolveAdminHierarchy :: "string option \<Rightarrow> PortugalAdminIndex \<Rightarrow> Resolved" where
  "resolveAdminHierarchy locationText index =
     (let candidates = extractLocationCandidates locationText;
          r0 = \<lparr>district = None, municipality = None, parish = None\<rparr>;
          r1 = parishPass index candidates r0;
          r2 = (if \<not> truthy (municipality r1) \<or> \<not> truthy (district r1)
                then municipalityPass index candidates r1 else r1);
          r3 = (if \<not> truthy (district r2) then districtPass index candidates r2 else r2)
      in r3)"

datatype DashboardRegionLevel = DistrictLevel | MunicipalityLevel | ParishLevel

definition orUnknown :: "string option \<Rightarrow> string" where
  "orUnknown v = (case v of None \<Rightarrow> ''Unknown'' | Some s \<Rightarrow> s)"

definition locationPartByLevel ::
  "string option \<Rightarrow> DashboardRegionLevel \<Rightarrow> PortugalAdminIndex \<Rightarrow> string" where
  "locationPartByLevel locationText lvl index =
     (let resolved = resolveAdminHierarchy locationText index in
      if lvl = ParishLevel then normalizeLocationPart (orUnknown (parish resolved))
      else if lvl = MunicipalityLevel then normalizeLocationPart (orUnknown (municipality resolved))
      else normalizeLocationPart (orUnknown (district resolved)))"

section \<open>The aggregation engine\<close>

text \<open>
  A row of \<open>listings_normalized\<close>, with the columns that the aggregation and the
  drill-down queries select. \<open>listing_type\<close> is the text of the enum; \<open>title\<close>,
  \<open>location_text\<close>, \<open>url\<close> and \<open>bedrooms\<close> are nullable columns.
\<close>

record ListingRow =
  row_id :: string
  source :: string
  title :: "string option"
  listing_type :: string
  price_eur :: rat
  url :: "string option"
  location_text :: "string option"
  bedrooms :: "int option"
  last_seen_at :: "string option"

record DashboardListingRow =
  d_id :: string
  d_source :: string
  d_title :: "string option"
  d_listing_type :: "string option"
  d_price_eur :: rat
  d_url :: "string option"
  d_location_text :: "string option"
  d_bedrooms :: "int option"
  d_last_seen_at :: "string option"

definition normalizeDashboardRow :: "ListingRow \<Rightarrow> DashboardListingRow" where
  "normalizeDashboardRow row =
     \<lparr>d_id = row_id row, d_source = source row, d_title = title row,
      d_listing_type =
        (if listing_type row = ''buy'' \<or> listing_type row = ''rent''
         then Some (listing_type row) else None),
      d_price_eur = price_eur row, d_url = url row, d_location_text = location_text row,
      d_bedrooms = bedrooms row, d_last_seen_at = last_seen_at row\<rparr>"

text \<open>
  \<open>RegionBreakdownRow\<close> and \<open>TypologyBreakdownRow\<close> carry the same three counters next to
  their group key.
\<close>

record BreakdownCounts =
  buy_count :: nat
  rent_count :: nat
  total_count :: nat

record RegionBreakdownRow = BreakdownCounts +
  region :: string

record TypologyBreakdownRow = BreakdownCounts +
  typology :: string

text \<open>
  A JavaScript \<open>Map\<close> keeps its entries in the order in which their keys were first
  set; \<open>set\<close> on a key that is present replaces the value in place.
\<close>

type_synonym ('k, 'v) jsmap = "('k \<times> 'v) list"

definition map_get :: "('k, 'v) jsmap \<Rightarrow> 'k \<Rightarrow> 'v option" where
  "map_get m k = map_of m k"

fun map_set :: "('k, 'v) jsmap \<Rightarrow> 'k \<Rightarrow> 'v \<Rightarrow> ('k, 'v) jsmap" where
  "map_set [] k v = [(k, v)]"
| "map_set ((k', v') # m) k v = (if k' = k then (k, v) # m else (k', v') # map_set m k v)"

definition map_values :: "('k, 'v) jsmap \<Rightarrow> 'v list" where
  "map_values m = map snd m"

text \<open>The counter updates shared by the region and the typology buckets.\<close>

definition countListing :: "string \<Rightarrow> 'a BreakdownCounts_scheme \<Rightarrow> 'a BreakdownCounts_scheme" where
  "countListing listingType current =
     current\<lparr>buy_count := buy_count current + (if listingType = ''buy'' then 1 else 0),
             rent_count := rent_count current + (if listingType = ''rent'' then 1 else 0),
             total_count := total_count current + 1\<rparr>"

definition bumpRegion ::
  "(string, RegionBreakdownRow) jsmap \<Rightarrow> string \<Rightarrow> string \<Rightarrow> (string, RegionBreakdownRow) jsmap" where
  "bumpRegion m rgn listingType =
     (let current = (case map_get m rgn of
                       Some c \<Rightarrow> c
                     | None \<Rightarrow> \<lparr>buy_count = 0, rent_count = 0, total_count = 0, region = rgn\<rparr>)
      in map_set m rgn (countListing listingType current))"

definition bumpTypology ::
  "(string, TypologyBreakdownRow) jsmap \<Rightarrow> string \<Rightarrow> string \<Rightarrow> (string, TypologyBreakdownRow) jsmap" where
  "bumpTypology m typ listingType =
     (let typologyCurrent = (case map_get m typ of
                       Some c \<Rightarrow> c
                     | None \<Rightarrow> \<lparr>buy_count = 0, rent_count = 0, total_count = 0, typology = typ\<rparr>)
      in map_set m typ (countListing listingType typologyCurrent))"

text \<open>The accumulators of \<open>getImportDashboardMetrics\<close>.\<close>

record AggState =
  regionMaps_district :: "(string, RegionBreakdownRow) jsmap"
  regionMaps_municipality :: "(string, RegionBreakdownRow) jsmap"
  regionMaps_parish :: "(string, RegionBreakdownRow) jsmap"
  typologyMap :: "(string, TypologyBreakdownRow) jsmap"
  totalBuy :: nat
  totalRent :: nat

definition initialState :: AggState where
  "initialState = \<lparr>regionMaps_district = [], regionMaps_municipality = [],
                    regionMaps_parish = [], typologyMap = [], totalBuy = 0, totalRent = 0\<rparr>"

text \<open>The body of \<open>for (const row of rowsPage)\<close>.\<close>

definition processRow :: "PortugalAdminIndex \<Rightarrow> AggState \<Rightarrow> ListingRow \<Rightarrow> AggState" where
  "processRow adminIndex st row =
     (let listingType = (if listing_type row = ''rent'' then ''rent'' else ''buy'');
          resolvedRegion = resolveAdminHierarchy (location_text row) adminIndex;
          parishName = orUnknown (parish resolvedRegion);
          municipalityName = orUnknown (municipality resolvedRegion);
          districtName = orUnknown (district resolvedRegion);
          typ = inferTypologyLabel (bedrooms row) (title row)
      in st\<lparr>totalBuy := totalBuy st + (if listingType = ''buy'' then 1 else 0),
            totalRent := totalRent st + (if listingType = ''rent'' then 1 else 0),
            regionMaps_district := bumpRegion (regionMaps_district st) districtName listingType,
            regionMaps_municipality :=
              bumpRegion (regionMaps_municipality st) municipalityName listingType,
            regionMaps_parish := bumpRegion (regionMaps_parish st) parishName listingType,
            typologyMap := bumpTypology (typologyMap st) typ listingType\<rparr>)"

text \<open>
  The listing store answers a range query \<open>.range(from, to)\<close> with an error message or
  with rows. The query of one scan is fixed (its filter and its order), so the store is
  a function of the two bounds.
\<close>

type_synonym range_query = "int \<Rightarrow> int \<Rightarrow> string + ListingRow list"

text \<open>
  The \<open>while (true)\<close> loop of \<open>getImportDashboardMetrics\<close>. The page size is the constant
  5000 in the source and a parameter here. The loop need not end on a store that keeps
  answering with full pages, hence the option. \<open>trace\<close> is not in the source: it records
  the length of the page that each request returned, in the order of the requests.
\<close>

partial_function (option) aggregateLoop ::
  "range_query \<Rightarrow> PortugalAdminIndex \<Rightarrow> nat \<Rightarrow> nat \<Rightarrow> AggState \<times> nat list
     \<Rightarrow> (string + AggState \<times> nat list) option" where
  "aggregateLoop listings adminIndex pageSize offset acc =
     (case listings (int offset) (int offset + int pageSize - 1) of
        Inl listingsError \<Rightarrow> Some (Inl listingsError)
      | Inr rowsPage \<Rightarrow>
          if length rowsPage = 0 then Some (Inr (fst acc, snd acc @ [0]))
          else
            (let st = foldl (processRow adminIndex) (fst acc) rowsPage;
                 trace = snd acc @ [length rowsPage]
             in if length rowsPage < pageSize then Some (Inr (st, trace))
                else aggregateLoop listings adminIndex pageSize (offset + pageSize) (st, trace)))"

declare aggregateLoop.simps [code]

text \<open>
  \<open>Array.prototype.sort\<close> with a comparator: a stable sort, here by insertion. Each
  element is put in front of the first one that the comparator places strictly behind it.
\<close>

fun insertBy :: "('a \<Rightarrow> 'a \<Rightarrow> int) \<Rightarrow> 'a \<Rightarrow> 'a list \<Rightarrow> 'a list" where
  "insertBy cmp x [] = [x]"
| "insertBy cmp x (y # ys) = (if cmp x y < 0 then x # y # ys else y # insertBy cmp x ys)"

definition sortBy :: "('a \<Rightarrow> 'a \<Rightarrow> int) \<Rightarrow> 'a list \<Rightarrow> 'a list" where
  "sortBy cmp xs = foldl (\<lambda>sorted x. insertBy cmp x sorted) [] xs"

text \<open>
  The two comparators. \<open>localeCompare\<close> is \<open>a.localeCompare(b, "pt")\<close>, the collation of
  the run-time, taken as a parameter. \<open>x || y\<close> is \<open>y\<close> when the number \<open>x\<close> is zero.
\<close>

definition compareRegions ::
  "(string \<Rightarrow> string \<Rightarrow> int) \<Rightarrow> RegionBreakdownRow \<Rightarrow> RegionBreakdownRow \<Rightarrow> int" where
  "compareRegions localeCompare a b =
     (let d = int (total_count b) - int (total_count a) in
      if d \<noteq> 0 then d else localeCompare (region a) (region b))"

definition compareTypologies ::
  "(string \<Rightarrow> string \<Rightarrow> int) \<Rightarrow> TypologyBreakdownRow \<Rightarrow> TypologyBreakdownRow \<Rightarrow> int" where
  "compareTypologies localeCompare a b =
     (if typology a = ''Unknown'' then 1
      else if typology b = ''Unknown'' then - 1
      else (let d = int (total_count b) - int (total_count a) in
            if d \<noteq> 0 then d else localeCompare (typology a) (typology b)))"

definition sortRegions ::
  "(string \<Rightarrow> string \<Rightarrow> int) \<Rightarrow> RegionBreakdownRow list \<Rightarrow> RegionBreakdownRow list" where
  "sortRegions localeCompare entries = sortBy (compareRegions localeCompare) entries"

definition sortTypologies ::
  "(string \<Rightarrow> string \<Rightarrow> int) \<Rightarrow> TypologyBreakdownRow list \<Rightarrow> TypologyBreakdownRow list" where
  "sortTypologies localeCompare entries = sortBy (compareTypologies localeCompare) entries"

record RegionBreakdowns =
  by_district :: "RegionBreakdownRow list"
  by_municipality :: "RegionBreakdownRow list"
  by_parish :: "RegionBreakdownRow list"

text \<open>
  \<open>ImportDashboardMetrics\<close> without the per-source counters (\<open>sources\<close>, \<open>total_raw\<close>,
  \<open>total_raw_last_24h\<close>, \<open>total_normalized\<close>), which come from count queries made before
  the scan and do not enter it.
\<close>

record ImportDashboardMetrics =
  total_buy :: nat
  total_rent :: nat
  regions :: RegionBreakdowns
  typologies :: "TypologyBreakdownRow list"

definition buildMetrics :: "(string \<Rightarrow> string \<Rightarrow> int) \<Rightarrow> AggState \<Rightarrow> ImportDashboardMetrics" where
  "buildMetrics localeCompare st =
     \<lparr>total_buy = totalBuy st, total_rent = totalRent st,
      regions = \<lparr>by_district = sortRegions localeCompare (map_values (regionMaps_district st)),
                 by_municipality =
                   sortRegions localeCompare (map_values (regionMaps_municipality st)),
                 by_parish = sortRegions localeCompare (map_values (regionMaps_parish st))\<rparr>,
      typologies = sortTypologies localeCompare (map_values (typologyMap st))\<rparr>"

definition getImportDashboardMetrics ::
  "(string \<Rightarrow> string \<Rightarrow> int) \<Rightarrow> range_query \<Rightarrow> PortugalAdminIndex \<Rightarrow> nat
     \<Rightarrow> (string + ImportDashboardMetrics) option" where
  "getImportDashboardMetrics localeCompare listings adminIndex pageSize =
     (case aggregateLoop listings adminIndex pageSize 0 (initialState, []) of
        None \<Rightarrow> None
      | Some (Inl e) \<Rightarrow> Some (Inl e)
      | Some (Inr (st, trace)) \<Rightarrow> Some (Inr (buildMetrics localeCompare st)))"

text \<open>
  The store of the theorems below: the active rows in the order of the query, as one
  fixed sequence, of which \<open>.range(lo, hi)\<close> returns the rows at the positions \<open>lo\<close> to
  \<open>hi\<close>, both included. The store itself is an external service.
\<close>

definition rangeOf :: "ListingRow list \<Rightarrow> range_query" where
  "rangeOf rows lo hi =
     Inr (if hi < lo then [] else take (nat (hi - lo + 1)) (drop (nat lo) rows))"

subsection \<open>Drill-down\<close>

text \<open>
  The loops of \<open>getDashboardListingsByTypology\<close> and \<open>getDashboardListingsByRegion\<close>. Their
  page size is the constant 1000, passed by the two functions below.
\<close>

definition typologyMatches :: "nat list \<Rightarrow> ListingRow \<Rightarrow> bool" where
  "typologyMatches target row =
     (toUpperCase (inferTypologyLabel (bedrooms row) (title row)) = target)"

partial_function (option) typologyLoop ::
  "range_query \<Rightarrow> nat \<Rightarrow> nat list \<Rightarrow> nat \<Rightarrow> DashboardListingRow list
     \<Rightarrow> (string + DashboardListingRow list) option" where
  "typologyLoop listings pageSize target offset out =
     (case listings (int offset) (int offset + int pageSize - 1) of
        Inl e \<Rightarrow> Some (Inl e)
      | Inr rows \<Rightarrow>
          (let out' = out @ map normalizeDashboardRow (filter (typologyMatches target) rows)
           in if length rows < pageSize then Some (Inr out')
              else typologyLoop listings pageSize target (offset + pageSize) out'))"

declare typologyLoop.simps [code]

definition getDashboardListingsByTypology ::
  "range_query \<Rightarrow> string \<Rightarrow> (string + DashboardListingRow list) option" where
  "getDashboardListingsByTypology listings typ =
     typologyLoop listings 1000 (toUpperCase (trim typ)) 0 []"

definition regionMatches ::
  "PortugalAdminIndex \<Rightarrow> DashboardRegionLevel \<Rightarrow> string \<Rightarrow> ListingRow \<Rightarrow> bool" where
  "regionMatches adminIndex lvl target row =
     (locationPartByLevel (location_text row) lvl adminIndex = target)"

partial_function (option) regionLoop ::
  "range_query \<Rightarrow> PortugalAdminIndex \<Rightarrow> nat \<Rightarrow> DashboardRegionLevel \<Rightarrow> string \<Rightarrow> nat
     \<Rightarrow> DashboardListingRow list \<Rightarrow> (string + DashboardListingRow list) option" where
  "regionLoop listings adminIndex pageSize lvl target offset out =
     (case listings (int offset) (int offset + int pageSize - 1) of
        Inl e \<Rightarrow> Some (Inl e)
      | Inr rows \<Rightarrow>
          (let out' = out @ map normalizeDashboardRow
                               (filter (regionMatches adminIndex lvl target) rows)
           in if length rows < pageSize then Some (Inr out')
              else regionLoop listings adminIndex pageSize lvl target (offset + pageSize) out'))"

declare regionLoop.simps [code]

text \<open>\<open>regionLabel || "Unknown"\<close>: the empty label is replaced as well.\<close>

definition regionTarget :: "string \<Rightarrow> string" where
  "regionTarget regionLabel =
     normalizeLocationPart (if regionLabel = [] then ''Unknown'' else regionLabel)"

definition getDashboardListingsByRegion ::
  "range_query \<Rightarrow> PortugalAdminIndex \<Rightarrow> DashboardRegionLevel \<Rightarrow> string
     \<Rightarrow> (string + DashboardListingRow list) option" where
  "getDashboardListingsByRegion listings adminIndex lvl regionLabel =
     regionLoop listings adminIndex 1000 lvl (regionTarget regionLabel) 0 []"

section \<open>The administrative dataset route\<close>

text \<open>The rows of the upstream datasets; a parish row has every field of the other two.\<close>

record GeoPoint =
  gp_lat :: "rat option"
  gp_lon :: "rat option"

record DistrictRow =
  dis_name :: string
  geo_point_2d :: "GeoPoint option"

record MunicipalityRow = DistrictRow +
  con_name :: string

record ParishRow = MunicipalityRow +
  fre_name :: string

text \<open>\<open>row.geo_point_2d?.lat ?? null\<close> and \<open>row.geo_point_2d?.lon ?? null\<close>.\<close>

definition pointLat :: "GeoPoint option \<Rightarrow> rat option" where
  "pointLat g = (case g of None \<Rightarrow> None | Some p \<Rightarrow> gp_lat p)"

definition pointLon :: "GeoPoint option \<Rightarrow> rat option" where
  "pointLon g = (case g of None \<Rightarrow> None | Some p \<Rightarrow> gp_lon p)"

text \<open>
  One coordinate of \<open>upsertAreaOption\<close>: the weighted mean when both values are there,
  otherwise \<open>existing ?? item\<close>.
\<close>

definition nextCoord :: "rat option \<Rightarrow> nat \<Rightarrow> rat option \<Rightarrow> nat \<Rightarrow> rat option" where
  "nextCoord existing existingCount item newTotal =
     (case (existing, item) of
        (Some e, Some i) \<Rightarrow> Some ((e * of_nat existingCount + i) / of_nat newTotal)
      | (Some e, None) \<Rightarrow> Some e
      | (None, i) \<Rightarrow> i)"

text \<open>The record that \<open>upsertAreaOption\<close> stores when the key is present.\<close>

definition mergeAreaOption :: "AdminAreaOption \<Rightarrow> AdminAreaOption \<Rightarrow> AdminAreaOption" where
  "mergeAreaOption existing item =
     (let newTotal = sample_count existing + 1;
          nextLat = nextCoord (lat existing) (sample_count existing) (lat item) newTotal;
          nextLng = nextCoord (lng existing) (sample_count existing) (lng item) newTotal
      in existing\<lparr>lat := nextLat, lng := nextLng, sample_count := newTotal\<rparr>)"

definition upsertAreaOption ::
  "(string, AdminAreaOption) jsmap \<Rightarrow> string \<Rightarrow> AdminAreaOption \<Rightarrow> (string, AdminAreaOption) jsmap" where
  "upsertAreaOption m key item =
     (case map_get m key of
        None \<Rightarrow> map_set m key item
      | Some existing \<Rightarrow> map_set m key (mergeAreaOption existing item))"

text \<open>The bodies of the three loops of \<open>GET\<close> over the fetched rows.\<close>

definition addDistrictRow ::
  "(string, AdminAreaOption) jsmap \<Rightarrow> 'a DistrictRow_scheme \<Rightarrow> (string, AdminAreaOption) jsmap" where
  "addDistrictRow districtMap row =
     (let districtName = trim (dis_name row) in
      if districtName = [] then districtMap
      else (let districtId = ''district:'' @ toLowerCase districtName in
            upsertAreaOption districtMap districtId
              \<lparr>area_id = districtId, label = districtName, level = District, country = ''PT'',
               area_district = Some districtName, area_municipality = None, area_parish = None,
               lat = pointLat (geo_point_2d row), lng = pointLon (geo_point_2d row),
               sample_count = 1\<rparr>))"

definition addMunicipalityRow ::
  "(string, AdminAreaOption) jsmap \<Rightarrow> 'a MunicipalityRow_scheme \<Rightarrow> (string, AdminAreaOption) jsmap" where
  "addMunicipalityRow municipalityMap row =
     (let districtName = trim (dis_name row); municipalityName = trim (con_name row) in
      if districtName = [] \<or> municipalityName = [] then municipalityMap
      else (let municipalityId =
                  ''municipality:'' @ toLowerCase districtName @ '':'' @ toLowerCase municipalityName in
            upsertAreaOption municipalityMap municipalityId
              \<lparr>area_id = municipalityId, label = municipalityName, level = Municipality,
               country = ''PT'', area_district = Some districtName,
               area_municipality = Some municipalityName, area_parish = None,
               lat = pointLat (geo_point_2d row), lng = pointLon (geo_point_2d row),
               sample_count = 1\<rparr>))"

definition addParishRow ::
  "(string, AdminAreaOption) jsmap \<Rightarrow> ParishRow \<Rightarrow> (string, AdminAreaOption) jsmap" where
  "addParishRow parishMap row =
     (let districtName = trim (dis_name row); municipalityName = trim (con_name row);
          parishName = trim (fre_name row) in
      if districtName = [] \<or> municipalityName = [] \<or> parishName = [] then parishMap
      else (let parishId = ''parish:'' @ toLowerCase districtName @ '':''
                             @ toLowerCase municipalityName @ '':'' @ toLowerCase parishName in
            upsertAreaOption parishMap parishId
              \<lparr>area_id = parishId, label = parishName, level = Parish, country = ''PT'',
               area_district = Some districtName, area_municipality = Some municipalityName,
               area_parish = Some parishName,
               lat = pointLat (geo_point_2d row), lng = pointLon (geo_point_2d row),
               sample_count = 1\<rparr>))"

text \<open>
  What the upstream service answers to the request for one offset: a status that is not
  a success, a body that \<open>response.json()\<close> rejects, or a payload with its optional
  \<open>total_count\<close> and its \<open>results\<close> (absent results read as the empty list).
\<close>

datatype 'r upstream_response = NotOk nat | BadJson | Payload "int option" "'r list"

datatype fetch_error = RequestFailed nat | JsonRejected

definition LIMIT :: nat where
  "LIMIT = 100"

text \<open>
  \<open>fetchAllPages\<close>. Within one call the offsets grow, so every request is made once and
  the service is a function of the offset. The loop need not end, hence the option.
\<close>

partial_function (option) fetchAllPages ::
  "(nat \<Rightarrow> 'r upstream_response) \<Rightarrow> nat \<Rightarrow> 'r list \<Rightarrow> (fetch_error + 'r list) option" where
  "fetchAllPages upstream offset out =
     (case upstream offset of
        NotOk status \<Rightarrow> Some (Inl (RequestFailed status))
      | BadJson \<Rightarrow> Some (Inl JsonRejected)
      | Payload totalCount rows \<Rightarrow>
          (let out' = out @ rows; offset' = offset + length rows in
           if length rows < LIMIT then Some (Inr out')
           else if (case totalCount of Some t \<Rightarrow> t \<le> int offset' | None \<Rightarrow> False) then Some (Inr out')
           else fetchAllPages upstream offset' out'))"

declare fetchAllPages.simps [code]

text \<open>
  \<open>Promise.all\<close> of the three fetches: rejected as soon as one of them is rejected, even
  if another one never settles; fulfilled when all three are.
\<close>

definition promiseAll ::
  "(fetch_error + 'a) option \<Rightarrow> (fetch_error + 'b) option \<Rightarrow> (fetch_error + 'c) option
     \<Rightarrow> (unit + 'a \<times> 'b \<times> 'c) option" where
  "promiseAll a b c =
     (if (\<exists>e. a = Some (Inl e)) \<or> (\<exists>e. b = Some (Inl e)) \<or> (\<exists>e. c = Some (Inl e))
      then Some (Inl ())
      else (case (a, b, c) of
              (Some (Inr x), Some (Inr y), Some (Inr z)) \<Rightarrow> Some (Inr (x, y, z))
            | _ \<Rightarrow> None))"

text \<open>
  The response of the route: the dataset with status 200, or status 502 (its message,
  that of the rejection that came first, is left out).
\<close>

datatype http_response = Json200 PortugalAdminDataset | Json502

record Upstream =
  distrito :: "nat \<Rightarrow> DistrictRow upstream_response"
  concelho :: "nat \<Rightarrow> MunicipalityRow upstream_response"
  freguesia :: "nat \<Rightarrow> ParishRow upstream_response"

definition CACHE_MS :: int where
  "CACHE_MS = 12 * 60 * 60 * 1000"

definition sortByLabel :: "(string \<Rightarrow> string \<Rightarrow> int) \<Rightarrow> AdminAreaOption list \<Rightarrow> AdminAreaOption list" where
  "sortByLabel localeCompare xs = sortBy (\<lambda>a b. localeCompare (label a) (label b)) xs"

text \<open>
  \<open>GET\<close>, with the module variable \<open>cached\<close> passed in and returned, and \<open>Date.now()\<close> as the
  argument \<open>now\<close>.
\<close>

definition GET ::
  "(string \<Rightarrow> string \<Rightarrow> int) \<Rightarrow> Upstream \<Rightarrow> int \<Rightarrow> (int \<times> PortugalAdminDataset) option
     \<Rightarrow> (http_response \<times> (int \<times> PortugalAdminDataset) option) option" where
  "GET localeCompare upstream now cached =
     (case (case cached of Some (cachedAt, cachedData) \<Rightarrow> if now - cachedAt < CACHE_MS then Some cachedData else None
                          | None \<Rightarrow> None) of
        Some cachedData \<Rightarrow> Some (Json200 cachedData, cached)
      | None \<Rightarrow>
          (case promiseAll (fetchAllPages (distrito upstream) 0 [])
                           (fetchAllPages (concelho upstream) 0 [])
                           (fetchAllPages (freguesia upstream) 0 []) of
             None \<Rightarrow> None
           | Some (Inl _) \<Rightarrow> Some (Json502, cached)
           | Some (Inr (districtRows, municipalitiesRows, parishesRows)) \<Rightarrow>
               (let districtMap = foldl addDistrictRow [] districtRows;
                    municipalityMap = foldl addMunicipalityRow [] municipalitiesRows;
                    parishMap = foldl addParishRow [] parishesRows;
                    response = \<lparr>districts = sortByLabel localeCompare (map_values districtMap),
                                municipalities = sortByLabel localeCompare (map_values municipalityMap),
                                parishes = sortByLabel localeCompare (map_values parishMap)\<rparr>
                in Some (Json200 response, Some (now, response)))))"

text \<open>
  The client side of the route, in the module of the resolver: \<open>listPortugalAdminDataset\<close>
  throws on a response that is not ok, and \<open>getPortugalAdminIndex\<close> builds and stores the
  index only from a dataset it received. The module variable \<open>cachedPortugalAdminIndex\<close>
  is passed in and returned.
\<close>

definition listPortugalAdminDataset :: "http_response \<Rightarrow> string + PortugalAdminDataset" where
  "listPortugalAdminDataset response =
     (case response of
        Json502 \<Rightarrow> Inl ''Failed to load Portugal administrative database.''
      | Json200 payload \<Rightarrow> Inr payload)"

definition getPortugalAdminIndex ::
  "PortugalAdminIndex option \<Rightarrow> http_response
     \<Rightarrow> (string + PortugalAdminIndex) \<times> PortugalAdminIndex option" where
  "getPortugalAdminIndex cachedPortugalAdminIndex response =
     (case cachedPortugalAdminIndex of
        Some index \<Rightarrow> (Inr index, cachedPortugalAdminIndex)
      | None \<Rightarrow>
          (case listPortugalAdminDataset response of
             Inl e \<Rightarrow> (Inl e, None)
           | Inr dataset \<Rightarrow>
               (let index = buildPortugalAdminIndex dataset in (Inr index, Some index))))"

section \<open>The group keys of a row\<close>

text \<open>
  The keys under which \<open>processRow\<close> counts a row: at each region level the resolved name,
  or "Unknown" in place of \<open>null\<close>; the inferred typology; and the listing type, which is
  \<open>rent\<close> or else \<open>buy\<close>.
\<close>

definition regionLabel :: "DashboardRegionLevel \<Rightarrow> PortugalAdminIndex \<Rightarrow> ListingRow \<Rightarrow> string" where
  "regionLabel lvl adminIndex row =
     (let resolved = resolveAdminHierarchy (location_text row) adminIndex in
      case lvl of
        DistrictLevel \<Rightarrow> orUnknown (district resolved)
      | MunicipalityLevel \<Rightarrow> orUnknown (municipality resolved)
      | ParishLevel \<Rightarrow> orUnknown (parish resolved))"

definition typologyLabel :: "ListingRow \<Rightarrow> string" where
  "typologyLabel row = inferTypologyLabel (bedrooms row) (title row)"

definition listingTypeOf :: "ListingRow \<Rightarrow> string" where
  "listingTypeOf row = (if listing_type row = ''rent'' then ''rent'' else ''buy'')"

text \<open>\<open>metrics.regions[level]\<close>, the breakdown of one level.\<close>

definition regionsAt :: "DashboardRegionLevel \<Rightarrow> ImportDashboardMetrics \<Rightarrow> RegionBreakdownRow list" where
  "regionsAt lvl metrics =
     (case lvl of
        DistrictLevel \<Rightarrow> by_district (regions metrics)
      | MunicipalityLevel \<Rightarrow> by_municipality (regions metrics)
      | ParishLevel \<Rightarrow> by_parish (regions metrics))"

section \<open>The requests of a fetch\<close>

text \<open>
  The offsets at which \<open>fetchAllPages\<close>, started at offset 0 with no rows, makes a request,
  each with the rows gathered before it: the loop goes on from a request to the next one
  exactly when the page was read, was full and did not reach the reported total.
\<close>

inductive fetchReaches :: "(nat \<Rightarrow> 'r upstream_response) \<Rightarrow> nat \<Rightarrow> 'r list \<Rightarrow> bool"
  for upstream :: "nat \<Rightarrow> 'r upstream_response" where
  first_request: "fetchReaches upstream 0 []"
| next_request:
    "fetchReaches upstream offset out \<Longrightarrow>
     upstream offset = Payload totalCount rows \<Longrightarrow>
     \<not> length rows < LIMIT \<Longrightarrow>
     \<not> (case totalCount of Some t \<Rightarrow> t \<le> int (offset + length rows) | None \<Rightarrow> False) \<Longrightarrow>
     fetchReaches upstream (offset + length rows) (out @ rows)"

section \<open>The typology token, stated on the text\<close>

text \<open>
  What the regular expression of \<open>inferTypologyLabel\<close> accepts, written as a splitting of
  the title and independent of the order in which a matcher tries the alternatives: in
  front of position \<open>n\<close> no character of \<open>\w\<close>; at \<open>n\<close> the letter; white space; one or
  two digits, the base; then either the end of a word, or white space, \<open>+\<close>, white space,
  one or two digits (the extra) and the end of a word.
\<close>

definition spaces :: "string \<Rightarrow> bool" where
  "spaces ws = list_all isWhiteSpace ws"

definition digits12 :: "string \<Rightarrow> bool" where
  "digits12 ds = (ds \<noteq> [] \<and> length ds \<le> 2 \<and> list_all isDigit ds)"

definition wordStart :: "string \<Rightarrow> bool" where
  "wordStart pre = (pre = [] \<or> \<not> isWordChar (last pre))"

definition tokenAt :: "string \<Rightarrow> nat \<Rightarrow> string \<Rightarrow> string option \<Rightarrow> bool" where
  "tokenAt rawTitle n base extra =
     (\<exists>pre t ws rest.
        rawTitle = pre @ t # ws @ base @ rest \<and> length pre = n \<and> wordStart pre
        \<and> (t = CHR ''t'' \<or> t = CHR ''T'') \<and> spaces ws \<and> digits12 base
        \<and> (case extra of
              None \<Rightarrow> wordEnd rest
            | Some e \<Rightarrow>
                (\<exists>ws' ws'' rest'.
                   rest = ws' @ CHR ''+'' # ws'' @ e @ rest' \<and> spaces ws' \<and> spaces ws''
                   \<and> digits12 e \<and> wordEnd rest')))"


section \<open>Inputs of the examples\<close>

subsection \<open>Indexes and datasets\<close>

text \<open>The index of the scenario "Matosinhos, Porto".\<close>

definition scenarioIndex :: PortugalAdminIndex where
  "scenarioIndex =
     \<lparr>districtByKey = [''porto'' \<mapsto> ''Porto''],
      municipalityByKey =
        [''matosinhos'' \<mapsto> \<lparr>mun_municipality = ''Matosinhos'', mun_district = ''Porto''\<rparr>],
      parishByKey = Map.empty\<rparr>"

text \<open>An index in which a parish is filed under the key of "Rua das Flores 12".\<close>

definition streetIndex :: PortugalAdminIndex where
  "streetIndex =
     \<lparr>districtByKey = Map.empty,
      municipalityByKey = Map.empty,
      parishByKey =
        [''rua das flores 12'' \<mapsto>
           \<lparr>name_district = ''Porto'', name_municipality = ''Porto'',
            name_parish = ''Rua das Flores 12''\<rparr>]\<rparr>"

text \<open>A dataset with one parish, its municipality and its district.\<close>

definition alvaladeDataset :: PortugalAdminDataset where
  "alvaladeDataset =
     \<lparr>districts =
        [\<lparr>area_id = ''district:lisboa'', label = ''Lisboa'', level = District, country = ''PT'',
          area_district = Some ''Lisboa'', area_municipality = None, area_parish = None,
          lat = None, lng = None, sample_count = 1\<rparr>],
      municipalities =
        [\<lparr>area_id = ''municipality:lisboa:lisboa'', label = ''Lisboa'', level = Municipality,
          country = ''PT'', area_district = Some ''Lisboa'', area_municipality = Some ''Lisboa'',
          area_parish = None, lat = None, lng = None, sample_count = 1\<rparr>],
      parishes =
        [\<lparr>area_id = ''parish:lisboa:lisboa:alvalade'', label = ''Alvalade'', level = Parish,
          country = ''PT'', area_district = Some ''Lisboa'', area_municipality = Some ''Lisboa'',
          area_parish = Some ''Alvalade'', lat = None, lng = None, sample_count = 1\<rparr>]\<rparr>"

subsection \<open>Listings, passes and upstream services\<close>

text \<open>The number of page requests of a pass that completed.\<close>

definition requestsOf :: "(string + AggState \<times> nat list) option \<Rightarrow> nat option" where
  "requestsOf res = (case res of Some (Inr (st, trace)) \<Rightarrow> Some (length trace) | _ \<Rightarrow> None)"

definition rowA :: ListingRow where
  "rowA = \<lparr>row_id = ''a'', source = ''idealista'', title = Some ''T2 no centro'',
           listing_type = ''buy'', price_eur = 250000, url = None,
           location_text = Some ''Matosinhos, Porto'', bedrooms = Some 2,
           last_seen_at = Some ''2026-01-02''\<rparr>"

definition rowB :: ListingRow where
  "rowB = \<lparr>row_id = ''b'', source = ''imovirtual'', title = Some ''Nice flat'',
           listing_type = ''rent'', price_eur = 900, url = None,
           location_text = Some ''Rua das Flores 12'', bedrooms = None,
           last_seen_at = Some ''2026-01-03''\<rparr>"

definition rowC :: ListingRow where
  "rowC = \<lparr>row_id = ''c'', source = ''idealista'', title = None,
           listing_type = ''buy'', price_eur = 180000, url = None,
           location_text = Some ''Porto'', bedrooms = Some 2,
           last_seen_at = Some ''2026-01-01''\<rparr>"

text \<open>
  A comparator for the examples, in the place of the collation of the run-time: the
  order of the code units.
\<close>

definition codeUnitCompare :: "string \<Rightarrow> string \<Rightarrow> int" where
  "codeUnitCompare a b = (if a = b then 0 else if a < b then - 1 else 1)"

text \<open>The metrics of the three rows against the index of the scenario.\<close>

definition metricsABC :: ImportDashboardMetrics where
  "metricsABC =
     \<lparr>total_buy = 2, total_rent = 1,
      regions =
        \<lparr>by_district =
           [\<lparr>buy_count = 2, rent_count = 0, total_count = 2, region = ''Porto''\<rparr>,
            \<lparr>buy_count = 0, rent_count = 1, total_count = 1, region = ''Unknown''\<rparr>],
         by_municipality =
           [\<lparr>buy_count = 1, rent_count = 1, total_count = 2, region = ''Unknown''\<rparr>,
            \<lparr>buy_count = 1, rent_count = 0, total_count = 1, region = ''Matosinhos''\<rparr>],
         by_parish = [\<lparr>buy_count = 2, rent_count = 1, total_count = 3, region = ''Unknown''\<rparr>]\<rparr>,
      typologies =
        [\<lparr>buy_count = 2, rent_count = 0, total_count = 2, typology = ''T2''\<rparr>,
         \<lparr>buy_count = 0, rent_count = 1, total_count = 1, typology = ''Unknown''\<rparr>]\<rparr>"

definition rowD :: ListingRow where
  "rowD = \<lparr>row_id = ''d'', source = ''imovirtual'', title = None,
           listing_type = ''rent'', price_eur = 700, url = None,
           location_text = Some ''Lisboa'', bedrooms = None,
           last_seen_at = Some ''2026-01-04''\<rparr>"

text \<open>
  An upstream service whose district dataset answers the first request with a full page
  and the second one with status 503; the other two datasets are empty.
\<close>

definition portoRow :: DistrictRow where
  "portoRow = \<lparr>dis_name = ''Porto'', geo_point_2d = None\<rparr>"

definition failingUpstream :: Upstream where
  "failingUpstream =
     \<lparr>distrito = (\<lambda>offset. if offset = 0 then Payload None (replicate 100 portoRow) else NotOk 503),
      concelho = (\<lambda>offset. Payload None []),
      freguesia = (\<lambda>offset. Payload None [])\<rparr>"




text \<open>
  A dataset in which a parish record writes the name of its municipality in capitals,
  and a listing in that parish.
\<close>

definition caseDataset :: PortugalAdminDataset where
  "caseDataset =
     \<lparr>districts =
        [\<lparr>area_id = ''district:porto'', label = ''Porto'', level = District, country = ''PT'',
          area_district = Some ''Porto'', area_municipality = None, area_parish = None,
          lat = None, lng = None, sample_count = 1\<rparr>],
      municipalities =
        [\<lparr>area_id = ''municipality:porto:matosinhos'', label = ''Matosinhos'',
          level = Municipality, country = ''PT'', area_district = Some ''Porto'',
          area_municipality = Some ''Matosinhos'', area_parish = None,
          lat = None, lng = None, sample_count = 1\<rparr>],
      parishes =
        [\<lparr>area_id = ''parish:porto:matosinhos:lavra'', label = ''Lavra'', level = Parish,
          country = ''PT'', area_district = Some ''Porto'',
          area_municipality = Some ''MATOSINHOS'', area_parish = Some ''Lavra'',
          lat = None, lng = None, sample_count = 1\<rparr>]\<rparr>"

definition rowE :: ListingRow where
  "rowE = \<lparr>row_id = ''e'', source = ''idealista'', title = Some ''Moradia T3'',
           listing_type = ''buy'', price_eur = 320000, url = None,
           location_text = Some ''Lavra'', bedrooms = Some 3,
           last_seen_at = Some ''2026-01-05''\<rparr>"

section \<open>Properties of the resolver\<close>

lemma parishPass_no_hit:
  "\<forall>part\<in>set cands. parishByKey index (normalizeLocationPart part) = None \<Longrightarrow>
   parishPass index cands r = r"
  by (induction cands) auto

lemma municipalityPass_no_hit:
  "\<forall>part\<in>set cands. municipalityByKey index (normalizeLocationPart part) = None \<Longrightarrow>
   municipalityPass index cands r = r"
  by (induction cands) auto

lemma districtPass_no_hit:
  "\<forall>part\<in>set cands. \<not> truthy (districtByKey index (normalizeLocationPart part)) \<Longrightarrow>
   districtPass index cands r = r"
  by (induction cands) auto

lemma municipalityPass_first_hit:
  "\<forall>p\<in>set pre. municipalityByKey index (normalizeLocationPart p) = None \<Longrightarrow>
   municipalityByKey index (normalizeLocationPart part) = Some hit \<Longrightarrow>
   municipalityPass index (pre @ part # post) r =
     r\<lparr>district := Some (mun_district hit), municipality := Some (mun_municipality hit)\<rparr>"
  by (induction pre) auto

lemma districtPass_keeps:
  "municipality (districtPass index cands r) = municipality r
   \<and> parish (districtPass index cands r) = parish r"
  by (induction cands) auto

lemma scenario_candidates:
  "extractLocationCandidates (Some ''Matosinhos, Porto'') = [''Matosinhos'', ''Porto'']"
  by code_simp

lemma scenario_key: "normalizeLocationPart ''Matosinhos'' = ''matosinhos''"
  by code_simp

lemma scenario_resolved:
  "resolveAdminHierarchy (Some ''Matosinhos, Porto'') scenarioIndex =
     \<lparr>district = Some ''Porto'', municipality = Some ''Matosinhos'', parish = None\<rparr>"
  by code_simp

text \<open>
  C7. Against the index with the district \<open>porto\<close> and the municipality \<open>matosinhos\<close> and no
  parish, the text "Matosinhos, Porto" resolves to the district Porto, the municipality
  Matosinhos and no parish. In general, when no candidate is a key of the parish map,
  the first candidate in order that is a key of the municipality map gives the
  municipality and the district; only a district that this entry leaves empty is looked
  up again by the district pass.
\<close>

theorem first_municipality_hit_sets_both:
  "resolveAdminHierarchy (Some ''Matosinhos, Porto'') scenarioIndex =
     \<lparr>district = Some ''Porto'', municipality = Some ''Matosinhos'', parish = None\<rparr>
   \<and> (\<forall>locationText (index :: PortugalAdminIndex) pre part post hit.
        (\<forall>p\<in>set (extractLocationCandidates locationText).
            parishByKey index (normalizeLocationPart p) = None)
        \<and> extractLocationCandidates locationText = pre @ part # post
        \<and> (\<forall>p\<in>set pre. municipalityByKey index (normalizeLocationPart p) = None)
        \<and> municipalityByKey index (normalizeLocationPart part) = Some hit
        \<longrightarrow> municipality (resolveAdminHierarchy locationText index) = Some (mun_municipality hit)
          \<and> parish (resolveAdminHierarchy locationText index) = None
          \<and> district (resolveAdminHierarchy locationText index) =
              (if mun_district hit \<noteq> [] then Some (mun_district hit)
               else district (districtPass index (extractLocationCandidates locationText)
                      \<lparr>district = Some [], municipality = Some (mun_municipality hit),
                       parish = None\<rparr>)))"
proof (intro conjI allI impI)
  show "resolveAdminHierarchy (Some ''Matosinhos, Porto'') scenarioIndex =
     \<lparr>district = Some ''Porto'', municipality = Some ''Matosinhos'', parish = None\<rparr>"
    by (rule scenario_resolved)
next
  fix locationText and index :: PortugalAdminIndex and pre part post hit
  assume a: "(\<forall>p\<in>set (extractLocationCandidates locationText).
            parishByKey index (normalizeLocationPart p) = None)
        \<and> extractLocationCandidates locationText = pre @ part # post
        \<and> (\<forall>p\<in>set pre. municipalityByKey index (normalizeLocationPart p) = None)
        \<and> municipalityByKey index (normalizeLocationPart part) = Some hit"
  let ?c = "extractLocationCandidates locationText"
  let ?r0 = "\<lparr>district = None, municipality = None, parish = None\<rparr>"
  let ?set = "\<lparr>district = Some (mun_district hit), municipality = Some (mun_municipality hit),
               parish = None\<rparr>"
  have p: "parishPass index ?c ?r0 = ?r0"
    using a by (simp add: parishPass_no_hit)
  have m: "municipalityPass index ?c ?r0 = ?set"
    using a municipalityPass_first_hit[of pre index part hit post ?r0] by simp
  have r: "resolveAdminHierarchy locationText index =
     (if mun_district hit \<noteq> [] then ?set
      else districtPass index ?c
             \<lparr>district = Some [], municipality = Some (mun_municipality hit), parish = None\<rparr>)"
    by (simp add: resolveAdminHierarchy_def Let_def p m truthy_def)
  show "municipality (resolveAdminHierarchy locationText index) = Some (mun_municipality hit)"
    by (simp add: r districtPass_keeps)
  show "parish (resolveAdminHierarchy locationText index) = None"
    by (simp add: r districtPass_keeps)
  show "district (resolveAdminHierarchy locationText index) =
              (if mun_district hit \<noteq> [] then Some (mun_district hit)
               else district (districtPass index ?c
                      \<lparr>district = Some [], municipality = Some (mun_municipality hit),
                       parish = None\<rparr>))"
    by (simp add: r)
qed

theorem first_municipality_hit_sets_both_witness:
  "parishByKey scenarioIndex (normalizeLocationPart ''Matosinhos'') = None
   \<and> parishByKey scenarioIndex (normalizeLocationPart ''Porto'') = None
   \<and> extractLocationCandidates (Some ''Matosinhos, Porto'') = [] @ ''Matosinhos'' # [''Porto'']
   \<and> municipalityByKey scenarioIndex (normalizeLocationPart ''Matosinhos'') =
       Some \<lparr>mun_municipality = ''Matosinhos'', mun_district = ''Porto''\<rparr>
   \<and> municipality (resolveAdminHierarchy (Some ''Matosinhos, Porto'') scenarioIndex) = Some ''Matosinhos''
   \<and> parish (resolveAdminHierarchy (Some ''Matosinhos, Porto'') scenarioIndex) = None
   \<and> district (resolveAdminHierarchy (Some ''Matosinhos, Porto'') scenarioIndex) = Some ''Porto''"
proof -
  let ?hit = "\<lparr>mun_municipality = ''Matosinhos'', mun_district = ''Porto''\<rparr>"
  have h0: "parishByKey scenarioIndex (normalizeLocationPart ''Matosinhos'') = None
      \<and> parishByKey scenarioIndex (normalizeLocationPart ''Porto'') = None"
    by (simp add: scenarioIndex_def)
  have h1: "\<forall>p\<in>set (extractLocationCandidates (Some ''Matosinhos, Porto'')).
       parishByKey scenarioIndex (normalizeLocationPart p) = None"
    using h0 by (simp add: scenario_candidates)
  have h2: "extractLocationCandidates (Some ''Matosinhos, Porto'') = [] @ ''Matosinhos'' # [''Porto'']"
    by (simp add: scenario_candidates)
  have h3: "\<forall>p\<in>set ([] :: string list).
       municipalityByKey scenarioIndex (normalizeLocationPart p) = None"
    by simp
  have h4: "municipalityByKey scenarioIndex (normalizeLocationPart ''Matosinhos'') = Some ?hit"
    by (simp add: scenario_key scenarioIndex_def)
  from first_municipality_hit_sets_both
  have "municipality (resolveAdminHierarchy (Some ''Matosinhos, Porto'') scenarioIndex)
          = Some (mun_municipality ?hit)
      \<and> parish (resolveAdminHierarchy (Some ''Matosinhos, Porto'') scenarioIndex) = None
      \<and> district (resolveAdminHierarchy (Some ''Matosinhos, Porto'') scenarioIndex) =
              (if mun_district ?hit \<noteq> [] then Some (mun_district ?hit)
               else district (districtPass scenarioIndex
                      (extractLocationCandidates (Some ''Matosinhos, Porto''))
                      \<lparr>district = Some [], municipality = Some (mun_municipality ?hit),
                       parish = None\<rparr>))"
    using h1 h2 h3 h4 by blast
  then show ?thesis using h0 h2 h4 by simp
qed

lemma street_candidates:
  "extractLocationCandidates (Some ''Rua das Flores 12'') = [''Rua das Flores 12'']"
  by code_simp

lemma street_key: "normalizeLocationPart ''Rua das Flores 12'' = ''rua das flores 12''"
  by code_simp

lemma municipalityPass_keeps: "parish (municipalityPass index cands r) = parish r"
  by (induction cands) (auto split: option.splits)

lemma resolve_no_parish_hit:
  assumes "\<forall>p\<in>set (extractLocationCandidates locationText).
             parishByKey index (normalizeLocationPart p) = None"
  shows "parish (resolveAdminHierarchy locationText index) = None"
  using assms
  by (simp add: resolveAdminHierarchy_def Let_def parishPass_no_hit districtPass_keeps
        municipalityPass_keeps truthy_def)

lemma resolve_no_municipality_hit:
  assumes "\<forall>p\<in>set (extractLocationCandidates locationText).
             parishByKey index (normalizeLocationPart p) = None
             \<and> municipalityByKey index (normalizeLocationPart p) = None"
  shows "municipality (resolveAdminHierarchy locationText index) = None"
  using assms
  by (simp add: resolveAdminHierarchy_def Let_def parishPass_no_hit municipalityPass_no_hit
        districtPass_keeps truthy_def)

lemma resolve_no_hit:
  assumes "\<forall>p\<in>set (extractLocationCandidates locationText).
             parishByKey index (normalizeLocationPart p) = None
             \<and> municipalityByKey index (normalizeLocationPart p) = None
             \<and> \<not> truthy (districtByKey index (normalizeLocationPart p))"
  shows "resolveAdminHierarchy locationText index =
           \<lparr>district = None, municipality = None, parish = None\<rparr>"
  using assms
  by (simp add: resolveAdminHierarchy_def Let_def parishPass_no_hit municipalityPass_no_hit
        districtPass_no_hit truthy_def)

text \<open>
  C6, as stated, fails: an index may hold an entry under the key of the street name, and
  then every level is set, the municipality and the district without a match of their own
  passes.
\<close>

theorem street_counterexample:
  "resolveAdminHierarchy (Some ''Rua das Flores 12'') streetIndex =
     \<lparr>district = Some ''Porto'', municipality = Some ''Porto'',
      parish = Some ''Rua das Flores 12''\<rparr>
   \<and> municipalityByKey streetIndex (normalizeLocationPart ''Rua das Flores 12'') = None
   \<and> districtByKey streetIndex (normalizeLocationPart ''Rua das Flores 12'') = None"
  by (simp add: resolveAdminHierarchy_def Let_def street_candidates street_key streetIndex_def truthy_def)

text \<open>
  C6, amended. Against every index that has no entry under the key \<open>rua das flores 12\<close> (in
  the district map: no entry with a label that is not empty), the text "Rua das Flores 12"
  resolves to no district, no municipality and no parish. In general the parish is null
  when no candidate is a key of the parish map; the municipality is null when no candidate
  is a key of the parish map or of the municipality map; the district is null when, in
  addition, no candidate has a district label that is not empty; and a text without
  candidates resolves to null at the three levels.
\<close>

theorem unmatched_levels_stay_null:
  "(\<forall>index :: PortugalAdminIndex.
      parishByKey index ''rua das flores 12'' = None
      \<and> municipalityByKey index ''rua das flores 12'' = None
      \<and> \<not> truthy (districtByKey index ''rua das flores 12'')
      \<longrightarrow> resolveAdminHierarchy (Some ''Rua das Flores 12'') index =
            \<lparr>district = None, municipality = None, parish = None\<rparr>)
   \<and> (\<forall>locationText (index :: PortugalAdminIndex).
        ((\<forall>p\<in>set (extractLocationCandidates locationText).
             parishByKey index (normalizeLocationPart p) = None)
         \<longrightarrow> parish (resolveAdminHierarchy locationText index) = None)
      \<and> ((\<forall>p\<in>set (extractLocationCandidates locationText).
             parishByKey index (normalizeLocationPart p) = None
             \<and> municipalityByKey index (normalizeLocationPart p) = None)
         \<longrightarrow> municipality (resolveAdminHierarchy locationText index) = None)
      \<and> ((\<forall>p\<in>set (extractLocationCandidates locationText).
             parishByKey index (normalizeLocationPart p) = None
             \<and> municipalityByKey index (normalizeLocationPart p) = None
             \<and> \<not> truthy (districtByKey index (normalizeLocationPart p)))
         \<longrightarrow> district (resolveAdminHierarchy locationText index) = None)
      \<and> (extractLocationCandidates locationText = []
         \<longrightarrow> resolveAdminHierarchy locationText index =
               \<lparr>district = None, municipality = None, parish = None\<rparr>))"
proof (intro conjI allI impI)
  fix index :: PortugalAdminIndex
  assume "parishByKey index ''rua das flores 12'' = None
      \<and> municipalityByKey index ''rua das flores 12'' = None
      \<and> \<not> truthy (districtByKey index ''rua das flores 12'')"
  then show "resolveAdminHierarchy (Some ''Rua das Flores 12'') index =
            \<lparr>district = None, municipality = None, parish = None\<rparr>"
    by (intro resolve_no_hit) (simp add: street_candidates street_key)
next
  fix locationText and index :: PortugalAdminIndex
  assume "\<forall>p\<in>set (extractLocationCandidates locationText).
             parishByKey index (normalizeLocationPart p) = None"
  then show "parish (resolveAdminHierarchy locationText index) = None"
    by (rule resolve_no_parish_hit)
next
  fix locationText and index :: PortugalAdminIndex
  assume "\<forall>p\<in>set (extractLocationCandidates locationText).
             parishByKey index (normalizeLocationPart p) = None
             \<and> municipalityByKey index (normalizeLocationPart p) = None"
  then show "municipality (resolveAdminHierarchy locationText index) = None"
    by (rule resolve_no_municipality_hit)
next
  fix locationText and index :: PortugalAdminIndex
  assume "\<forall>p\<in>set (extractLocationCandidates locationText).
             parishByKey index (normalizeLocationPart p) = None
             \<and> municipalityByKey index (normalizeLocationPart p) = None
             \<and> \<not> truthy (districtByKey index (normalizeLocationPart p))"
  then show "district (resolveAdminHierarchy locationText index) = None"
    by (simp add: resolve_no_hit)
next
  fix locationText and index :: PortugalAdminIndex
  assume "extractLocationCandidates locationText = []"
  then show "resolveAdminHierarchy locationText index =
               \<lparr>district = None, municipality = None, parish = None\<rparr>"
    by (intro resolve_no_hit) simp
qed

theorem unmatched_levels_stay_null_witness:
  "parishByKey scenarioIndex ''rua das flores 12'' = None
   \<and> municipalityByKey scenarioIndex ''rua das flores 12'' = None
   \<and> \<not> truthy (districtByKey scenarioIndex ''rua das flores 12'')
   \<and> resolveAdminHierarchy (Some ''Rua das Flores 12'') scenarioIndex =
        \<lparr>district = None, municipality = None, parish = None\<rparr>
   \<and> extractLocationCandidates (Some '' , - '') = []
   \<and> resolveAdminHierarchy (Some '' , - '') scenarioIndex =
        \<lparr>district = None, municipality = None, parish = None\<rparr>"
proof -
  have h: "parishByKey scenarioIndex ''rua das flores 12'' = None
      \<and> municipalityByKey scenarioIndex ''rua das flores 12'' = None
      \<and> \<not> truthy (districtByKey scenarioIndex ''rua das flores 12'')"
    by (simp add: scenarioIndex_def truthy_def)
  have e: "extractLocationCandidates (Some '' , - '') = []"
    by code_simp
  from unmatched_levels_stay_null h
  have 1: "resolveAdminHierarchy (Some ''Rua das Flores 12'') scenarioIndex =
        \<lparr>district = None, municipality = None, parish = None\<rparr>"
    by blast
  from unmatched_levels_stay_null e
  have 2: "resolveAdminHierarchy (Some '' , - '') scenarioIndex =
        \<lparr>district = None, municipality = None, parish = None\<rparr>"
    by blast
  from h e 1 2 show ?thesis by simp
qed

subsection \<open>Indexes made by the builder\<close>

lemma addDistrict_labels:
  "\<forall>k s. m k = Some s \<longrightarrow> s \<noteq> [] \<Longrightarrow> addDistrict m d k = Some s \<Longrightarrow> s \<noteq> []"
  by (auto simp: addDistrict_def Let_def split: if_splits)

lemma foldl_addDistrict_labels:
  "\<forall>k s. m k = Some s \<longrightarrow> s \<noteq> [] \<Longrightarrow> foldl addDistrict m ds k = Some s \<Longrightarrow> s \<noteq> []"
proof (induction ds arbitrary: m)
  case Nil
  then show ?case by simp
next
  case (Cons d ds)
  have "\<forall>k s. addDistrict m d k = Some s \<longrightarrow> s \<noteq> []"
    using Cons.prems(1) addDistrict_labels by blast
  then show ?case using Cons.IH Cons.prems(2) by simp
qed

lemma addMunicipality_labels:
  "\<forall>k v. m k = Some v \<longrightarrow> mun_municipality v \<noteq> [] \<and> mun_district v \<noteq> [] \<Longrightarrow>
   addMunicipality m a k = Some v \<Longrightarrow> mun_municipality v \<noteq> [] \<and> mun_district v \<noteq> []"
  by (auto simp: addMunicipality_def Let_def split: if_splits option.splits)

lemma foldl_addMunicipality_labels:
  "\<forall>k v. m k = Some v \<longrightarrow> mun_municipality v \<noteq> [] \<and> mun_district v \<noteq> [] \<Longrightarrow>
   foldl addMunicipality m as k = Some v \<Longrightarrow> mun_municipality v \<noteq> [] \<and> mun_district v \<noteq> []"
proof (induction as arbitrary: m)
  case Nil
  then show ?case by simp
next
  case (Cons a as)
  have "\<forall>k v. addMunicipality m a k = Some v \<longrightarrow> mun_municipality v \<noteq> [] \<and> mun_district v \<noteq> []"
    using Cons.prems(1) addMunicipality_labels by blast
  then show ?case using Cons.IH Cons.prems(2) by simp
qed

lemma addParish_labels:
  "\<forall>k v. m k = Some v \<longrightarrow> name_parish v \<noteq> [] \<and> name_municipality v \<noteq> [] \<and> name_district v \<noteq> [] \<Longrightarrow>
   addParish m a k = Some v \<Longrightarrow>
   name_parish v \<noteq> [] \<and> name_municipality v \<noteq> [] \<and> name_district v \<noteq> []"
  by (auto simp: addParish_def Let_def split: if_splits option.splits)

lemma foldl_addParish_labels:
  "\<forall>k v. m k = Some v \<longrightarrow> name_parish v \<noteq> [] \<and> name_municipality v \<noteq> [] \<and> name_district v \<noteq> [] \<Longrightarrow>
   foldl addParish m as k = Some v \<Longrightarrow>
   name_parish v \<noteq> [] \<and> name_municipality v \<noteq> [] \<and> name_district v \<noteq> []"
proof (induction as arbitrary: m)
  case Nil
  then show ?case by simp
next
  case (Cons a as)
  have "\<forall>k v. addParish m a k = Some v \<longrightarrow>
          name_parish v \<noteq> [] \<and> name_municipality v \<noteq> [] \<and> name_district v \<noteq> []"
    using Cons.prems(1) addParish_labels by blast
  then show ?case using Cons.IH Cons.prems(2) by simp
qed

lemma built_district:
  "districtByKey (buildPortugalAdminIndex dataset) k = Some s \<Longrightarrow> s \<noteq> []"
  using foldl_addDistrict_labels[of Map.empty "districts dataset" k s]
  by (simp add: buildPortugalAdminIndex_def)

lemma built_municipality:
  "municipalityByKey (buildPortugalAdminIndex dataset) k = Some v \<Longrightarrow>
   mun_municipality v \<noteq> [] \<and> mun_district v \<noteq> []"
  using foldl_addMunicipality_labels[of Map.empty "municipalities dataset" k v]
  by (simp add: buildPortugalAdminIndex_def)

lemma built_parish:
  "parishByKey (buildPortugalAdminIndex dataset) k = Some v \<Longrightarrow>
   name_parish v \<noteq> [] \<and> name_municipality v \<noteq> [] \<and> name_district v \<noteq> []"
  using foldl_addParish_labels[of Map.empty "parishes dataset" k v]
  by (simp add: buildPortugalAdminIndex_def)

lemma parishPass_cases:
  "parishPass index cands r = r
   \<or> (\<exists>k hit. parishByKey index k = Some hit
        \<and> parishPass index cands r =
            r\<lparr>district := Some (name_district hit), municipality := Some (name_municipality hit),
              parish := Some (name_parish hit)\<rparr>)"
  by (induction cands) (auto split: option.splits)

lemma municipalityPass_cases:
  "municipalityPass index cands r = r
   \<or> (\<exists>k hit. municipalityByKey index k = Some hit
        \<and> municipalityPass index cands r =
            r\<lparr>district := Some (mun_district hit), municipality := Some (mun_municipality hit)\<rparr>)"
  by (induction cands) (auto split: option.splits)

lemma districtPass_cases:
  "districtPass index cands r = r
   \<or> (\<exists>k s. districtByKey index k = Some s \<and> s \<noteq> []
        \<and> districtPass index cands r = r\<lparr>district := Some s\<rparr>)"
  by (induction cands) (auto simp: truthy_def split: option.splits)

text \<open>
  C10. Against an index made by \<open>buildPortugalAdminIndex\<close>, whatever the dataset and the
  text: a parish comes with a municipality and a district, a municipality comes with a
  district, and no level is the empty string.
\<close>

theorem resolved_hierarchy_consistent:
  fixes dataset :: PortugalAdminDataset and locationText :: "string option"
  defines "r \<equiv> resolveAdminHierarchy locationText (buildPortugalAdminIndex dataset)"
  shows "(parish r \<noteq> None \<longrightarrow> municipality r \<noteq> None \<and> district r \<noteq> None)
       \<and> (municipality r \<noteq> None \<longrightarrow> district r \<noteq> None)
       \<and> parish r \<noteq> Some [] \<and> municipality r \<noteq> Some [] \<and> district r \<noteq> Some []"
proof -
  define index where "index = buildPortugalAdminIndex dataset"
  define ok :: "Resolved \<Rightarrow> bool" where
    "ok = (\<lambda>x. (parish x \<noteq> None \<longrightarrow> municipality x \<noteq> None \<and> district x \<noteq> None)
        \<and> (municipality x \<noteq> None \<longrightarrow> district x \<noteq> None)
        \<and> parish x \<noteq> Some [] \<and> municipality x \<noteq> Some [] \<and> district x \<noteq> Some [])"
  let ?c = "extractLocationCandidates locationText"
  let ?r0 = "\<lparr>district = None, municipality = None, parish = None\<rparr>"
  let ?r1 = "parishPass index ?c ?r0"
  let ?r2 = "if \<not> truthy (municipality ?r1) \<or> \<not> truthy (district ?r1)
                then municipalityPass index ?c ?r1 else ?r1"
  let ?r3 = "if \<not> truthy (district ?r2) then districtPass index ?c ?r2 else ?r2"
  have res: "r = ?r3"
    by (simp add: r_def index_def resolveAdminHierarchy_def Let_def)
  have c1: "?r1 = ?r0 \<or> (ok ?r1 \<and> truthy (municipality ?r1) \<and> truthy (district ?r1))"
    using parishPass_cases[of index ?c ?r0] built_parish[of dataset]
    by (auto simp: ok_def truthy_def index_def)
  have c2: "?r2 = ?r0 \<or> (ok ?r2 \<and> truthy (district ?r2))"
  proof (cases "?r1 = ?r0")
    case True
    then show ?thesis
      using municipalityPass_cases[of index ?c ?r0] built_municipality[of dataset]
      by (auto simp: ok_def truthy_def index_def)
  next
    case False
    then show ?thesis using c1 by auto
  qed
  have c3: "ok ?r3"
  proof (cases "?r2 = ?r0")
    case True
    then show ?thesis
      using districtPass_cases[of index ?c ?r0] built_district[of dataset]
      by (auto simp: ok_def truthy_def index_def)
  next
    case False
    then show ?thesis using c2 by auto
  qed
  then have "ok r" by (simp only: res)
  then show ?thesis by (simp add: ok_def)
qed

lemma alvalade_parish:
  "parish (resolveAdminHierarchy (Some ''Alvalade, Lisboa'') (buildPortugalAdminIndex alvaladeDataset))
     = Some ''Alvalade''"
  by code_simp

theorem resolved_hierarchy_consistent_witness:
  "parish (resolveAdminHierarchy (Some ''Alvalade, Lisboa'') (buildPortugalAdminIndex alvaladeDataset))
     = Some ''Alvalade''
   \<and> municipality (resolveAdminHierarchy (Some ''Alvalade, Lisboa'')
        (buildPortugalAdminIndex alvaladeDataset)) \<noteq> None
   \<and> district (resolveAdminHierarchy (Some ''Alvalade, Lisboa'')
        (buildPortugalAdminIndex alvaladeDataset)) \<noteq> None
   \<and> municipality (resolveAdminHierarchy (Some ''Alvalade, Lisboa'')
        (buildPortugalAdminIndex alvaladeDataset)) \<noteq> Some []
   \<and> district (resolveAdminHierarchy (Some ''Alvalade, Lisboa'')
        (buildPortugalAdminIndex alvaladeDataset)) \<noteq> Some []"
  using resolved_hierarchy_consistent[of "Some ''Alvalade, Lisboa''" alvaladeDataset]
    alvalade_parish
  by simp

subsection \<open>The matcher and the token\<close>

lemma digit_not_space: "isDigit c \<Longrightarrow> \<not> isWhiteSpace c"
  by (auto simp: isDigit_def isWhiteSpace_def)

lemma digit_is_word: "isDigit c \<Longrightarrow> isWordChar c"
  by (simp add: isWordChar_def)

lemma space_not_word: "isWhiteSpace c \<Longrightarrow> \<not> isWordChar c"
  by (auto simp: isDigit_def isWhiteSpace_def isWordChar_def)

lemma plus_class: "\<not> isWhiteSpace CHR ''+'' \<and> \<not> isDigit CHR ''+'' \<and> \<not> isWordChar CHR ''+''"
  by (simp add: isDigit_def isWhiteSpace_def isWordChar_def code_def)

lemma takeDigits_split:
  assumes "takeDigits s = (ds, r)"
  shows "s = ds @ r \<and> list_all isDigit ds \<and> length ds \<le> 2
         \<and> (length ds < 2 \<longrightarrow> (case r of [] \<Rightarrow> True | c # _ \<Rightarrow> \<not> isDigit c))"
proof -
  have ds: "ds = takeWhile isDigit (take 2 s)" and r: "r = drop (length ds) s"
    using assms by (auto simp: takeDigits_def Let_def)
  have "take 2 s = ds @ dropWhile isDigit (take 2 s)"
    by (simp add: ds)
  then have "take (length ds) (take 2 s) = ds"
    by (metis append_eq_conv_conj)
  moreover have l: "length ds \<le> 2"
    using length_takeWhile_le[of isDigit "take 2 s"] by (simp add: ds)
  ultimately have p: "take (length ds) s = ds"
    by (simp add: min_def)
  have 1: "s = ds @ r"
    using p r by (metis append_take_drop_id)
  have 2: "list_all isDigit ds"
    by (simp add: ds list_all_iff) (meson set_takeWhileD)
  have 3: "length ds < 2 \<longrightarrow> (case r of [] \<Rightarrow> True | c # _ \<Rightarrow> \<not> isDigit c)"
  proof (cases r)
    case Nil
    then show ?thesis by simp
  next
    case (Cons c r')
    show ?thesis
    proof
      assume lt: "length ds < 2"
      have "take 2 s = ds @ take (2 - length ds) (c # r')"
        using 1 Cons l by simp
      then obtain r'' where t: "take 2 s = ds @ c # r''"
        using lt by (cases "2 - length ds") auto
      have "takeWhile isDigit (ds @ c # r'') = ds"
        using ds t by simp
      then have "\<not> isDigit c"
        using 2 by (auto simp: takeWhile_append2 list_all_iff split: if_splits)
      then show "case r of [] \<Rightarrow> True | c # _ \<Rightarrow> \<not> isDigit c"
        by (simp add: Cons)
    qed
  qed
  from 1 2 l 3 show ?thesis by simp
qed

lemma takeDigits_exact:
  assumes "digits12 base" and "case rest of [] \<Rightarrow> True | c # _ \<Rightarrow> \<not> isDigit c"
  shows "takeDigits (base @ rest) = (base, rest)"
proof -
  have b: "base \<noteq> []" "length base \<le> 2" "\<forall>c\<in>set base. isDigit c"
    using assms(1) by (auto simp: digits12_def list_all_iff)
  have "take 2 (base @ rest) = base @ take (2 - length base) rest"
    using b(2) by simp
  then have "takeWhile isDigit (take 2 (base @ rest)) = base @ takeWhile isDigit (take (2 - length base) rest)"
    using b(3) by (simp add: takeWhile_append2)
  moreover have "takeWhile isDigit (take (2 - length base) rest) = []"
    using assms(2) by (cases rest; cases "2 - length base") auto
  ultimately show ?thesis
    by (simp add: takeDigits_def Let_def)
qed

lemma spaces_split: "s = takeWhile isWhiteSpace s @ dropWhile isWhiteSpace s \<and> spaces (takeWhile isWhiteSpace s)"
  by (simp add: spaces_def list_all_iff) (meson set_takeWhileD)

lemma dropWhile_spaces:
  "spaces ws \<Longrightarrow> (case s of [] \<Rightarrow> True | c # _ \<Rightarrow> \<not> isWhiteSpace c) \<Longrightarrow>
   dropWhile isWhiteSpace (ws @ s) = s"
  by (cases s) (auto simp: spaces_def list_all_iff dropWhile_append)

lemma wordEnd_no_digit: "wordEnd r \<Longrightarrow> (case r of [] \<Rightarrow> True | c # _ \<Rightarrow> \<not> isDigit c)"
  by (auto simp: wordEnd_def digit_is_word split: list.splits)

lemma digits12_head: "digits12 ds \<Longrightarrow> \<exists>d ds'. ds = d # ds' \<and> isDigit d"
  by (cases ds) (auto simp: digits12_def)

lemma dropWhile_spaces_digits:
  assumes "spaces ws" "digits12 ds"
  shows "dropWhile isWhiteSpace (ws @ ds @ r) = ds @ r"
proof -
  obtain d ds' where "ds = d # ds'" "isDigit d"
    using assms(2) digits12_head by blast
  then show ?thesis
    using dropWhile_spaces[OF assms(1), of "ds @ r"] by (simp add: digit_not_space)
qed

lemma matchExtra_sound:
  assumes "matchExtra s = Some e"
  shows "\<exists>ws' ws'' rest'. s = ws' @ CHR ''+'' # ws'' @ e @ rest' \<and> spaces ws' \<and> spaces ws''
           \<and> digits12 e \<and> wordEnd rest'"
proof -
  obtain r where d: "dropWhile isWhiteSpace s = CHR ''+'' # r"
    using assms by (auto simp: matchExtra_def split: list.splits if_splits)
  obtain r' where t: "takeDigits (dropWhile isWhiteSpace r) = (e, r')" and e: "e \<noteq> []" and w: "wordEnd r'"
    using assms d by (auto simp: matchExtra_def Let_def split: prod.splits if_splits)
  have s1: "s = takeWhile isWhiteSpace s @ CHR ''+'' # r"
    using d spaces_split[of s] by simp
  have s2: "r = takeWhile isWhiteSpace r @ e @ r'"
    using takeDigits_split[OF t] spaces_split[of r] by simp
  have "digits12 e"
    using takeDigits_split[OF t] e by (simp add: digits12_def)
  then show ?thesis
    using s1 s2 w spaces_split[of s] spaces_split[of r] by (metis append.assoc)
qed

lemma matchExtra_complete:
  assumes "spaces ws'" "spaces ws''" "digits12 e" "wordEnd rest'"
  shows "matchExtra (ws' @ CHR ''+'' # ws'' @ e @ rest') = Some e"
proof -
  have 1: "dropWhile isWhiteSpace (ws' @ CHR ''+'' # ws'' @ e @ rest') = CHR ''+'' # ws'' @ e @ rest'"
    using dropWhile_spaces[OF assms(1), of "CHR ''+'' # ws'' @ e @ rest'"] plus_class by simp
  have 2: "dropWhile isWhiteSpace (ws'' @ e @ rest') = e @ rest'"
    using dropWhile_spaces_digits[OF assms(2,3)] by simp
  have 3: "takeDigits (e @ rest') = (e, rest')"
    using takeDigits_exact[OF assms(3)] wordEnd_no_digit[OF assms(4)] by simp
  have "e \<noteq> []" using assms(3) by (simp add: digits12_def)
  then show ?thesis
    by (simp add: matchExtra_def 1 2 3 assms(4))
qed

lemma matchExtra_no_digit:
  "matchExtra r \<noteq> None \<Longrightarrow> (case r of [] \<Rightarrow> True | c # _ \<Rightarrow> \<not> isDigit c)"
proof (cases r)
  case Nil
  then show ?thesis by simp
next
  case (Cons c r')
  assume "matchExtra r \<noteq> None"
  then have "isWhiteSpace c \<or> c = CHR ''+''"
    using Cons by (auto simp: matchExtra_def split: list.splits if_splits)
  then show ?thesis
    using Cons digit_not_space plus_class by auto
qed

text \<open>The value of the matcher at the head of a text that starts like a token.\<close>

lemma matchTokenAt_eq:
  assumes "t = CHR ''t'' \<or> t = CHR ''T''" "spaces ws" "digits12 base"
    and "case rest of [] \<Rightarrow> True | c # _ \<Rightarrow> \<not> isDigit c"
  shows "matchTokenAt (t # ws @ base @ rest) =
     (case matchExtra rest of
        Some e \<Rightarrow> Some (base, Some e)
      | None \<Rightarrow> if wordEnd rest then Some (base, None) else None)"
proof -
  have 1: "dropWhile isWhiteSpace (ws @ base @ rest) = base @ rest"
    using dropWhile_spaces_digits[OF assms(2,3)] by simp
  have 2: "takeDigits (base @ rest) = (base, rest)"
    using takeDigits_exact[OF assms(3,4)] by simp
  have "base \<noteq> []" using assms(3) by (simp add: digits12_def)
  then show ?thesis
    using assms(1) by (auto simp: matchTokenAt_def 1 2 split: option.splits)
qed

lemma matchTokenAt_sound:
  assumes "matchTokenAt s = Some (base, extra)"
  shows "\<exists>t ws rest. s = t # ws @ base @ rest \<and> (t = CHR ''t'' \<or> t = CHR ''T'') \<and> spaces ws
           \<and> digits12 base
           \<and> (case extra of None \<Rightarrow> wordEnd rest \<and> matchExtra rest = None
                | Some e \<Rightarrow> matchExtra rest = Some e)"
proof -
  obtain t r where s: "s = t # r" and t: "t = CHR ''t'' \<or> t = CHR ''T''"
    using assms by (auto simp: matchTokenAt_def split: list.splits if_splits)
  obtain b r' where td: "takeDigits (dropWhile isWhiteSpace r) = (b, r')"
    by (cases "takeDigits (dropWhile isWhiteSpace r)") auto
  have m: "b \<noteq> [] \<and> (case matchExtra r' of Some e \<Rightarrow> Some (b, Some e)
             | None \<Rightarrow> if wordEnd r' then Some (b, None) else None) = Some (base, extra)"
    using assms s t td by (auto simp: matchTokenAt_def split: if_splits)
  then have bb: "b = base"
    by (auto split: option.splits if_splits)
  have r: "r = takeWhile isWhiteSpace r @ base @ r'"
    using takeDigits_split[OF td] spaces_split[of r] bb by simp
  have d: "digits12 base"
    using takeDigits_split[OF td] m bb by (simp add: digits12_def)
  have e: "case extra of None \<Rightarrow> wordEnd r' \<and> matchExtra r' = None
                | Some e \<Rightarrow> matchExtra r' = Some e"
    using m by (auto split: option.splits if_splits)
  show ?thesis
    using s t r d e spaces_split[of r] by blast
qed

lemma searchToken_sound:
  "searchToken pw s = Some m \<Longrightarrow>
   \<exists>pre suf. s = pre @ suf \<and> (if pre = [] then \<not> pw else \<not> isWordChar (last pre))
     \<and> matchTokenAt suf = Some m
     \<and> (\<forall>pre' suf'. s = pre' @ suf' \<and> length pre' < length pre
            \<and> (if pre' = [] then \<not> pw else \<not> isWordChar (last pre'))
          \<longrightarrow> matchTokenAt suf' = None)"
proof (induction s arbitrary: pw)
  case Nil
  then show ?case by simp
next
  case (Cons c cs)
  show ?case
  proof (cases "(if pw then None else matchTokenAt (c # cs)) = None")
    case False
    then have "\<not> pw" "matchTokenAt (c # cs) = Some m"
      using Cons.prems by (auto split: if_splits)
    then show ?thesis
      by (rule_tac x = "[]" in exI, rule_tac x = "c # cs" in exI) simp
  next
    case True
    then have "searchToken (isWordChar c) cs = Some m"
      using Cons.prems by simp
    from Cons.IH[OF this] obtain pre suf where
      ih: "cs = pre @ suf" "if pre = [] then \<not> isWordChar c else \<not> isWordChar (last pre)"
          "matchTokenAt suf = Some m"
          "\<forall>pre' suf'. cs = pre' @ suf' \<and> length pre' < length pre
              \<and> (if pre' = [] then \<not> isWordChar c else \<not> isWordChar (last pre'))
            \<longrightarrow> matchTokenAt suf' = None"
      by blast
    have min: "\<forall>pre' suf'. c # cs = pre' @ suf' \<and> length pre' < length (c # pre)
            \<and> (if pre' = [] then \<not> pw else \<not> isWordChar (last pre'))
          \<longrightarrow> matchTokenAt suf' = None"
    proof (intro allI impI)
      fix pre' suf'
      assume a: "c # cs = pre' @ suf' \<and> length pre' < length (c # pre)
            \<and> (if pre' = [] then \<not> pw else \<not> isWordChar (last pre'))"
      show "matchTokenAt suf' = None"
      proof (cases pre')
        case Nil
        then show ?thesis using a True by (auto split: if_splits)
      next
        case (Cons c' p')
        then have "cs = p' @ suf'" "length p' < length pre" "c' = c"
          using a by auto
        moreover have "if p' = [] then \<not> isWordChar c else \<not> isWordChar (last p')"
          using a Cons by (auto split: if_splits)
        ultimately show ?thesis using ih(4) by blast
      qed
    qed
    have "c # cs = (c # pre) @ suf"
      using ih(1) by simp
    moreover have "if c # pre = [] then \<not> pw else \<not> isWordChar (last (c # pre))"
      using ih(2) by (simp split: if_splits)
    ultimately show ?thesis
      using ih(3) min by blast
  qed
qed


lemma tokenAt_match:
  assumes "tokenAt s n base extra"
  shows "\<exists>pre suf e'. s = pre @ suf \<and> length pre = n \<and> wordStart pre
           \<and> matchTokenAt suf = Some (base, e') \<and> (extra = None \<or> e' = extra)"
proof -
  obtain pre t ws rest where
    d: "s = pre @ t # ws @ base @ rest" "length pre = n" "wordStart pre"
       "t = CHR ''t'' \<or> t = CHR ''T''" "spaces ws" "digits12 base"
    and x: "case extra of None \<Rightarrow> wordEnd rest
            | Some e \<Rightarrow> (\<exists>ws' ws'' rest'. rest = ws' @ CHR ''+'' # ws'' @ e @ rest' \<and> spaces ws'
                 \<and> spaces ws'' \<and> digits12 e \<and> wordEnd rest')"
    using assms unfolding tokenAt_def by blast
  show ?thesis
  proof (cases extra)
    case None
    then have w: "wordEnd rest" using x by simp
    have "matchTokenAt (t # ws @ base @ rest) =
        (case matchExtra rest of Some e \<Rightarrow> Some (base, Some e) | None \<Rightarrow> Some (base, None))"
      using matchTokenAt_eq[OF d(4,5,6) wordEnd_no_digit[OF w]] w by (simp split: option.splits)
    then obtain e' where "matchTokenAt (t # ws @ base @ rest) = Some (base, e')"
      by (cases "matchExtra rest") auto
    then show ?thesis using d None by blast
  next
    case (Some e)
    then have m: "matchExtra rest = Some e"
      using x matchExtra_complete by auto
    then have "case rest of [] \<Rightarrow> True | c # _ \<Rightarrow> \<not> isDigit c"
      using matchExtra_no_digit[of rest] by simp
    from matchTokenAt_eq[OF d(4,5,6) this]
    have "matchTokenAt (t # ws @ base @ rest) = Some (base, Some e)"
      using m by simp
    then show ?thesis using d Some by blast
  qed
qed

lemma match_tokenAt:
  assumes "matchTokenAt suf = Some (base, extra)" "wordStart pre"
  shows "tokenAt (pre @ suf) (length pre) base extra"
proof -
  obtain t ws rest where
    d: "suf = t # ws @ base @ rest" "t = CHR ''t'' \<or> t = CHR ''T''" "spaces ws" "digits12 base"
    and x: "case extra of None \<Rightarrow> wordEnd rest \<and> matchExtra rest = None
            | Some e \<Rightarrow> matchExtra rest = Some e"
    using matchTokenAt_sound[OF assms(1)] by blast
  have "case extra of None \<Rightarrow> wordEnd rest
          | Some e \<Rightarrow> (\<exists>ws' ws'' rest'. rest = ws' @ CHR ''+'' # ws'' @ e @ rest' \<and> spaces ws'
                 \<and> spaces ws'' \<and> digits12 e \<and> wordEnd rest')"
    using x matchExtra_sound by (cases extra) auto
  then show ?thesis
    unfolding tokenAt_def using d assms(2) by blast
qed

lemma wordStart_if: "(if pre = [] then \<not> False else \<not> isWordChar (last pre)) = wordStart pre"
  by (simp add: wordStart_def)

text \<open>The match is the token at the leftmost position that has one, with its extra if any.\<close>

lemma titleMatch_token:
  assumes "titleMatch s = Some (base, extra)"
  shows "\<exists>n. tokenAt s n base extra
            \<and> (\<forall>n' b' e'. tokenAt s n' b' e' \<longrightarrow>
                  n \<le> n' \<and> (n' = n \<longrightarrow> b' = base \<and> (e' = None \<or> e' = extra)))"
proof -
  obtain pre suf where
    p: "s = pre @ suf" "wordStart pre" "matchTokenAt suf = Some (base, extra)"
    and min: "\<forall>pre' suf'. s = pre' @ suf' \<and> length pre' < length pre \<and> wordStart pre'
                \<longrightarrow> matchTokenAt suf' = None"
    using searchToken_sound[of False s "(base, extra)", unfolded wordStart_if] assms
    unfolding titleMatch_def by blast
  have t: "tokenAt s (length pre) base extra"
    using match_tokenAt[OF p(3,2)] p(1) by simp
  have "\<forall>n' b' e'. tokenAt s n' b' e' \<longrightarrow>
          length pre \<le> n' \<and> (n' = length pre \<longrightarrow> b' = base \<and> (e' = None \<or> e' = extra))"
  proof (intro allI impI)
    fix n' b' e'
    assume "tokenAt s n' b' e'"
    then obtain pre' suf' x where
      q: "s = pre' @ suf'" "length pre' = n'" "wordStart pre'"
         "matchTokenAt suf' = Some (b', x)" "e' = None \<or> x = e'"
      using tokenAt_match by blast
    have le: "length pre \<le> n'"
      using min q by (metis not_le_imp_less option.distinct(1))
    have "n' = length pre \<longrightarrow> b' = base \<and> (e' = None \<or> e' = extra)"
    proof
      assume "n' = length pre"
      then have "pre' = pre \<and> suf' = suf"
        using p(1) q(1,2) by (metis append_eq_append_conv)
      then show "b' = base \<and> (e' = None \<or> e' = extra)"
        using p(3) q(4,5) by auto
    qed
    with le show "length pre \<le> n' \<and> (n' = length pre \<longrightarrow> b' = base \<and> (e' = None \<or> e' = extra))"
      by simp
  qed
  with t show ?thesis by blast
qed







section \<open>Properties of the aggregation\<close>

subsection \<open>The scan of a fixed store\<close>

lemma rangeOf_page:
  "0 < pageSize \<Longrightarrow>
   rangeOf rows (int offset) (int offset + int pageSize - 1) = Inr (take pageSize (drop offset rows))"
  by (simp add: rangeOf_def)

lemma replicate_div_step:
  fixes k p :: nat
  assumes "0 < p" "p \<le> k"
  shows "replicate (k div p) p @ [k mod p] = p # replicate ((k - p) div p) p @ [(k - p) mod p]"
proof -
  have "k div p = Suc ((k - p) div p)"
    using assms by (simp add: le_div_geq)
  moreover have "k mod p = (k - p) mod p"
    using assms by (simp add: le_mod_geq)
  ultimately show ?thesis by simp
qed

lemma aggregateLoop_rangeOf:
  assumes "0 < pageSize"
  shows "aggregateLoop (rangeOf rows) adminIndex pageSize offset (st, trace) =
     Some (Inr (foldl (processRow adminIndex) st (drop offset rows),
                trace @ replicate ((length rows - offset) div pageSize) pageSize
                      @ [(length rows - offset) mod pageSize]))"
proof (induction "length rows - offset" arbitrary: offset st trace rule: less_induct)
  case less
  let ?page = "take pageSize (drop offset rows)"
  let ?k = "length rows - offset"
  have len: "length ?page = min pageSize ?k" by simp
  show ?case
  proof (cases "?k = 0")
    case True
    then show ?thesis
      using assms by (subst aggregateLoop.simps) (simp add: rangeOf_page)
  next
    case False
    show ?thesis
    proof (cases "?k < pageSize")
      case True
      then have "?page = drop offset rows" by simp
      then show ?thesis
        using assms True False
        by (subst aggregateLoop.simps) (simp add: rangeOf_page Let_def)
    next
      case ge: False
      then have full: "length ?page = pageSize" by simp
      have less': "length rows - (offset + pageSize) < ?k"
        using assms False by simp
      have ih: "aggregateLoop (rangeOf rows) adminIndex pageSize (offset + pageSize)
                  (foldl (processRow adminIndex) st ?page, trace @ [pageSize]) =
            Some (Inr (foldl (processRow adminIndex) (foldl (processRow adminIndex) st ?page)
                         (drop (offset + pageSize) rows),
                       (trace @ [pageSize])
                         @ replicate ((length rows - (offset + pageSize)) div pageSize) pageSize
                         @ [(length rows - (offset + pageSize)) mod pageSize]))"
        by (rule less.hyps[OF less'])
      have fold: "foldl (processRow adminIndex) (foldl (processRow adminIndex) st ?page)
                         (drop (offset + pageSize) rows)
                  = foldl (processRow adminIndex) st (drop offset rows)"
      proof -
        have "drop offset rows = ?page @ drop (offset + pageSize) rows"
          by (metis add.commute append_take_drop_id drop_drop)
        then show ?thesis by (metis foldl_append)
      qed
      have tr: "(trace @ [pageSize])
                         @ replicate ((length rows - (offset + pageSize)) div pageSize) pageSize
                         @ [(length rows - (offset + pageSize)) mod pageSize]
               = trace @ replicate (?k div pageSize) pageSize @ [?k mod pageSize]"
        using replicate_div_step[of pageSize ?k] assms ge by (simp add: algebra_simps)
      have "aggregateLoop (rangeOf rows) adminIndex pageSize offset (st, trace) =
            aggregateLoop (rangeOf rows) adminIndex pageSize (offset + pageSize)
                  (foldl (processRow adminIndex) st ?page, trace @ [pageSize])"
        using assms full False
        by (subst aggregateLoop.simps) (simp add: rangeOf_page Let_def)
      then show ?thesis
        by (simp only: ih fold tr)
    qed
  qed
qed

text \<open>
  C4, as stated, fails when the page size divides the number of rows: the last full page
  is not short, so one more request is made, which returns no row. Two rows in pages of
  two take two requests, and the empty store takes one.
\<close>

theorem full_last_page_counterexample:
  "requestsOf (aggregateLoop (rangeOf [rowA, rowB]) scenarioIndex 2 0 (initialState, [])) = Some 2
   \<and> (length [rowA, rowB] + 2 - 1) div 2 = (1 :: nat)
   \<and> requestsOf (aggregateLoop (rangeOf []) scenarioIndex 5000 0 (initialState, [])) = Some 1
   \<and> (length ([] :: ListingRow list) + 5000 - 1) div 5000 = (0 :: nat)"
  by (simp add: aggregateLoop_rangeOf requestsOf_def)

text \<open>
  C4, amended. Over a store of N rows and with a page size P of at least one, the pass
  ends after exactly N div P + 1 requests: N div P requests that return P rows each,
  then one that returns the N mod P rows that are left, fewer than P and possibly none.
  This is the first short page, and no count of the store is read. The number of
  requests is the rounded-up quotient of N by P exactly when P does not divide N.
\<close>

theorem page_requests:
  assumes "0 < pageSize"
  shows "(\<exists>st. aggregateLoop (rangeOf rows) adminIndex pageSize 0 (initialState, []) =
            Some (Inr (st, replicate (length rows div pageSize) pageSize
                           @ [length rows mod pageSize])))
       \<and> length rows mod pageSize < pageSize
       \<and> requestsOf (aggregateLoop (rangeOf rows) adminIndex pageSize 0 (initialState, []))
           = Some (length rows div pageSize + 1)
       \<and> (length rows mod pageSize \<noteq> 0 \<longrightarrow>
            requestsOf (aggregateLoop (rangeOf rows) adminIndex pageSize 0 (initialState, []))
              = Some ((length rows + pageSize - 1) div pageSize))"
proof -
  have l: "aggregateLoop (rangeOf rows) adminIndex pageSize 0 (initialState, []) =
     Some (Inr (foldl (processRow adminIndex) initialState rows,
                replicate (length rows div pageSize) pageSize @ [length rows mod pageSize]))"
    using aggregateLoop_rangeOf[OF assms, of rows adminIndex 0 initialState "[]"] by simp
  have c: "length rows mod pageSize \<noteq> 0 \<longrightarrow>
             (length rows + pageSize - 1) div pageSize = length rows div pageSize + 1"
  proof
    assume nz: "length rows mod pageSize \<noteq> 0"
    define q where "q = length rows div pageSize"
    define r where "r = length rows mod pageSize"
    have n: "length rows = q * pageSize + r"
      by (simp add: q_def r_def)
    have r: "1 \<le> r" "r - 1 < pageSize"
      using nz assms by (simp_all add: r_def less_imp_diff_less)
    have "length rows + pageSize - 1 = (r - 1) + (q + 1) * pageSize"
      using n r(1) by (simp add: add_mult_distrib)
    moreover have "((r - 1) + (q + 1) * pageSize) div pageSize = (q + 1) + (r - 1) div pageSize"
      using div_mult_self1[of pageSize "r - 1" "q + 1"] assms by blast
    ultimately have "(length rows + pageSize - 1) div pageSize = (q + 1) + (r - 1) div pageSize"
      by (simp only:)
    then show "(length rows + pageSize - 1) div pageSize = length rows div pageSize + 1"
      using r(2) by (simp add: q_def)
  qed
  show ?thesis
    using l c assms by (simp add: requestsOf_def)
qed

theorem page_requests_witness:
  "(0 :: nat) < 2
   \<and> aggregateLoop (rangeOf [rowA, rowB, rowC]) scenarioIndex 2 0 (initialState, []) =
       Some (Inr (foldl (processRow scenarioIndex) initialState [rowA, rowB, rowC], [2, 1]))
   \<and> requestsOf (aggregateLoop (rangeOf [rowA, rowB, rowC]) scenarioIndex 2 0 (initialState, []))
       = Some 2
   \<and> (length [rowA, rowB, rowC] + 2 - 1) div 2 = (2 :: nat)"
proof -
  have p: "(0 :: nat) < 2" by simp
  have r: "replicate (length [rowA, rowB, rowC] div 2) (2 :: nat) @ [length [rowA, rowB, rowC] mod 2]
           = [2, 1]"
    by (simp add: numeral_3_eq_3)
  from page_requests[OF p, of "[rowA, rowB, rowC]" scenarioIndex]
  have "requestsOf (aggregateLoop (rangeOf [rowA, rowB, rowC]) scenarioIndex 2 0 (initialState, []))
       = Some 2"
    by simp
  moreover have "aggregateLoop (rangeOf [rowA, rowB, rowC]) scenarioIndex 2 0 (initialState, []) =
       Some (Inr (foldl (processRow scenarioIndex) initialState [rowA, rowB, rowC], [2, 1]))"
    using aggregateLoop_rangeOf[OF p, of "[rowA, rowB, rowC]" scenarioIndex 0 initialState "[]"] r
    by simp
  ultimately show ?thesis by simp
qed

subsection \<open>Maps in insertion order\<close>

lemma map_get_map_set: "map_get (map_set m k v) k' = (if k' = k then Some v else map_get m k')"
  by (induction m) (auto simp: map_get_def)

lemma keys_map_set: "set (map fst (map_set m k v)) = insert k (set (map fst m))"
proof (induction m)
  case Nil
  then show ?case by simp
next
  case (Cons p m)
  obtain k' v' where p: "p = (k', v')" by (cases p)
  show ?case
  proof (cases "k' = k")
    case True
    then show ?thesis using p by simp
  next
    case False
    have "set (map fst (map_set (p # m) k v)) = insert k' (set (map fst (map_set m k v)))"
      using p False by simp
    also have "\<dots> = insert k' (insert k (set (map fst m)))"
      by (simp only: Cons.IH)
    finally show ?thesis using p by auto
  qed
qed

lemma distinct_map_set: "distinct (map fst m) \<Longrightarrow> distinct (map fst (map_set m k v))"
proof (induction m)
  case Nil
  then show ?case by simp
next
  case (Cons p m)
  obtain k' v' where p: "p = (k', v')" by (cases p)
  show ?case
  proof (cases "k' = k")
    case True
    then show ?thesis using Cons.prems p by simp
  next
    case False
    have "k' \<notin> set (map fst (map_set m k v))"
      using Cons.prems p False by (simp only: keys_map_set) simp
    then show ?thesis using Cons p False by simp
  qed
qed

lemma sum_map_set:
  fixes f :: "'v \<Rightarrow> nat"
  shows "sum_list (map (\<lambda>p. f (snd p)) (map_set m k v))
           + (case map_get m k of None \<Rightarrow> 0 | Some old \<Rightarrow> f old)
         = sum_list (map (\<lambda>p. f (snd p)) m) + f v"
  by (induction m) (auto simp: map_get_def)

lemma map_get_values:
  assumes "distinct (map fst m)"
  shows "b \<in> set (map_values m) \<longleftrightarrow> (\<exists>k. map_get m k = Some b)"
proof
  note d = assms
  assume "b \<in> set (map_values m)"
  then obtain k where "(k, b) \<in> set m"
    by (auto simp: map_values_def)
  then have "map_get m k = Some b"
    using d by (simp add: map_get_def)
  then show "\<exists>k. map_get m k = Some b" ..
next
  assume "\<exists>k. map_get m k = Some b"
  then obtain k where "map_of m k = Some b"
    by (auto simp: map_get_def)
  then have "(k, b) \<in> set m"
    by (rule map_of_SomeD)
  then show "b \<in> set (map_values m)"
    by (force simp: map_values_def)
qed

subsection \<open>The buckets of a pass\<close>

lemma processRow_components:
  "regionMaps_district (processRow adminIndex st row) =
     bumpRegion (regionMaps_district st) (regionLabel DistrictLevel adminIndex row) (listingTypeOf row)"
  "regionMaps_municipality (processRow adminIndex st row) =
     bumpRegion (regionMaps_municipality st) (regionLabel MunicipalityLevel adminIndex row)
       (listingTypeOf row)"
  "regionMaps_parish (processRow adminIndex st row) =
     bumpRegion (regionMaps_parish st) (regionLabel ParishLevel adminIndex row) (listingTypeOf row)"
  "typologyMap (processRow adminIndex st row) =
     bumpTypology (typologyMap st) (typologyLabel row) (listingTypeOf row)"
  "totalBuy (processRow adminIndex st row) =
     totalBuy st + (if listingTypeOf row = ''buy'' then 1 else 0)"
  "totalRent (processRow adminIndex st row) =
     totalRent st + (if listingTypeOf row = ''rent'' then 1 else 0)"
  by (simp_all add: processRow_def Let_def regionLabel_def typologyLabel_def listingTypeOf_def)

lemma listingTypeOf_cases: "listingTypeOf row = ''buy'' \<or> listingTypeOf row = ''rent''"
  by (simp add: listingTypeOf_def)

lemma buy_not_rent: "''buy'' \<noteq> ''rent''"
  by simp

text \<open>The bucket that a list of rows gives to a key.\<close>

lemma bumpRegion_get:
  "map_get (bumpRegion m k lt) k' =
     (if k' = k
      then Some (countListing lt (case map_get m k of Some c \<Rightarrow> c
                   | None \<Rightarrow> \<lparr>buy_count = 0, rent_count = 0, total_count = 0, region = k\<rparr>))
      else map_get m k')"
  by (simp add: bumpRegion_def Let_def map_get_map_set)

lemma bumpTypology_get:
  "map_get (bumpTypology m k lt) k' =
     (if k' = k
      then Some (countListing lt (case map_get m k of Some c \<Rightarrow> c
                   | None \<Rightarrow> \<lparr>buy_count = 0, rent_count = 0, total_count = 0, typology = k\<rparr>))
      else map_get m k')"
  by (simp add: bumpTypology_def Let_def map_get_map_set)

lemma bumpRegion_distinct: "distinct (map fst m) \<Longrightarrow> distinct (map fst (bumpRegion m k lt))"
  by (simp add: bumpRegion_def Let_def distinct_map_set)

lemma bumpTypology_distinct: "distinct (map fst m) \<Longrightarrow> distinct (map fst (bumpTypology m k lt))"
  by (simp add: bumpTypology_def Let_def distinct_map_set)

lemma bumpRegion_sum:
  "sum_list (map (\<lambda>p. total_count (snd p)) (bumpRegion m k lt))
     = sum_list (map (\<lambda>p. total_count (snd p)) m) + 1"
  using sum_map_set[of total_count m k
      "countListing lt (case map_get m k of Some c \<Rightarrow> c
          | None \<Rightarrow> \<lparr>buy_count = 0, rent_count = 0, total_count = 0, region = k\<rparr>)"]
  by (auto simp: bumpRegion_def Let_def countListing_def split: option.splits)

lemma bumpTypology_sum:
  "sum_list (map (\<lambda>p. total_count (snd p)) (bumpTypology m k lt))
     = sum_list (map (\<lambda>p. total_count (snd p)) m) + 1"
  using sum_map_set[of total_count m k
      "countListing lt (case map_get m k of Some c \<Rightarrow> c
          | None \<Rightarrow> \<lparr>buy_count = 0, rent_count = 0, total_count = 0, typology = k\<rparr>)"]
  by (auto simp: bumpTypology_def Let_def countListing_def split: option.splits)

lemma region_buckets:
  fixes lab :: "ListingRow \<Rightarrow> string"
  defines "M \<equiv> \<lambda>rows. foldl (\<lambda>m row. bumpRegion m (lab row) (listingTypeOf row)) [] rows"
  shows "distinct (map fst (M rows))"
    and "sum_list (map (\<lambda>p. total_count (snd p)) (M rows)) = length rows"
    and "map_get (M rows) k =
      (if k \<in> lab ` set rows
       then Some \<lparr>buy_count = length (filter (\<lambda>r. lab r = k \<and> listingTypeOf r = ''buy'') rows),
                  rent_count = length (filter (\<lambda>r. lab r = k \<and> listingTypeOf r = ''rent'') rows),
                  total_count = length (filter (\<lambda>r. lab r = k) rows),
                  region = k\<rparr>
       else None)"
proof -
  have step: "M (rows @ [row]) = bumpRegion (M rows) (lab row) (listingTypeOf row)" for rows row
    by (simp add: M_def)
  show "distinct (map fst (M rows))"
    by (induction rows rule: rev_induct) (simp_all add: M_def bumpRegion_distinct)
  show "sum_list (map (\<lambda>p. total_count (snd p)) (M rows)) = length rows"
    by (induction rows rule: rev_induct) (simp_all add: step bumpRegion_sum, simp add: M_def)
  show "map_get (M rows) k =
      (if k \<in> lab ` set rows
       then Some \<lparr>buy_count = length (filter (\<lambda>r. lab r = k \<and> listingTypeOf r = ''buy'') rows),
                  rent_count = length (filter (\<lambda>r. lab r = k \<and> listingTypeOf r = ''rent'') rows),
                  total_count = length (filter (\<lambda>r. lab r = k) rows),
                  region = k\<rparr>
       else None)"
  proof (induction rows arbitrary: k rule: rev_induct)
    case Nil
    then show ?case by (simp add: M_def map_get_def)
  next
    case (snoc row rows)
    show ?case
    proof (cases "lab row = k")
      case False
      then show ?thesis
        using snoc[of k] by (auto simp: step bumpRegion_get)
    next
      case True
      have none: "lab row \<notin> lab ` set rows \<Longrightarrow>
                    filter (\<lambda>r. lab r = lab row \<and> P r) rows = []" for P
        by (simp add: filter_empty_conv) (metis imageI)
      show ?thesis
        using snoc[of k] True listingTypeOf_cases[of row] none none[of "\<lambda>r. True"]
        by (auto simp: step bumpRegion_get countListing_def)
    qed
  qed
qed

lemma typology_buckets:
  fixes lab :: "ListingRow \<Rightarrow> string"
  defines "M \<equiv> \<lambda>rows. foldl (\<lambda>m row. bumpTypology m (lab row) (listingTypeOf row)) [] rows"
  shows "distinct (map fst (M rows))"
    and "sum_list (map (\<lambda>p. total_count (snd p)) (M rows)) = length rows"
    and "map_get (M rows) k =
      (if k \<in> lab ` set rows
       then Some \<lparr>buy_count = length (filter (\<lambda>r. lab r = k \<and> listingTypeOf r = ''buy'') rows),
                  rent_count = length (filter (\<lambda>r. lab r = k \<and> listingTypeOf r = ''rent'') rows),
                  total_count = length (filter (\<lambda>r. lab r = k) rows),
                  typology = k\<rparr>
       else None)"
proof -
  have step: "M (rows @ [row]) = bumpTypology (M rows) (lab row) (listingTypeOf row)" for rows row
    by (simp add: M_def)
  show "distinct (map fst (M rows))"
    by (induction rows rule: rev_induct) (simp_all add: M_def bumpTypology_distinct)
  show "sum_list (map (\<lambda>p. total_count (snd p)) (M rows)) = length rows"
    by (induction rows rule: rev_induct) (simp_all add: step bumpTypology_sum, simp add: M_def)
  show "map_get (M rows) k =
      (if k \<in> lab ` set rows
       then Some \<lparr>buy_count = length (filter (\<lambda>r. lab r = k \<and> listingTypeOf r = ''buy'') rows),
                  rent_count = length (filter (\<lambda>r. lab r = k \<and> listingTypeOf r = ''rent'') rows),
                  total_count = length (filter (\<lambda>r. lab r = k) rows),
                  typology = k\<rparr>
       else None)"
  proof (induction rows arbitrary: k rule: rev_induct)
    case Nil
    then show ?case by (simp add: M_def map_get_def)
  next
    case (snoc row rows)
    show ?case
    proof (cases "lab row = k")
      case False
      then show ?thesis
        using snoc[of k] by (auto simp: step bumpTypology_get)
    next
      case True
      have none: "lab row \<notin> lab ` set rows \<Longrightarrow>
                    filter (\<lambda>r. lab r = lab row \<and> P r) rows = []" for P
        by (simp add: filter_empty_conv) (metis imageI)
      show ?thesis
        using snoc[of k] True listingTypeOf_cases[of row] none none[of "\<lambda>r. True"]
        by (auto simp: step bumpTypology_get countListing_def)
    qed
  qed
qed

lemma pass_components:
  "regionMaps_district (foldl (processRow adminIndex) st rows) =
     foldl (\<lambda>m row. bumpRegion m (regionLabel DistrictLevel adminIndex row) (listingTypeOf row))
       (regionMaps_district st) rows"
  "regionMaps_municipality (foldl (processRow adminIndex) st rows) =
     foldl (\<lambda>m row. bumpRegion m (regionLabel MunicipalityLevel adminIndex row) (listingTypeOf row))
       (regionMaps_municipality st) rows"
  "regionMaps_parish (foldl (processRow adminIndex) st rows) =
     foldl (\<lambda>m row. bumpRegion m (regionLabel ParishLevel adminIndex row) (listingTypeOf row))
       (regionMaps_parish st) rows"
  "typologyMap (foldl (processRow adminIndex) st rows) =
     foldl (\<lambda>m row. bumpTypology m (typologyLabel row) (listingTypeOf row)) (typologyMap st) rows"
  "totalBuy (foldl (processRow adminIndex) st rows) + totalRent (foldl (processRow adminIndex) st rows)
     = totalBuy st + totalRent st + length rows"
  by (induction rows arbitrary: st) (simp_all add: processRow_components listingTypeOf_def)

subsection \<open>Sorting keeps the buckets\<close>

lemma mset_insertBy: "mset (insertBy cmp x ys) = add_mset x (mset ys)"
  by (induction ys) auto

lemma mset_sortBy: "mset (sortBy cmp xs) = mset xs"
proof -
  have "mset (foldl (\<lambda>sorted x. insertBy cmp x sorted) acc xs) = mset acc + mset xs" for acc
    by (induction xs arbitrary: acc) (simp_all add: mset_insertBy)
  then show ?thesis by (simp add: sortBy_def)
qed

lemma set_sortBy: "set (sortBy cmp xs) = set xs"
  using mset_sortBy[of cmp xs] by (metis set_mset_mset)

lemma sum_sortBy:
  fixes f :: "'a \<Rightarrow> nat"
  shows "sum_list (map f (sortBy cmp xs)) = sum_list (map f xs)"
proof -
  have "mset (map f (sortBy cmp xs)) = mset (map f xs)"
    by (simp add: mset_sortBy)
  then show ?thesis
    by (metis sum_mset_sum_list)
qed

lemma buy_rent_split:
  "length (filter (\<lambda>r. P r \<and> listingTypeOf r = ''buy'') rows)
     + length (filter (\<lambda>r. P r \<and> listingTypeOf r = ''rent'') rows)
   = length (filter P rows)"
  by (induction rows) (auto simp: listingTypeOf_def)

lemma region_bucket_counts:
  fixes lab :: "ListingRow \<Rightarrow> string"
  assumes b: "b = \<lparr>buy_count = length (filter (\<lambda>r. lab r = k \<and> listingTypeOf r = ''buy'') rows),
                  rent_count = length (filter (\<lambda>r. lab r = k \<and> listingTypeOf r = ''rent'') rows),
                  total_count = length (filter (\<lambda>r. lab r = k) rows),
                  region = k\<rparr>"
  shows "buy_count b + rent_count b = total_count b
         \<and> total_count b = length (filter (\<lambda>row. lab row = region b) rows)"
  apply (subst b)+
  apply (simp only: BreakdownCounts.select_convs RegionBreakdownRow.select_convs)
  apply (simp only: buy_rent_split[of "\<lambda>r. lab r = k" rows])
  done

lemma region_level:
  fixes lab :: "ListingRow \<Rightarrow> string" and rows :: "ListingRow list"
    and lc :: "string \<Rightarrow> string \<Rightarrow> int"
  defines "B \<equiv> sortRegions lc (map_values
             (foldl (\<lambda>m row. bumpRegion m (lab row) (listingTypeOf row)) [] rows))"
  shows "sum_list (map total_count B) = length rows"
    and "\<forall>b\<in>set B. buy_count b + rent_count b = total_count b
           \<and> total_count b = length (filter (\<lambda>row. lab row = region b) rows)"
    and "\<forall>row\<in>set rows. \<exists>b\<in>set B. region b = lab row"
    and "distinct (map region B)"
proof -
  let ?M = "foldl (\<lambda>m row. bumpRegion m (lab row) (listingTypeOf row)) [] rows"
  let ?bucket = "\<lambda>k. \<lparr>buy_count = length (filter (\<lambda>r. lab r = k \<and> listingTypeOf r = ''buy'') rows),
                  rent_count = length (filter (\<lambda>r. lab r = k \<and> listingTypeOf r = ''rent'') rows),
                  total_count = length (filter (\<lambda>r. lab r = k) rows),
                  region = k\<rparr>"
  have d: "distinct (map fst ?M)" by (rule region_buckets(1))
  have g: "map_get ?M k = (if k \<in> lab ` set rows then Some (?bucket k) else None)" for k
    by (rule region_buckets(3))
  have mem: "b \<in> set B \<longleftrightarrow> (\<exists>k. k \<in> lab ` set rows \<and> b = ?bucket k)" for b
  proof -
    have "b \<in> set B \<longleftrightarrow> (\<exists>k. map_get ?M k = Some b)"
      by (simp only: B_def sortRegions_def set_sortBy map_get_values[OF d])
    also have "\<dots> \<longleftrightarrow> (\<exists>k. k \<in> lab ` set rows \<and> b = ?bucket k)"
    proof
      assume "\<exists>k. map_get ?M k = Some b"
      then obtain k where k: "(if k \<in> lab ` set rows then Some (?bucket k) else None) = Some b"
        unfolding g by blast
      then have "k \<in> lab ` set rows" by (simp split: if_splits)
      moreover from this k have "b = ?bucket k" by (simp only: if_True option.inject)
      ultimately show "\<exists>k. k \<in> lab ` set rows \<and> b = ?bucket k" by blast
    next
      assume "\<exists>k. k \<in> lab ` set rows \<and> b = ?bucket k"
      then obtain k where "k \<in> lab ` set rows" "b = ?bucket k" by blast
      then have "map_get ?M k = Some b" by (simp only: g if_True)
      then show "\<exists>k. map_get ?M k = Some b" ..
    qed
    finally show ?thesis .
  qed
  show "sum_list (map total_count B) = length rows"
    using region_buckets(2)[of lab rows]
    by (simp add: B_def sortRegions_def sum_sortBy map_values_def comp_def)
  show "\<forall>b\<in>set B. buy_count b + rent_count b = total_count b
           \<and> total_count b = length (filter (\<lambda>row. lab row = region b) rows)"
  proof
    fix b assume "b \<in> set B"
    then obtain k where b: "b = ?bucket k" using mem by blast
    show "buy_count b + rent_count b = total_count b
           \<and> total_count b = length (filter (\<lambda>row. lab row = region b) rows)"
      by (rule region_bucket_counts[OF b])
  qed
  show "\<forall>row\<in>set rows. \<exists>b\<in>set B. region b = lab row"
  proof
    fix row assume "row \<in> set rows"
    then have "?bucket (lab row) \<in> set B" using mem by blast
    then show "\<exists>b\<in>set B. region b = lab row"
      by (rule bexI[rotated]) simp
  qed
  have "map region (map_values ?M) = map fst ?M"
  proof -
    have "\<forall>p\<in>set ?M. region (snd p) = fst p"
    proof
      fix p assume p: "p \<in> set ?M"
      then have "map_get ?M (fst p) = Some (snd p)"
        using d by (simp add: map_get_def)
      then have "snd p = ?bucket (fst p)"
        unfolding g by (simp split: if_splits)
      then have "region (snd p) = region (?bucket (fst p))"
        by (rule arg_cong)
      then show "region (snd p) = fst p"
        by simp
    qed
    then show ?thesis by (simp add: map_values_def)
  qed
  then have dd: "distinct (map region (map_values ?M))" using d by simp
  have e: "mset (map region B) = mset (map region (map_values ?M))"
    by (simp add: B_def sortRegions_def mset_sortBy)
  show "distinct (map region B)"
    by (rule iffD2[OF mset_eq_imp_distinct_iff[OF e] dd])
qed

lemma typology_bucket_counts:
  fixes lab :: "ListingRow \<Rightarrow> string"
  assumes b: "b = \<lparr>buy_count = length (filter (\<lambda>r. lab r = k \<and> listingTypeOf r = ''buy'') rows),
                  rent_count = length (filter (\<lambda>r. lab r = k \<and> listingTypeOf r = ''rent'') rows),
                  total_count = length (filter (\<lambda>r. lab r = k) rows),
                  typology = k\<rparr>"
  shows "buy_count b + rent_count b = total_count b
         \<and> total_count b = length (filter (\<lambda>row. lab row = typology b) rows)"
  apply (subst b)+
  apply (simp only: BreakdownCounts.select_convs TypologyBreakdownRow.select_convs)
  apply (simp only: buy_rent_split[of "\<lambda>r. lab r = k" rows])
  done

lemma typology_level:
  fixes lab :: "ListingRow \<Rightarrow> string" and rows :: "ListingRow list"
    and lc :: "string \<Rightarrow> string \<Rightarrow> int"
  defines "B \<equiv> sortTypologies lc (map_values
             (foldl (\<lambda>m row. bumpTypology m (lab row) (listingTypeOf row)) [] rows))"
  shows "sum_list (map total_count B) = length rows"
    and "\<forall>b\<in>set B. buy_count b + rent_count b = total_count b
           \<and> total_count b = length (filter (\<lambda>row. lab row = typology b) rows)"
    and "\<forall>row\<in>set rows. \<exists>b\<in>set B. typology b = lab row"
    and "distinct (map typology B)"
proof -
  let ?M = "foldl (\<lambda>m row. bumpTypology m (lab row) (listingTypeOf row)) [] rows"
  let ?bucket = "\<lambda>k. \<lparr>buy_count = length (filter (\<lambda>r. lab r = k \<and> listingTypeOf r = ''buy'') rows),
                  rent_count = length (filter (\<lambda>r. lab r = k \<and> listingTypeOf r = ''rent'') rows),
                  total_count = length (filter (\<lambda>r. lab r = k) rows),
                  typology = k\<rparr>"
  have d: "distinct (map fst ?M)" by (rule typology_buckets(1))
  have g: "map_get ?M k = (if k \<in> lab ` set rows then Some (?bucket k) else None)" for k
    by (rule typology_buckets(3))
  have mem: "b \<in> set B \<longleftrightarrow> (\<exists>k. k \<in> lab ` set rows \<and> b = ?bucket k)" for b
  proof -
    have "b \<in> set B \<longleftrightarrow> (\<exists>k. map_get ?M k = Some b)"
      by (simp only: B_def sortTypologies_def set_sortBy map_get_values[OF d])
    also have "\<dots> \<longleftrightarrow> (\<exists>k. k \<in> lab ` set rows \<and> b = ?bucket k)"
    proof
      assume "\<exists>k. map_get ?M k = Some b"
      then obtain k where k: "(if k \<in> lab ` set rows then Some (?bucket k) else None) = Some b"
        unfolding g by blast
      then have "k \<in> lab ` set rows" by (simp split: if_splits)
      moreover from this k have "b = ?bucket k" by (simp only: if_True option.inject)
      ultimately show "\<exists>k. k \<in> lab ` set rows \<and> b = ?bucket k" by blast
    next
      assume "\<exists>k. k \<in> lab ` set rows \<and> b = ?bucket k"
      then obtain k where "k \<in> lab ` set rows" "b = ?bucket k" by blast
      then have "map_get ?M k = Some b" by (simp only: g if_True)
      then show "\<exists>k. map_get ?M k = Some b" ..
    qed
    finally show ?thesis .
  qed
  show "sum_list (map total_count B) = length rows"
    using typology_buckets(2)[of lab rows]
    by (simp add: B_def sortTypologies_def sum_sortBy map_values_def comp_def)
  show "\<forall>b\<in>set B. buy_count b + rent_count b = total_count b
           \<and> total_count b = length (filter (\<lambda>row. lab row = typology b) rows)"
  proof
    fix b assume "b \<in> set B"
    then obtain k where b: "b = ?bucket k" using mem by blast
    show "buy_count b + rent_count b = total_count b
           \<and> total_count b = length (filter (\<lambda>row. lab row = typology b) rows)"
      by (rule typology_bucket_counts[OF b])
  qed
  show "\<forall>row\<in>set rows. \<exists>b\<in>set B. typology b = lab row"
  proof
    fix row assume "row \<in> set rows"
    then have "?bucket (lab row) \<in> set B" using mem by blast
    then show "\<exists>b\<in>set B. typology b = lab row"
      by (rule bexI[rotated]) simp
  qed
  have "map typology (map_values ?M) = map fst ?M"
  proof -
    have "\<forall>p\<in>set ?M. typology (snd p) = fst p"
    proof
      fix p assume p: "p \<in> set ?M"
      then have "map_get ?M (fst p) = Some (snd p)"
        using d by (simp add: map_get_def)
      then have "snd p = ?bucket (fst p)"
        unfolding g by (simp split: if_splits)
      then have "typology (snd p) = typology (?bucket (fst p))"
        by (rule arg_cong)
      then show "typology (snd p) = fst p"
        by simp
    qed
    then show ?thesis by (simp add: map_values_def)
  qed
  then have dd: "distinct (map typology (map_values ?M))" using d by simp
  have e: "mset (map typology B) = mset (map typology (map_values ?M))"
    by (simp add: B_def sortTypologies_def mset_sortBy)
  show "distinct (map typology B)"
    by (rule iffD2[OF mset_eq_imp_distinct_iff[OF e] dd])
qed

lemma regionLabel_unknown:
  "district (resolveAdminHierarchy (location_text row) adminIndex) = None \<Longrightarrow>
     regionLabel DistrictLevel adminIndex row = ''Unknown''"
  "municipality (resolveAdminHierarchy (location_text row) adminIndex) = None \<Longrightarrow>
     regionLabel MunicipalityLevel adminIndex row = ''Unknown''"
  "parish (resolveAdminHierarchy (location_text row) adminIndex) = None \<Longrightarrow>
     regionLabel ParishLevel adminIndex row = ''Unknown''"
  by (simp_all add: regionLabel_def orUnknown_def)

lemma regionsAt_pass:
  "regionsAt lvl (buildMetrics lc (foldl (processRow adminIndex) initialState rows)) =
     sortRegions lc (map_values
       (foldl (\<lambda>m row. bumpRegion m (regionLabel lvl adminIndex row) (listingTypeOf row)) [] rows))"
  by (cases lvl) (simp_all add: regionsAt_def buildMetrics_def pass_components initialState_def)

lemma typologies_pass:
  "typologies (buildMetrics lc (foldl (processRow adminIndex) initialState rows)) =
     sortTypologies lc (map_values
       (foldl (\<lambda>m row. bumpTypology m (typologyLabel row) (listingTypeOf row)) [] rows))"
  by (simp add: buildMetrics_def pass_components initialState_def)

lemma getImportDashboardMetrics_rangeOf:
  "0 < pageSize \<Longrightarrow>
   getImportDashboardMetrics lc (rangeOf rows) adminIndex pageSize =
     Some (Inr (buildMetrics lc (foldl (processRow adminIndex) initialState rows)))"
  by (simp add: getImportDashboardMetrics_def aggregateLoop_rangeOf)

text \<open>
  C1. Over a store of rows and with any page size of at least one, the pass returns the
  metrics of all the rows, the same for every page size. At each region level the totals
  of the buckets add up to the number of rows, and so do the totals of the typology
  buckets and the two overall counters together. Each bucket counts the rows that have
  its key, each row has a bucket at each level, a row without a name at a level has the
  key "Unknown" there, and in each bucket the buy and rent counts add up to the total.
\<close>

theorem aggregation_totals:
  fixes rows :: "ListingRow list" and adminIndex :: PortugalAdminIndex
    and lc :: "string \<Rightarrow> string \<Rightarrow> int" and pageSize :: nat
  assumes "0 < pageSize"
  defines "m \<equiv> buildMetrics lc (foldl (processRow adminIndex) initialState rows)"
  shows "getImportDashboardMetrics lc (rangeOf rows) adminIndex pageSize = Some (Inr m)
    \<and> (\<forall>lvl. sum_list (map total_count (regionsAt lvl m)) = length rows)
    \<and> sum_list (map total_count (typologies m)) = length rows
    \<and> total_buy m + total_rent m = length rows
    \<and> (\<forall>lvl. \<forall>b\<in>set (regionsAt lvl m).
          buy_count b + rent_count b = total_count b
          \<and> total_count b = length (filter (\<lambda>row. regionLabel lvl adminIndex row = region b) rows))
    \<and> (\<forall>b\<in>set (typologies m).
          buy_count b + rent_count b = total_count b
          \<and> total_count b = length (filter (\<lambda>row. typologyLabel row = typology b) rows))
    \<and> (\<forall>lvl. \<forall>row\<in>set rows. \<exists>b\<in>set (regionsAt lvl m). region b = regionLabel lvl adminIndex row)
    \<and> (\<forall>row\<in>set rows.
          (district (resolveAdminHierarchy (location_text row) adminIndex) = None
             \<longrightarrow> regionLabel DistrictLevel adminIndex row = ''Unknown'')
          \<and> (municipality (resolveAdminHierarchy (location_text row) adminIndex) = None
             \<longrightarrow> regionLabel MunicipalityLevel adminIndex row = ''Unknown'')
          \<and> (parish (resolveAdminHierarchy (location_text row) adminIndex) = None
             \<longrightarrow> regionLabel ParishLevel adminIndex row = ''Unknown''))"
proof (intro conjI allI)
  show "getImportDashboardMetrics lc (rangeOf rows) adminIndex pageSize = Some (Inr m)"
    using assms(1) by (simp add: m_def getImportDashboardMetrics_rangeOf)
next
  fix lvl
  show "sum_list (map total_count (regionsAt lvl m)) = length rows"
    unfolding m_def regionsAt_pass by (rule region_level(1))
  show "\<forall>b\<in>set (regionsAt lvl m).
          buy_count b + rent_count b = total_count b
          \<and> total_count b = length (filter (\<lambda>row. regionLabel lvl adminIndex row = region b) rows)"
    unfolding m_def regionsAt_pass by (rule region_level(2))
  show "\<forall>row\<in>set rows. \<exists>b\<in>set (regionsAt lvl m). region b = regionLabel lvl adminIndex row"
    unfolding m_def regionsAt_pass by (rule region_level(3))
next
  show "sum_list (map total_count (typologies m)) = length rows"
    unfolding m_def typologies_pass by (rule typology_level(1))
  show "\<forall>b\<in>set (typologies m).
          buy_count b + rent_count b = total_count b
          \<and> total_count b = length (filter (\<lambda>row. typologyLabel row = typology b) rows)"
    unfolding m_def typologies_pass by (rule typology_level(2))
  show "total_buy m + total_rent m = length rows"
    using pass_components(5)[of adminIndex initialState rows]
    by (simp add: m_def buildMetrics_def initialState_def)
  show "\<forall>row\<in>set rows.
          (district (resolveAdminHierarchy (location_text row) adminIndex) = None
             \<longrightarrow> regionLabel DistrictLevel adminIndex row = ''Unknown'')
          \<and> (municipality (resolveAdminHierarchy (location_text row) adminIndex) = None
             \<longrightarrow> regionLabel MunicipalityLevel adminIndex row = ''Unknown'')
          \<and> (parish (resolveAdminHierarchy (location_text row) adminIndex) = None
             \<longrightarrow> regionLabel ParishLevel adminIndex row = ''Unknown'')"
    using regionLabel_unknown by blast
qed

lemma pass_ABC:
  "buildMetrics codeUnitCompare (foldl (processRow scenarioIndex) initialState [rowA, rowB, rowC])
     = metricsABC"
  by code_simp

lemma rowB_unresolved:
  "parish (resolveAdminHierarchy (location_text rowB) scenarioIndex) = None
   \<and> district (resolveAdminHierarchy (location_text rowB) scenarioIndex) = None"
  by code_simp

theorem aggregation_totals_witness:
  "(0 :: nat) < 2
   \<and> getImportDashboardMetrics codeUnitCompare (rangeOf [rowA, rowB, rowC]) scenarioIndex 2
       = Some (Inr metricsABC)
   \<and> sum_list (map total_count (regionsAt DistrictLevel metricsABC)) = length [rowA, rowB, rowC]
   \<and> sum_list (map total_count (regionsAt MunicipalityLevel metricsABC)) = length [rowA, rowB, rowC]
   \<and> sum_list (map total_count (regionsAt ParishLevel metricsABC)) = length [rowA, rowB, rowC]
   \<and> sum_list (map total_count (typologies metricsABC)) = length [rowA, rowB, rowC]
   \<and> total_buy metricsABC + total_rent metricsABC = length [rowA, rowB, rowC]
   \<and> district (resolveAdminHierarchy (location_text rowB) scenarioIndex) = None
   \<and> regionLabel DistrictLevel scenarioIndex rowB = ''Unknown''
   \<and> regionsAt DistrictLevel metricsABC =
        [\<lparr>buy_count = 2, rent_count = 0, total_count = 2, region = ''Porto''\<rparr>,
         \<lparr>buy_count = 0, rent_count = 1, total_count = 1, region = ''Unknown''\<rparr>]"
proof -
  have p: "(0 :: nat) < 2" by simp
  note t = aggregation_totals[OF p, of codeUnitCompare "[rowA, rowB, rowC]" scenarioIndex,
      unfolded pass_ABC]
  have 1: "getImportDashboardMetrics codeUnitCompare (rangeOf [rowA, rowB, rowC]) scenarioIndex 2
       = Some (Inr metricsABC)"
    using t by (rule conjunct1)
  have 2: "\<forall>lvl. sum_list (map total_count (regionsAt lvl metricsABC)) = length [rowA, rowB, rowC]"
    using t by blast
  have 3: "sum_list (map total_count (typologies metricsABC)) = length [rowA, rowB, rowC]"
    using t by blast
  have 4: "total_buy metricsABC + total_rent metricsABC = length [rowA, rowB, rowC]"
    using t by blast
  have 5: "regionLabel DistrictLevel scenarioIndex rowB = ''Unknown''"
    using t rowB_unresolved by simp
  have 6: "regionsAt DistrictLevel metricsABC =
        [\<lparr>buy_count = 2, rent_count = 0, total_count = 2, region = ''Porto''\<rparr>,
         \<lparr>buy_count = 0, rent_count = 1, total_count = 1, region = ''Unknown''\<rparr>]"
    by (simp add: regionsAt_def metricsABC_def)
  from p 1 2 3 4 5 6 rowB_unresolved show ?thesis by blast
qed

subsection \<open>The order of the buckets\<close>

lemma set_insertBy: "set (insertBy cmp x ys) = insert x (set ys)"
  by (induction ys) auto

lemma sorted_insertBy:
  assumes "sorted_wrt R ys"
    and before: "\<And>y. y \<in> set ys \<Longrightarrow> cmp x y < 0 \<Longrightarrow> R x y"
    and after: "\<And>y. y \<in> set ys \<Longrightarrow> \<not> cmp x y < 0 \<Longrightarrow> R y x"
    and trans: "\<And>y z. y \<in> set ys \<Longrightarrow> z \<in> set ys \<Longrightarrow> R x y \<Longrightarrow> R y z \<Longrightarrow> R x z"
  shows "sorted_wrt R (insertBy cmp x ys)"
  using assms
proof (induction ys)
  case Nil
  then show ?case by simp
next
  case (Cons y ys)
  show ?case
  proof (cases "cmp x y < 0")
    case True
    have xy: "R x y" using Cons.prems(2) True by simp
    have "\<forall>z\<in>set ys. R x z"
    proof
      fix z assume z: "z \<in> set ys"
      then have "R y z" using Cons.prems(1) by simp
      then show "R x z" using Cons.prems(4)[of y z] xy z by simp
    qed
    then show ?thesis using True xy Cons.prems(1) by simp
  next
    case False
    have yx: "R y x" using Cons.prems(3) False by simp
    have s: "sorted_wrt R (insertBy cmp x ys)"
    proof (rule Cons.IH)
      show "sorted_wrt R ys" using Cons.prems(1) by simp
    next
      fix z assume "z \<in> set ys" "cmp x z < 0"
      then show "R x z" using Cons.prems(2)[of z] by simp
    next
      fix z assume "z \<in> set ys" "\<not> cmp x z < 0"
      then show "R z x" using Cons.prems(3)[of z] by simp
    next
      fix z w assume "z \<in> set ys" "w \<in> set ys" "R x z" "R z w"
      then show "R x w" using Cons.prems(4)[of z w] by simp
    qed
    have "\<forall>w\<in>set (insertBy cmp x ys). R y w"
      using yx Cons.prems(1) by (simp add: set_insertBy)
    then show ?thesis using False s by simp
  qed
qed

lemma sorted_sortBy:
  assumes d: "distinct xs"
    and before: "\<And>x y. x \<in> set xs \<Longrightarrow> y \<in> set xs \<Longrightarrow> x \<noteq> y \<Longrightarrow> cmp x y < 0 \<Longrightarrow> R x y"
    and after: "\<And>x y. x \<in> set xs \<Longrightarrow> y \<in> set xs \<Longrightarrow> x \<noteq> y \<Longrightarrow> \<not> cmp x y < 0 \<Longrightarrow> R y x"
    and trans: "\<And>x y z. x \<in> set xs \<Longrightarrow> y \<in> set xs \<Longrightarrow> z \<in> set xs \<Longrightarrow> R x y \<Longrightarrow> R y z \<Longrightarrow> R x z"
  shows "sorted_wrt R (sortBy cmp xs)"
proof -
  have "sorted_wrt R acc \<Longrightarrow> distinct (acc @ ys) \<Longrightarrow> set acc \<union> set ys \<subseteq> set xs \<Longrightarrow>
        sorted_wrt R (foldl (\<lambda>sorted x. insertBy cmp x sorted) acc ys)" for acc ys
  proof (induction ys arbitrary: acc)
    case Nil
    then show ?case by simp
  next
    case (Cons x ys)
    have x: "x \<in> set xs" "x \<notin> set acc" and acc: "set acc \<subseteq> set xs"
      using Cons.prems by auto
    have "sorted_wrt R (insertBy cmp x acc)"
    proof (rule sorted_insertBy[OF Cons.prems(1)])
      fix y assume "y \<in> set acc" "cmp x y < 0"
      then show "R x y" using before[of x y] x acc by auto
    next
      fix y assume "y \<in> set acc" "\<not> cmp x y < 0"
      then show "R y x" using after[of x y] x acc by auto
    next
      fix y z assume "y \<in> set acc" "z \<in> set acc" "R x y" "R y z"
      then show "R x z" using trans[of x y z] x acc by auto
    qed
    moreover have "distinct (insertBy cmp x acc @ ys)"
    proof -
      have "mset (insertBy cmp x acc @ ys) = mset (acc @ x # ys)"
        by (simp add: mset_insertBy)
      from mset_eq_imp_distinct_iff[OF this] show ?thesis
        using Cons.prems(2) by simp
    qed
    moreover have "set (insertBy cmp x acc) \<union> set ys \<subseteq> set xs"
      using Cons.prems(3) by (simp add: set_insertBy)
    ultimately show ?case
      using Cons.IH[of "insertBy cmp x acc"] by simp
  qed
  from this[of "[]" xs] d show ?thesis
    by (simp add: sortBy_def)
qed

lemma sorted_regions:
  assumes anti: "\<forall>a b. 0 \<le> lc a b \<longrightarrow> lc b a \<le> 0"
    and trans: "\<forall>a b c. lc a b \<le> 0 \<and> lc b c \<le> 0 \<longrightarrow> lc a c \<le> 0"
    and d: "distinct xs"
  shows "sorted_wrt (\<lambda>a b. total_count b < total_count a
            \<or> (total_count a = total_count b \<and> lc (region a) (region b) \<le> 0))
          (sortRegions lc xs)"
  unfolding sortRegions_def
proof (rule sorted_sortBy[OF d])
  fix x y :: RegionBreakdownRow
  assume "compareRegions lc x y < 0"
  then show "total_count y < total_count x
            \<or> (total_count x = total_count y \<and> lc (region x) (region y) \<le> 0)"
    by (auto simp: compareRegions_def Let_def split: if_splits)
next
  fix x y :: RegionBreakdownRow
  assume "\<not> compareRegions lc x y < 0"
  then show "total_count x < total_count y
            \<or> (total_count y = total_count x \<and> lc (region y) (region x) \<le> 0)"
    using anti by (auto simp: compareRegions_def Let_def split: if_splits)
next
  fix x y z :: RegionBreakdownRow
  assume "total_count y < total_count x
            \<or> (total_count x = total_count y \<and> lc (region x) (region y) \<le> 0)"
    and "total_count z < total_count y
            \<or> (total_count y = total_count z \<and> lc (region y) (region z) \<le> 0)"
  moreover have "lc (region x) (region y) \<le> 0 \<and> lc (region y) (region z) \<le> 0
                   \<longrightarrow> lc (region x) (region z) \<le> 0"
    using trans by blast
  ultimately show "total_count z < total_count x
            \<or> (total_count x = total_count z \<and> lc (region x) (region z) \<le> 0)"
    by auto
qed

lemma sorted_typologies:
  assumes anti: "\<forall>a b. 0 \<le> lc a b \<longrightarrow> lc b a \<le> 0"
    and trans: "\<forall>a b c. lc a b \<le> 0 \<and> lc b c \<le> 0 \<longrightarrow> lc a c \<le> 0"
    and d: "distinct (map typology xs)"
  shows "sorted_wrt (\<lambda>a b. typology a \<noteq> ''Unknown''
            \<and> (typology b = ''Unknown'' \<or> total_count b < total_count a
                \<or> (total_count a = total_count b \<and> lc (typology a) (typology b) \<le> 0)))
          (sortTypologies lc xs)"
  unfolding sortTypologies_def
proof (rule sorted_sortBy[OF conjunct1[OF iffD1[OF distinct_map d]]])
  fix x y :: TypologyBreakdownRow
  assume "compareTypologies lc x y < 0"
  then show "typology x \<noteq> ''Unknown''
            \<and> (typology y = ''Unknown'' \<or> total_count y < total_count x
                \<or> (total_count x = total_count y \<and> lc (typology x) (typology y) \<le> 0))"
    by (auto simp: compareTypologies_def Let_def split: if_splits)
next
  fix x y :: TypologyBreakdownRow
  assume xy: "x \<in> set xs" "y \<in> set xs" "x \<noteq> y" and c: "\<not> compareTypologies lc x y < 0"
  have "typology x \<noteq> typology y"
    using d xy by (meson distinct_map inj_onD)
  then show "typology y \<noteq> ''Unknown''
            \<and> (typology x = ''Unknown'' \<or> total_count x < total_count y
                \<or> (total_count y = total_count x \<and> lc (typology y) (typology x) \<le> 0))"
    using c anti by (auto simp: compareTypologies_def Let_def split: if_splits)
next
  fix x y z :: TypologyBreakdownRow
  assume "typology x \<noteq> ''Unknown''
            \<and> (typology y = ''Unknown'' \<or> total_count y < total_count x
                \<or> (total_count x = total_count y \<and> lc (typology x) (typology y) \<le> 0))"
    and "typology y \<noteq> ''Unknown''
            \<and> (typology z = ''Unknown'' \<or> total_count z < total_count y
                \<or> (total_count y = total_count z \<and> lc (typology y) (typology z) \<le> 0))"
  moreover have "lc (typology x) (typology y) \<le> 0 \<and> lc (typology y) (typology z) \<le> 0
                   \<longrightarrow> lc (typology x) (typology z) \<le> 0"
    using trans by blast
  ultimately show "typology x \<noteq> ''Unknown''
            \<and> (typology z = ''Unknown'' \<or> total_count z < total_count x
                \<or> (total_count x = total_count z \<and> lc (typology x) (typology z) \<le> 0))"
    by auto
qed

lemma distinct_sorted_arg:
  assumes "distinct (map f (sortBy cmp xs))"
  shows "distinct xs"
proof -
  have "mset (map f (sortBy cmp xs)) = mset (map f xs)"
    by (simp add: mset_sortBy)
  from mset_eq_imp_distinct_iff[OF this] assms have "distinct (map f xs)"
    by simp
  then show ?thesis
    by (simp add: distinct_map)
qed

lemma distinct_sorted_keys:
  assumes "distinct (map f (sortBy cmp xs))"
  shows "distinct (map f xs)"
proof -
  have "mset (map f (sortBy cmp xs)) = mset (map f xs)"
    by (simp add: mset_sortBy)
  from mset_eq_imp_distinct_iff[OF this] assms show ?thesis
    by simp
qed

lemma codeUnitCompare_consistent:
  "\<forall>a b. 0 \<le> codeUnitCompare a b \<longrightarrow> codeUnitCompare b a \<le> 0"
  "\<forall>a b c. codeUnitCompare a b \<le> 0 \<and> codeUnitCompare b c \<le> 0 \<longrightarrow> codeUnitCompare a c \<le> 0"
  by (auto simp: codeUnitCompare_def split: if_splits)

text \<open>
  C8. Let the comparison of names by the run-time be a consistent comparator: whenever it
  does not place a name before another it places the other before or level with it, and
  being before or level is transitive. Then at each region level the buckets of the
  result are in an order in which every bucket has a larger total than every later one,
  or the same total and a name that is before or level with the later name. The typology
  buckets are in the same order, except that no bucket in front of another is "Unknown":
  that bucket is last whatever its total.
\<close>

theorem buckets_sorted:
  fixes rows :: "ListingRow list" and adminIndex :: PortugalAdminIndex
    and lc :: "string \<Rightarrow> string \<Rightarrow> int" and pageSize :: nat
  assumes "0 < pageSize"
    and anti: "\<forall>a b. 0 \<le> lc a b \<longrightarrow> lc b a \<le> 0"
    and trans: "\<forall>a b c. lc a b \<le> 0 \<and> lc b c \<le> 0 \<longrightarrow> lc a c \<le> 0"
  defines "m \<equiv> buildMetrics lc (foldl (processRow adminIndex) initialState rows)"
  shows "getImportDashboardMetrics lc (rangeOf rows) adminIndex pageSize = Some (Inr m)
    \<and> (\<forall>lvl. sorted_wrt (\<lambda>a b. total_count b < total_count a
                  \<or> (total_count a = total_count b \<and> lc (region a) (region b) \<le> 0))
               (regionsAt lvl m))
    \<and> sorted_wrt (\<lambda>a b. typology a \<noteq> ''Unknown''
            \<and> (typology b = ''Unknown'' \<or> total_count b < total_count a
                \<or> (total_count a = total_count b \<and> lc (typology a) (typology b) \<le> 0)))
         (typologies m)"
proof (intro conjI allI)
  show "getImportDashboardMetrics lc (rangeOf rows) adminIndex pageSize = Some (Inr m)"
    using assms(1) by (simp add: m_def getImportDashboardMetrics_rangeOf)
next
  fix lvl
  let ?xs = "map_values (foldl (\<lambda>m row. bumpRegion m (regionLabel lvl adminIndex row)
                 (listingTypeOf row)) [] rows)"
  have "distinct (map region (sortRegions lc ?xs))"
    by (rule region_level(4))
  then have "distinct ?xs"
    unfolding sortRegions_def by (rule distinct_sorted_arg)
  from sorted_regions[OF anti trans this]
  show "sorted_wrt (\<lambda>a b. total_count b < total_count a
                  \<or> (total_count a = total_count b \<and> lc (region a) (region b) \<le> 0))
               (regionsAt lvl m)"
    by (simp only: m_def regionsAt_pass)
next
  let ?xs = "map_values (foldl (\<lambda>m row. bumpTypology m (typologyLabel row)
                 (listingTypeOf row)) [] rows)"
  have "distinct (map typology (sortTypologies lc ?xs))"
    by (rule typology_level(4))
  then have "distinct (map typology ?xs)"
    unfolding sortTypologies_def by (rule distinct_sorted_keys)
  from sorted_typologies[OF anti trans this]
  show "sorted_wrt (\<lambda>a b. typology a \<noteq> ''Unknown''
            \<and> (typology b = ''Unknown'' \<or> total_count b < total_count a
                \<or> (total_count a = total_count b \<and> lc (typology a) (typology b) \<le> 0)))
         (typologies m)"
    by (simp only: m_def typologies_pass)
qed

lemma pass_ABD:
  "typologies (buildMetrics codeUnitCompare
      (foldl (processRow scenarioIndex) initialState [rowA, rowB, rowD])) =
     [\<lparr>buy_count = 1, rent_count = 0, total_count = 1, typology = ''T2''\<rparr>,
      \<lparr>buy_count = 0, rent_count = 2, total_count = 2, typology = ''Unknown''\<rparr>]"
  "regionsAt MunicipalityLevel (buildMetrics codeUnitCompare
      (foldl (processRow scenarioIndex) initialState [rowA, rowB, rowD])) =
     [\<lparr>buy_count = 0, rent_count = 2, total_count = 2, region = ''Unknown''\<rparr>,
      \<lparr>buy_count = 1, rent_count = 0, total_count = 1, region = ''Matosinhos''\<rparr>]"
  by code_simp+

theorem buckets_sorted_witness:
  "(0 :: nat) < 2
   \<and> sorted_wrt (\<lambda>a b. total_count b < total_count a
           \<or> (total_count a = total_count b \<and> codeUnitCompare (region a) (region b) \<le> 0))
        [\<lparr>buy_count = 0, rent_count = 2, total_count = 2, region = ''Unknown''\<rparr>,
         \<lparr>buy_count = 1, rent_count = 0, total_count = 1, region = ''Matosinhos''\<rparr>]
   \<and> regionsAt MunicipalityLevel (buildMetrics codeUnitCompare
        (foldl (processRow scenarioIndex) initialState [rowA, rowB, rowD])) =
        [\<lparr>buy_count = 0, rent_count = 2, total_count = 2, region = ''Unknown''\<rparr>,
         \<lparr>buy_count = 1, rent_count = 0, total_count = 1, region = ''Matosinhos''\<rparr>]
   \<and> sorted_wrt (\<lambda>a b. typology a \<noteq> ''Unknown''
            \<and> (typology b = ''Unknown'' \<or> total_count b < total_count a
                \<or> (total_count a = total_count b
                    \<and> codeUnitCompare (typology a) (typology b) \<le> 0)))
        [\<lparr>buy_count = 1, rent_count = 0, total_count = 1, typology = ''T2''\<rparr>,
         \<lparr>buy_count = 0, rent_count = 2, total_count = 2, typology = ''Unknown''\<rparr>]
   \<and> typologies (buildMetrics codeUnitCompare
        (foldl (processRow scenarioIndex) initialState [rowA, rowB, rowD])) =
        [\<lparr>buy_count = 1, rent_count = 0, total_count = 1, typology = ''T2''\<rparr>,
         \<lparr>buy_count = 0, rent_count = 2, total_count = 2, typology = ''Unknown''\<rparr>]
   \<and> getImportDashboardMetrics codeUnitCompare (rangeOf [rowA, rowB, rowD]) scenarioIndex 2
       = Some (Inr (buildMetrics codeUnitCompare
            (foldl (processRow scenarioIndex) initialState [rowA, rowB, rowD])))"
proof -
  have p: "(0 :: nat) < 2" by simp
  note t = buckets_sorted[OF p codeUnitCompare_consistent, of "[rowA, rowB, rowD]" scenarioIndex]
  have 1: "getImportDashboardMetrics codeUnitCompare (rangeOf [rowA, rowB, rowD]) scenarioIndex 2
       = Some (Inr (buildMetrics codeUnitCompare
            (foldl (processRow scenarioIndex) initialState [rowA, rowB, rowD])))"
    using t by (rule conjunct1)
  have 2: "sorted_wrt (\<lambda>a b. total_count b < total_count a
           \<or> (total_count a = total_count b \<and> codeUnitCompare (region a) (region b) \<le> 0))
        (regionsAt MunicipalityLevel (buildMetrics codeUnitCompare
          (foldl (processRow scenarioIndex) initialState [rowA, rowB, rowD])))"
    using t by blast
  have 3: "sorted_wrt (\<lambda>a b. typology a \<noteq> ''Unknown''
            \<and> (typology b = ''Unknown'' \<or> total_count b < total_count a
                \<or> (total_count a = total_count b
                    \<and> codeUnitCompare (typology a) (typology b) \<le> 0)))
         (typologies (buildMetrics codeUnitCompare
           (foldl (processRow scenarioIndex) initialState [rowA, rowB, rowD])))"
    using t by blast
  from p 1 2[unfolded pass_ABD] 3[unfolded pass_ABD] pass_ABD show ?thesis by blast
qed

section \<open>Properties of the dataset route\<close>

lemma fetchAllPages_reached:
  "fetchReaches upstream offset out \<Longrightarrow>
   fetchAllPages upstream 0 [] = fetchAllPages upstream offset out"
proof (induction rule: fetchReaches.induct)
  case first_request
  show ?case by simp
next
  case (next_request offset out totalCount rows)
  have "fetchAllPages upstream offset out =
        fetchAllPages upstream (offset + length rows) (out @ rows)"
    using next_request.hyps(2,3,4)
    by (subst fetchAllPages.simps) (simp add: Let_def)
  then show ?case using next_request.IH by simp
qed

lemma fetchAllPages_failed:
  assumes "fetchReaches upstream offset out" "upstream offset = NotOk status"
  shows "fetchAllPages upstream 0 [] = Some (Inl (RequestFailed status))"
proof -
  have "fetchAllPages upstream offset out = Some (Inl (RequestFailed status))"
    using assms(2) by (subst fetchAllPages.simps) simp
  then show ?thesis
    using fetchAllPages_reached[OF assms(1)] by simp
qed

lemma promiseAll_rejected:
  "(\<exists>e. a = Some (Inl e)) \<or> (\<exists>e. b = Some (Inl e)) \<or> (\<exists>e. c = Some (Inl e)) \<Longrightarrow>
   promiseAll a b c = Some (Inl ())"
  by (simp add: promiseAll_def)

lemma GET_rejected:
  assumes stale: "\<forall>cachedAt cachedData. cached = Some (cachedAt, cachedData) \<longrightarrow> CACHE_MS \<le> now - cachedAt"
    and rejected: "(\<exists>e. fetchAllPages (distrito upstream) 0 [] = Some (Inl e))
       \<or> (\<exists>e. fetchAllPages (concelho upstream) 0 [] = Some (Inl e))
       \<or> (\<exists>e. fetchAllPages (freguesia upstream) 0 [] = Some (Inl e))"
  shows "GET lc upstream now cached = Some (Json502, cached)"
proof -
  have fresh: "(case cached of Some (cachedAt, cachedData) \<Rightarrow>
                  if now - cachedAt < CACHE_MS then Some cachedData else None
                | None \<Rightarrow> None) = None"
    using stale by (cases cached) (auto split: prod.splits)
  show ?thesis
    unfolding GET_def fresh using promiseAll_rejected[OF rejected] by simp
qed

text \<open>
  C9. Let the cache hold no dataset that is still fresh, and let one of the requests that
  a fetch of the district, the municipality or the parish dataset makes be answered with
  a status that is not a success. Then that fetch ends with the error of this status and
  without rows, the route answers 502 and leaves the cache as it was, and the client,
  which gets no dataset, builds and stores no index and keeps the index it had.
\<close>

theorem failed_request_fails_route:
  fixes upstream :: Upstream
  assumes stale: "\<forall>cachedAt cachedData.
                    cached = Some (cachedAt, cachedData) \<longrightarrow> CACHE_MS \<le> now - cachedAt"
    and failed:
      "(\<exists>offset out status. fetchReaches (distrito upstream) offset out
            \<and> distrito upstream offset = NotOk status)
       \<or> (\<exists>offset out status. fetchReaches (concelho upstream) offset out
            \<and> concelho upstream offset = NotOk status)
       \<or> (\<exists>offset out status. fetchReaches (freguesia upstream) offset out
            \<and> freguesia upstream offset = NotOk status)"
  shows "GET lc upstream now cached = Some (Json502, cached)
       \<and> (\<forall>offset out status. fetchReaches (distrito upstream) offset out
              \<and> distrito upstream offset = NotOk status
            \<longrightarrow> fetchAllPages (distrito upstream) 0 [] = Some (Inl (RequestFailed status)))
       \<and> (\<forall>offset out status. fetchReaches (concelho upstream) offset out
              \<and> concelho upstream offset = NotOk status
            \<longrightarrow> fetchAllPages (concelho upstream) 0 [] = Some (Inl (RequestFailed status)))
       \<and> (\<forall>offset out status. fetchReaches (freguesia upstream) offset out
              \<and> freguesia upstream offset = NotOk status
            \<longrightarrow> fetchAllPages (freguesia upstream) 0 [] = Some (Inl (RequestFailed status)))
       \<and> getPortugalAdminIndex None Json502 =
            (Inl ''Failed to load Portugal administrative database.'', None)
       \<and> (\<forall>index. getPortugalAdminIndex (Some index) Json502 = (Inr index, Some index))"
proof (intro conjI allI impI)
  have "(\<exists>e. fetchAllPages (distrito upstream) 0 [] = Some (Inl e))
       \<or> (\<exists>e. fetchAllPages (concelho upstream) 0 [] = Some (Inl e))
       \<or> (\<exists>e. fetchAllPages (freguesia upstream) 0 [] = Some (Inl e))"
    using failed fetchAllPages_failed[of "distrito upstream"]
      fetchAllPages_failed[of "concelho upstream"] fetchAllPages_failed[of "freguesia upstream"]
    by blast
  then show "GET lc upstream now cached = Some (Json502, cached)"
    using stale by (rule GET_rejected[rotated])
next
  fix offset out status
  assume "fetchReaches (distrito upstream) offset out \<and> distrito upstream offset = NotOk status"
  then show "fetchAllPages (distrito upstream) 0 [] = Some (Inl (RequestFailed status))"
    using fetchAllPages_failed by blast
next
  fix offset out status
  assume "fetchReaches (concelho upstream) offset out \<and> concelho upstream offset = NotOk status"
  then show "fetchAllPages (concelho upstream) 0 [] = Some (Inl (RequestFailed status))"
    using fetchAllPages_failed by blast
next
  fix offset out status
  assume "fetchReaches (freguesia upstream) offset out \<and> freguesia upstream offset = NotOk status"
  then show "fetchAllPages (freguesia upstream) 0 [] = Some (Inl (RequestFailed status))"
    using fetchAllPages_failed by blast
next
  show "getPortugalAdminIndex None Json502 =
            (Inl ''Failed to load Portugal administrative database.'', None)"
    by (simp add: getPortugalAdminIndex_def listPortugalAdminDataset_def)
next
  fix index
  show "getPortugalAdminIndex (Some index) Json502 = (Inr index, Some index)"
    by (simp add: getPortugalAdminIndex_def)
qed

lemma failing_reached:
  "fetchReaches (distrito failingUpstream) 100 (replicate 100 portoRow)"
proof -
  have "fetchReaches (distrito failingUpstream) (0 + length (replicate 100 portoRow))
          ([] @ replicate 100 portoRow)"
    by (rule fetchReaches.next_request[OF fetchReaches.first_request, where totalCount = None])
       (simp_all add: failingUpstream_def LIMIT_def)
  then show ?thesis by simp
qed

theorem failed_request_fails_route_witness:
  "CACHE_MS \<le> CACHE_MS - 0
   \<and> fetchReaches (distrito failingUpstream) 100 (replicate 100 portoRow)
   \<and> distrito failingUpstream 100 = NotOk 503
   \<and> fetchAllPages (distrito failingUpstream) 0 [] = Some (Inl (RequestFailed 503))
   \<and> GET codeUnitCompare failingUpstream CACHE_MS (Some (0, alvaladeDataset))
       = Some (Json502, Some (0, alvaladeDataset))"
proof -
  have s: "\<forall>cachedAt cachedData. Some (0, alvaladeDataset) = Some (cachedAt, cachedData)
             \<longrightarrow> CACHE_MS \<le> CACHE_MS - cachedAt"
    by simp
  have n: "distrito failingUpstream 100 = NotOk 503"
    by (simp add: failingUpstream_def)
  have f: "(\<exists>offset out status. fetchReaches (distrito failingUpstream) offset out
            \<and> distrito failingUpstream offset = NotOk status)
       \<or> (\<exists>offset out status. fetchReaches (concelho failingUpstream) offset out
            \<and> concelho failingUpstream offset = NotOk status)
       \<or> (\<exists>offset out status. fetchReaches (freguesia failingUpstream) offset out
            \<and> freguesia failingUpstream offset = NotOk status)"
    using failing_reached n by blast
  note t = failed_request_fails_route[OF s f, of codeUnitCompare]
  have 1: "GET codeUnitCompare failingUpstream CACHE_MS (Some (0, alvaladeDataset))
       = Some (Json502, Some (0, alvaladeDataset))"
    using t by (rule conjunct1)
  have 2: "fetchAllPages (distrito failingUpstream) 0 [] = Some (Inl (RequestFailed 503))"
    using t failing_reached n by blast
  from 1 2 n failing_reached show ?thesis by simp
qed

subsection \<open>The merge of colliding rows\<close>


















section \<open>Properties of the drill-down\<close>

lemma regionLoop_rangeOf:
  assumes "0 < pageSize"
  shows "regionLoop (rangeOf rows) adminIndex pageSize lvl target offset out =
     Some (Inr (out @ map normalizeDashboardRow
                        (filter (regionMatches adminIndex lvl target) (drop offset rows))))"
proof (induction "length rows - offset" arbitrary: offset out rule: less_induct)
  case less
  let ?page = "take pageSize (drop offset rows)"
  show ?case
  proof (cases "length rows - offset < pageSize")
    case True
    then have "?page = drop offset rows" by simp
    then show ?thesis
      using assms True by (subst regionLoop.simps) (simp add: rangeOf_page Let_def)
  next
    case False
    then have full: "length ?page = pageSize" by simp
    have less': "length rows - (offset + pageSize) < length rows - offset"
      using assms False by simp
    have split: "drop offset rows = ?page @ drop (offset + pageSize) rows"
      by (metis add.commute append_take_drop_id drop_drop)
    have "regionLoop (rangeOf rows) adminIndex pageSize lvl target offset out =
          regionLoop (rangeOf rows) adminIndex pageSize lvl target (offset + pageSize)
            (out @ map normalizeDashboardRow (filter (regionMatches adminIndex lvl target) ?page))"
      using assms full by (subst regionLoop.simps) (simp add: rangeOf_page Let_def)
    also have "\<dots> = Some (Inr ((out @ map normalizeDashboardRow
                          (filter (regionMatches adminIndex lvl target) ?page))
                       @ map normalizeDashboardRow
                          (filter (regionMatches adminIndex lvl target)
                             (drop (offset + pageSize) rows))))"
      by (rule less.hyps[OF less'])
    also have "\<dots> = Some (Inr (out @ map normalizeDashboardRow
                        (filter (regionMatches adminIndex lvl target) (drop offset rows))))"
      by (subst (2) split) simp
    finally show ?thesis .
  qed
qed

lemma typologyLoop_rangeOf:
  assumes "0 < pageSize"
  shows "typologyLoop (rangeOf rows) pageSize target offset out =
     Some (Inr (out @ map normalizeDashboardRow
                        (filter (typologyMatches target) (drop offset rows))))"
proof (induction "length rows - offset" arbitrary: offset out rule: less_induct)
  case less
  let ?page = "take pageSize (drop offset rows)"
  show ?case
  proof (cases "length rows - offset < pageSize")
    case True
    then have "?page = drop offset rows" by simp
    then show ?thesis
      using assms True by (subst typologyLoop.simps) (simp add: rangeOf_page Let_def)
  next
    case False
    then have full: "length ?page = pageSize" by simp
    have less': "length rows - (offset + pageSize) < length rows - offset"
      using assms False by simp
    have split: "drop offset rows = ?page @ drop (offset + pageSize) rows"
      by (metis add.commute append_take_drop_id drop_drop)
    have "typologyLoop (rangeOf rows) pageSize target offset out =
          typologyLoop (rangeOf rows) pageSize target (offset + pageSize)
            (out @ map normalizeDashboardRow (filter (typologyMatches target) ?page))"
      using assms full by (subst typologyLoop.simps) (simp add: rangeOf_page Let_def)
    also have "\<dots> = Some (Inr ((out @ map normalizeDashboardRow
                          (filter (typologyMatches target) ?page))
                       @ map normalizeDashboardRow
                          (filter (typologyMatches target) (drop (offset + pageSize) rows))))"
      by (rule less.hyps[OF less'])
    also have "\<dots> = Some (Inr (out @ map normalizeDashboardRow
                        (filter (typologyMatches target) (drop offset rows))))"
      by (subst (2) split) simp
    finally show ?thesis .
  qed
qed

lemma locationPart_label:
  "locationPartByLevel (location_text row) lvl adminIndex =
     normalizeLocationPart (regionLabel lvl adminIndex row)"
  by (cases lvl) (simp_all add: locationPartByLevel_def regionLabel_def Let_def)

lemma byRegion_rangeOf:
  "getDashboardListingsByRegion (rangeOf rows) adminIndex lvl regionLabelQ =
     Some (Inr (map normalizeDashboardRow
       (filter (\<lambda>row. normalizeLocationPart (regionLabel lvl adminIndex row)
                        = regionTarget regionLabelQ) rows)))"
proof -
  have "regionMatches adminIndex lvl (regionTarget regionLabelQ) =
        (\<lambda>row. normalizeLocationPart (regionLabel lvl adminIndex row) = regionTarget regionLabelQ)"
    by (intro ext) (simp add: regionMatches_def locationPart_label)
  then show ?thesis
    using regionLoop_rangeOf[of 1000 rows adminIndex lvl "regionTarget regionLabelQ" 0 "[]"]
    by (simp add: getDashboardListingsByRegion_def)
qed

lemma byTypology_rangeOf:
  "getDashboardListingsByTypology (rangeOf rows) typologyQ =
     Some (Inr (map normalizeDashboardRow
       (filter (\<lambda>row. toUpperCase (typologyLabel row) = toUpperCase (trim typologyQ)) rows)))"
proof -
  have "typologyMatches (toUpperCase (trim typologyQ)) =
        (\<lambda>row. toUpperCase (typologyLabel row) = toUpperCase (trim typologyQ))"
    by (intro ext) (simp add: typologyMatches_def typologyLabel_def)
  then show ?thesis
    using typologyLoop_rangeOf[of 1000 rows "toUpperCase (trim typologyQ)" 0 "[]"]
    by (simp add: getDashboardListingsByTypology_def)
qed

subsection \<open>Rows returned and rows counted\<close>

lemma indicator_sum:
  assumes "distinct ks"
  shows "sum_list (map (\<lambda>k. if a = k then (1 :: nat) else 0) ks) = (if a \<in> set ks then 1 else 0)"
  using assms by (induction ks) auto

lemma count_by_keys:
  fixes lab :: "'r \<Rightarrow> 'k"
  assumes d: "distinct ks" and cover: "lab ` set rows \<subseteq> set ks"
  shows "sum_list (map (\<lambda>k. length (filter (\<lambda>row. lab row = k) rows)) (filter Q ks))
         = length (filter (\<lambda>row. Q (lab row)) rows)"
  using cover
proof (induction rows)
  case Nil
  show ?case by simp
next
  case (Cons row rows)
  have dq: "distinct (filter Q ks)" using d by simp
  have "sum_list (map (\<lambda>k. length (filter (\<lambda>r. lab r = k) (row # rows))) (filter Q ks))
      = sum_list (map (\<lambda>k. (if lab row = k then 1 else 0)
                            + length (filter (\<lambda>r. lab r = k) rows)) (filter Q ks))"
    by (rule arg_cong[where f = sum_list]) (rule map_cong, simp_all)
  also have "\<dots> = sum_list (map (\<lambda>k. if lab row = k then 1 else 0) (filter Q ks))
                 + sum_list (map (\<lambda>k. length (filter (\<lambda>r. lab r = k) rows)) (filter Q ks))"
    by (simp add: sum_list_addf)
  also have "\<dots> = (if lab row \<in> set (filter Q ks) then 1 else 0)
                 + length (filter (\<lambda>r. Q (lab r)) rows)"
    using indicator_sum[OF dq, of "lab row"] Cons by simp
  also have "\<dots> = length (filter (\<lambda>r. Q (lab r)) (row # rows))"
    using Cons.prems by auto
  finally show ?case .
qed

lemma returned_by_buckets:
  fixes lab :: "ListingRow \<Rightarrow> string" and rows :: "ListingRow list"
    and lc :: "string \<Rightarrow> string \<Rightarrow> int"
  defines "B \<equiv> sortRegions lc (map_values
             (foldl (\<lambda>m row. bumpRegion m (lab row) (listingTypeOf row)) [] rows))"
  shows "sum_list (map total_count (filter (\<lambda>b. Q (region b)) B))
         = length (filter (\<lambda>row. Q (lab row)) rows)"
proof -
  have tot: "\<forall>b\<in>set B. total_count b = length (filter (\<lambda>row. lab row = region b) rows)"
    using region_level(2)[of lc lab rows] by (simp add: B_def)
  have cover: "lab ` set rows \<subseteq> set (map region B)"
  proof
    fix k assume "k \<in> lab ` set rows"
    then obtain row where "row \<in> set rows" "k = lab row" by blast
    then obtain b where "b \<in> set B" "region b = k"
      using region_level(3)[of rows lc lab] unfolding B_def by blast
    then show "k \<in> set (map region B)" by force
  qed
  have d: "distinct (map region B)"
    unfolding B_def by (rule region_level(4))
  have "map total_count (filter (\<lambda>b. Q (region b)) B)
        = map (\<lambda>k. length (filter (\<lambda>row. lab row = k) rows)) (filter Q (map region B))"
    using tot by (induction B) auto
  then show ?thesis
    using count_by_keys[OF d cover, of Q] by simp
qed

lemma filter_length_perm:
  "mset xs = mset ys \<Longrightarrow> length (filter P xs) = length (filter P ys)"
  by (metis mset_filter size_mset)

subsection \<open>The shape of the typology labels\<close>

lemma code_char_of: "n < 256 \<Longrightarrow> code (char_of n) = n"
  by (simp add: code_def)

lemma showNat_digits: "showNat n \<noteq> [] \<and> list_all isDigit (showNat n)"
proof (induction n rule: showNat.induct)
  case (1 n)
  show ?case
  proof (cases "n < 10")
    case True
    then show ?thesis
      by (subst showNat.simps, subst (2) showNat.simps) (simp add: isDigit_def code_char_of)
  next
    case False
    have "n mod 10 < 10" by simp
    then have "isDigit (char_of (48 + n mod 10))"
      by (simp add: isDigit_def code_char_of)
    then show ?thesis
      using 1 False by (subst showNat.simps, subst (2) showNat.simps) simp
  qed
qed

lemma titleMatch_digits:
  assumes "titleMatch s = Some (base, extra)"
  shows "digits12 base \<and> (case extra of None \<Rightarrow> True | Some e \<Rightarrow> digits12 e)"
proof -
  obtain n where "tokenAt s n base extra"
    using titleMatch_token[OF assms] by blast
  then show ?thesis
    unfolding tokenAt_def by (cases extra) auto
qed

text \<open>A label is "Unknown", or the letter T and then digits and plus signs.\<close>

lemma label_shape:
  "inferTypologyLabel br tt = ''Unknown''
   \<or> (\<exists>body. inferTypologyLabel br tt = CHR ''T'' # body \<and> body \<noteq> []
         \<and> list_all (\<lambda>c. isDigit c \<or> c = CHR ''+'') body)"
proof -
  let ?raw = "case tt of None \<Rightarrow> [] | Some t \<Rightarrow> t"
  show ?thesis
  proof (cases "titleMatch ?raw")
    case None
    then show ?thesis
      using showNat_digits
      by (auto simp: inferTypologyLabel_def list_all_iff split: option.splits)
  next
    case (Some p)
    obtain base extra where p: "p = (base, extra)" by (cases p)
    have d: "digits12 base" "case extra of None \<Rightarrow> True | Some e \<Rightarrow> digits12 e"
      using titleMatch_digits[of ?raw base extra] Some p by simp_all
    show ?thesis
    proof (cases extra)
      case None
      then have "inferTypologyLabel br tt = CHR ''T'' # base"
        using Some p by (simp add: inferTypologyLabel_def)
      then show ?thesis
        using d(1) by (auto simp: digits12_def list_all_iff)
    next
      case (Some e)
      then have "inferTypologyLabel br tt = CHR ''T'' # (base @ ''+'' @ e)"
        using \<open>titleMatch ?raw = Some p\<close> p by (simp add: inferTypologyLabel_def)
      then show ?thesis
        using d Some by (auto simp: digits12_def list_all_iff)
    qed
  qed
qed

lemma upperUnits_plain:
  assumes "isDigit c \<or> c = CHR ''+'' \<or> c = CHR ''T''"
  shows "upperUnits c = [code c]"
proof -
  have "code c < 97"
    using assms by (auto simp: isDigit_def code_def)
  then show ?thesis
    by (simp add: upperUnits_def Let_def)
qed

lemma upper_plain:
  "list_all (\<lambda>c. isDigit c \<or> c = CHR ''+'' \<or> c = CHR ''T'') s \<Longrightarrow> toUpperCase s = map code s"
  by (induction s) (simp_all add: toUpperCase_def upperUnits_plain)

lemma code_inj: "map code s = map code s' \<Longrightarrow> s = s'"
proof -
  have "inj code" unfolding code_def by (rule inj_of_char)
  then show "map code s = map code s' \<Longrightarrow> s = s'"
    by (simp add: inj_map_eq_map)
qed

lemma trim_plain:
  assumes "s \<noteq> []" "\<not> isWhiteSpace (hd s)" "\<not> isWhiteSpace (last s)"
  shows "trim s = s"
proof -
  have 1: "dropWhile isWhiteSpace s = s"
    using assms(1,2) by (cases s) auto
  have "dropWhile isWhiteSpace (rev s) = rev s"
    using assms(1,3) by (cases "rev s") (auto simp: last_rev[symmetric] hd_rev)
  then show ?thesis by (simp add: trim_def 1)
qed

lemma upper_unknown: "toUpperCase ''Unknown'' = [85, 78, 75, 78, 79, 87, 78]"
  by code_simp

lemma trim_unknown: "trim ''Unknown'' = ''Unknown''"
  by code_simp

text \<open>Among labels, being equal up to case and outer white space is being equal.\<close>

lemma label_match:
  fixes l l' :: string
  assumes "l = ''Unknown'' \<or> (\<exists>body. l = CHR ''T'' # body \<and> body \<noteq> []
               \<and> list_all (\<lambda>c. isDigit c \<or> c = CHR ''+'') body)"
    and "l' = ''Unknown'' \<or> (\<exists>body. l' = CHR ''T'' # body \<and> body \<noteq> []
               \<and> list_all (\<lambda>c. isDigit c \<or> c = CHR ''+'') body)"
  shows "toUpperCase l = toUpperCase (trim l') \<longleftrightarrow> l = l'"
proof -
  have plain: "toUpperCase x = map code x \<and> trim x = x \<and> hd x = CHR ''T''"
    if ex: "\<exists>body. x = CHR ''T'' # body \<and> body \<noteq> []
               \<and> list_all (\<lambda>c. isDigit c \<or> c = CHR ''+'') body" for x
  proof -
    obtain body where x: "x = CHR ''T'' # body" "body \<noteq> []"
      "list_all (\<lambda>c. isDigit c \<or> c = CHR ''+'') body"
      using ex by blast
    have "list_all (\<lambda>c. isDigit c \<or> c = CHR ''+'' \<or> c = CHR ''T'') x"
      using x(3) by (simp add: x(1) list_all_iff) blast
    then have u: "toUpperCase x = map code x" by (rule upper_plain)
    have "last body \<in> set body" using x(2) by simp
    then have "isDigit (last body) \<or> last body = CHR ''+''"
      using x(3) by (simp add: list_all_iff)
    then have "\<not> isWhiteSpace (last body)"
    proof
      assume "isDigit (last body)"
      then show ?thesis by (rule digit_not_space)
    next
      assume "last body = CHR ''+''"
      then show ?thesis using plus_class by simp
    qed
    then have 1: "\<not> isWhiteSpace (last x)"
      using x(2) by (simp add: x(1))
    have 2: "\<not> isWhiteSpace (hd x)"
      by (simp add: x(1) isWhiteSpace_def code_def)
    have 3: "x \<noteq> []" by (simp add: x(1))
    have "trim x = x" using 3 2 1 by (rule trim_plain)
    moreover have "hd x = CHR ''T''" by (simp add: x(1))
    ultimately show ?thesis using u by simp
  qed
  have differ: "toUpperCase x \<noteq> toUpperCase ''Unknown'' \<and> x \<noteq> ''Unknown''"
    if ex: "\<exists>body. x = CHR ''T'' # body \<and> body \<noteq> []
               \<and> list_all (\<lambda>c. isDigit c \<or> c = CHR ''+'') body" for x
  proof -
    obtain body where x: "x = CHR ''T'' # body" using ex by blast
    have "toUpperCase x = map code x" using plain[OF ex] by simp
    then have "hd (toUpperCase x) = 84"
      by (simp add: x code_def)
    moreover have "hd (toUpperCase ''Unknown'') = 85"
      by (simp add: upper_unknown)
    ultimately have "toUpperCase x \<noteq> toUpperCase ''Unknown''"
      by (metis numeral_eq_iff semiring_norm(89) num.inject(2) num.distinct(5))
    moreover have "x \<noteq> ''Unknown''" by (simp add: x)
    ultimately show ?thesis by simp
  qed
  consider (uu) "l = ''Unknown''" "l' = ''Unknown''"
    | (ut) "l = ''Unknown''" "\<exists>body. l' = CHR ''T'' # body \<and> body \<noteq> []
               \<and> list_all (\<lambda>c. isDigit c \<or> c = CHR ''+'') body"
    | (tu) "\<exists>body. l = CHR ''T'' # body \<and> body \<noteq> []
               \<and> list_all (\<lambda>c. isDigit c \<or> c = CHR ''+'') body" "l' = ''Unknown''"
    | (tt) "\<exists>body. l = CHR ''T'' # body \<and> body \<noteq> []
               \<and> list_all (\<lambda>c. isDigit c \<or> c = CHR ''+'') body"
           "\<exists>body. l' = CHR ''T'' # body \<and> body \<noteq> []
               \<and> list_all (\<lambda>c. isDigit c \<or> c = CHR ''+'') body"
    using assms by blast
  then show ?thesis
  proof cases
    case uu
    show ?thesis by (simp only: uu trim_unknown refl)
  next
    case ut
    have "trim l' = l'" using plain[OF ut(2)] by simp
    then show ?thesis
      using differ[OF ut(2)] ut(1) by metis
  next
    case tu
    show ?thesis
      using differ[OF tu(1)] tu(2) trim_unknown by metis
  next
    case tt
    have "toUpperCase l = map code l" "toUpperCase (trim l') = map code l'"
      using plain[OF tt(1)] plain[OF tt(2)] by simp_all
    then show ?thesis
      using code_inj[of l l'] by metis
  qed
qed

lemma typology_keys:
  fixes lab :: "ListingRow \<Rightarrow> string"
  assumes "b \<in> set (sortTypologies lc (map_values
             (foldl (\<lambda>m row. bumpTypology m (lab row) (listingTypeOf row)) [] rows)))"
  shows "typology b \<in> lab ` set rows"
proof -
  let ?M = "foldl (\<lambda>m row. bumpTypology m (lab row) (listingTypeOf row)) [] rows"
  have d: "distinct (map fst ?M)" by (rule typology_buckets(1))
  have "b \<in> set (map_values ?M)"
    using assms by (simp only: sortTypologies_def set_sortBy)
  then obtain k where k: "map_get ?M k = Some b"
    using map_get_values[OF d] by blast
  then have in_rows: "k \<in> lab ` set rows"
    unfolding typology_buckets(3) by (simp split: if_splits)
  then have "Some b = Some \<lparr>buy_count = length (filter (\<lambda>r. lab r = k \<and> listingTypeOf r = ''buy'') rows),
                  rent_count = length (filter (\<lambda>r. lab r = k \<and> listingTypeOf r = ''rent'') rows),
                  total_count = length (filter (\<lambda>r. lab r = k) rows),
                  typology = k\<rparr>"
    using k unfolding typology_buckets(3) by (simp only: if_True)
  then have "typology b = typology \<lparr>buy_count = length (filter (\<lambda>r. lab r = k \<and> listingTypeOf r = ''buy'') rows),
                  rent_count = length (filter (\<lambda>r. lab r = k \<and> listingTypeOf r = ''rent'') rows),
                  total_count = length (filter (\<lambda>r. lab r = k) rows),
                  typology = k\<rparr>"
    by (simp only: option.inject)
  then have "typology b = k" by simp
  then show ?thesis using in_rows by simp
qed

lemma filter_single:
  assumes "distinct xs" "x \<in> set xs" "\<forall>y\<in>set xs. P y \<longleftrightarrow> y = x"
  shows "filter P xs = [x]"
proof -
  have "filter P xs = filter (\<lambda>y. y = x) xs"
    using assms(3) by (intro filter_cong) auto
  moreover have "filter (\<lambda>y. y = x) xs = [x]"
    using assms(1,2) by (induction xs) (auto simp: filter_empty_conv)
  ultimately show ?thesis by simp
qed

lemma typologyLabel_match:
  assumes "typology b \<in> typologyLabel ` set rows"
  shows "toUpperCase (typologyLabel row) = toUpperCase (trim (typology b))
         \<longleftrightarrow> typologyLabel row = typology b"
proof -
  obtain row0 where "typology b = typologyLabel row0" using assms by blast
  then show ?thesis
    unfolding typologyLabel_def
    using label_match[OF label_shape[of "bedrooms row" "title row"]
                         label_shape[of "bedrooms row0" "title row0"]]
    by simp
qed

lemma case_buckets:
  "regionsAt MunicipalityLevel (buildMetrics codeUnitCompare
         (foldl (processRow (buildPortugalAdminIndex caseDataset)) initialState [rowA, rowE])) =
     [\<lparr>buy_count = 1, rent_count = 0, total_count = 1, region = ''MATOSINHOS''\<rparr>,
      \<lparr>buy_count = 1, rent_count = 0, total_count = 1, region = ''Matosinhos''\<rparr>]"
  by code_simp

lemma case_rows:
  "getDashboardListingsByRegion (rangeOf [rowE, rowA]) (buildPortugalAdminIndex caseDataset)
       MunicipalityLevel ''Matosinhos'' =
     Some (Inr [normalizeDashboardRow rowE, normalizeDashboardRow rowA])"
  by code_simp

text \<open>
  C2, as stated, fails: the drill-down compares normalized names, the buckets are keyed
  by the names as they are written. Where a parish record writes its municipality in
  capitals, the pass keeps the buckets "MATOSINHOS" and "Matosinhos", of one row each, and
  the drill-down for "Matosinhos" returns both rows.
\<close>

theorem drilldown_counterexample:
  "mset [rowE, rowA] = mset [rowA, rowE]
   \<and> regionsAt MunicipalityLevel (buildMetrics codeUnitCompare
         (foldl (processRow (buildPortugalAdminIndex caseDataset)) initialState [rowA, rowE])) =
       [\<lparr>buy_count = 1, rent_count = 0, total_count = 1, region = ''MATOSINHOS''\<rparr>,
        \<lparr>buy_count = 1, rent_count = 0, total_count = 1, region = ''Matosinhos''\<rparr>]
   \<and> getDashboardListingsByRegion (rangeOf [rowE, rowA]) (buildPortugalAdminIndex caseDataset)
         MunicipalityLevel ''Matosinhos'' =
       Some (Inr [normalizeDashboardRow rowE, normalizeDashboardRow rowA])"
  using case_buckets case_rows by simp

text \<open>
  C2, amended. Let the drill-down read the rows that the pass read, in its own order.
  For a level and a queried label, the drill-down by region returns the rows whose name
  at the level ("Unknown" for none) has the normalized form of the label, the empty label
  read as "Unknown"; their number is the sum of the totals of the buckets of the level
  whose key has this normalized form. It is the total of the bucket with the queried key,
  and the rows are the rows of that bucket, when the key is not empty and no other key
  of the level has the same normalized form. The drill-down by typology returns the rows
  whose label equals the trimmed queried label up to case; for the key of a typology
  bucket these are the rows with that label, and their number is the total of the bucket.
\<close>

theorem drilldown_rows:
  fixes rowsById rowsBySeen :: "ListingRow list" and adminIndex :: PortugalAdminIndex
    and lc :: "string \<Rightarrow> string \<Rightarrow> int" and lvl :: DashboardRegionLevel
    and regionLabelQ typologyQ :: string
  assumes perm: "mset rowsBySeen = mset rowsById"
  defines "m \<equiv> buildMetrics lc (foldl (processRow adminIndex) initialState rowsById)"
  shows
    "getDashboardListingsByRegion (rangeOf rowsBySeen) adminIndex lvl regionLabelQ =
       Some (Inr (map normalizeDashboardRow
         (filter (\<lambda>row. normalizeLocationPart (regionLabel lvl adminIndex row)
                          = regionTarget regionLabelQ) rowsBySeen)))
     \<and> length (filter (\<lambda>row. normalizeLocationPart (regionLabel lvl adminIndex row)
                          = regionTarget regionLabelQ) rowsBySeen)
         = sum_list (map total_count
             (filter (\<lambda>b. normalizeLocationPart (region b) = regionTarget regionLabelQ)
                (regionsAt lvl m)))
     \<and> (\<forall>b\<in>set (regionsAt lvl m).
           region b \<noteq> []
           \<and> (\<forall>b'\<in>set (regionsAt lvl m).
                 normalizeLocationPart (region b') = normalizeLocationPart (region b) \<longrightarrow> b' = b)
           \<longrightarrow> length (filter (\<lambda>row. normalizeLocationPart (regionLabel lvl adminIndex row)
                                    = regionTarget (region b)) rowsBySeen)
                 = total_count b
               \<and> (\<forall>row\<in>set rowsBySeen.
                     normalizeLocationPart (regionLabel lvl adminIndex row) = regionTarget (region b)
                     \<longleftrightarrow> regionLabel lvl adminIndex row = region b))
     \<and> getDashboardListingsByTypology (rangeOf rowsBySeen) typologyQ =
         Some (Inr (map normalizeDashboardRow
           (filter (\<lambda>row. toUpperCase (typologyLabel row) = toUpperCase (trim typologyQ)) rowsBySeen)))
     \<and> (\<forall>b\<in>set (typologies m).
           length (filter (\<lambda>row. toUpperCase (typologyLabel row)
                                  = toUpperCase (trim (typology b))) rowsBySeen)
             = total_count b
           \<and> (\<forall>row. toUpperCase (typologyLabel row) = toUpperCase (trim (typology b))
                    \<longleftrightarrow> typologyLabel row = typology b))"
proof (intro conjI ballI impI)
  let ?lab = "regionLabel lvl adminIndex"
  let ?B = "regionsAt lvl m"
  have B: "?B = sortRegions lc (map_values
             (foldl (\<lambda>m row. bumpRegion m (?lab row) (listingTypeOf row)) [] rowsById))"
    by (simp only: m_def regionsAt_pass)
  have sums: "sum_list (map total_count (filter (\<lambda>b. Q (region b)) ?B))
                = length (filter (\<lambda>row. Q (?lab row)) rowsById)" for Q
    unfolding B by (rule returned_by_buckets)
  have dB: "distinct (map region ?B)"
    unfolding B by (rule region_level(4))
  have cover: "\<forall>row\<in>set rowsById. \<exists>b\<in>set ?B. region b = ?lab row"
    unfolding B by (rule region_level(3))
  have sets: "set rowsBySeen = set rowsById"
    using perm by (metis set_mset_mset)
  show "getDashboardListingsByRegion (rangeOf rowsBySeen) adminIndex lvl regionLabelQ =
       Some (Inr (map normalizeDashboardRow
         (filter (\<lambda>row. normalizeLocationPart (?lab row) = regionTarget regionLabelQ) rowsBySeen)))"
    by (rule byRegion_rangeOf)
  show "length (filter (\<lambda>row. normalizeLocationPart (?lab row) = regionTarget regionLabelQ) rowsBySeen)
         = sum_list (map total_count
             (filter (\<lambda>b. normalizeLocationPart (region b) = regionTarget regionLabelQ) ?B))"
    using sums[of "\<lambda>k. normalizeLocationPart k = regionTarget regionLabelQ"]
      filter_length_perm[OF perm] by simp
  {
    fix b
    assume b: "b \<in> set ?B"
      and u: "region b \<noteq> []
           \<and> (\<forall>b'\<in>set ?B.
                 normalizeLocationPart (region b') = normalizeLocationPart (region b) \<longrightarrow> b' = b)"
    have t: "regionTarget (region b) = normalizeLocationPart (region b)"
      using u by (simp add: regionTarget_def)
    have "distinct ?B" using dB by (simp add: distinct_map)
    moreover have "\<forall>y\<in>set ?B. normalizeLocationPart (region y) = regionTarget (region b) \<longleftrightarrow> y = b"
      using u t by auto
    ultimately have "filter (\<lambda>y. normalizeLocationPart (region y) = regionTarget (region b)) ?B = [b]"
      using b by (intro filter_single) simp_all
    then have "sum_list (map total_count
             (filter (\<lambda>y. normalizeLocationPart (region y) = regionTarget (region b)) ?B))
             = total_count b"
      by simp
    then have "length (filter (\<lambda>row. normalizeLocationPart (?lab row) = regionTarget (region b)) rowsById)
             = total_count b"
      using sums[of "\<lambda>k. normalizeLocationPart k = regionTarget (region b)"] by simp
    then show "length (filter (\<lambda>row. normalizeLocationPart (?lab row) = regionTarget (region b)) rowsBySeen)
             = total_count b"
      using filter_length_perm[OF perm] by simp
    fix row
    assume "row \<in> set rowsBySeen"
    then obtain b' where b': "b' \<in> set ?B" "region b' = ?lab row"
      using cover sets by blast
    show "normalizeLocationPart (?lab row) = regionTarget (region b) \<longleftrightarrow> ?lab row = region b"
      using u b' t by metis
  }
next
  show "getDashboardListingsByTypology (rangeOf rowsBySeen) typologyQ =
         Some (Inr (map normalizeDashboardRow
           (filter (\<lambda>row. toUpperCase (typologyLabel row) = toUpperCase (trim typologyQ)) rowsBySeen)))"
    by (rule byTypology_rangeOf)
next
  fix b
  assume b: "b \<in> set (typologies m)"
  have key: "typology b \<in> typologyLabel ` set rowsById"
    using b unfolding m_def typologies_pass by (rule typology_keys)
  have eq: "toUpperCase (typologyLabel row) = toUpperCase (trim (typology b))
         \<longleftrightarrow> typologyLabel row = typology b" for row
    using key by (rule typologyLabel_match)
  have "total_count b = length (filter (\<lambda>row. typologyLabel row = typology b) rowsById)"
    using typology_level(2)[of lc typologyLabel rowsById] b
    unfolding m_def typologies_pass by blast
  then show "length (filter (\<lambda>row. toUpperCase (typologyLabel row)
                                  = toUpperCase (trim (typology b))) rowsBySeen)
             = total_count b"
    using filter_length_perm[OF perm] by (simp add: eq)
  show "\<forall>row. toUpperCase (typologyLabel row) = toUpperCase (trim (typology b))
                    \<longleftrightarrow> typologyLabel row = typology b"
    using eq by blast
qed

lemma porto_rows:
  "filter (\<lambda>row. normalizeLocationPart (regionLabel DistrictLevel scenarioIndex row)
                     = regionTarget ''Porto'') [rowB, rowA, rowC] = [rowA, rowC]"
  "filter (\<lambda>row. toUpperCase (typologyLabel row) = toUpperCase (trim '' t2 ''))
      [rowB, rowA, rowC] = [rowA, rowC]"
  "normalizeLocationPart ''Porto'' = ''porto''"
  "normalizeLocationPart ''Unknown'' = ''unknown''"
  by code_simp+

theorem drilldown_rows_witness:
  "mset [rowB, rowA, rowC] = mset [rowA, rowB, rowC]
   \<and> getDashboardListingsByRegion (rangeOf [rowB, rowA, rowC]) scenarioIndex DistrictLevel ''Porto''
       = Some (Inr [normalizeDashboardRow rowA, normalizeDashboardRow rowC])
   \<and> regionsAt DistrictLevel metricsABC =
        [\<lparr>buy_count = 2, rent_count = 0, total_count = 2, region = ''Porto''\<rparr>,
         \<lparr>buy_count = 0, rent_count = 1, total_count = 1, region = ''Unknown''\<rparr>]
   \<and> length (filter (\<lambda>row. normalizeLocationPart (regionLabel DistrictLevel scenarioIndex row)
                            = regionTarget ''Porto'') [rowB, rowA, rowC]) = 2
   \<and> getDashboardListingsByTypology (rangeOf [rowB, rowA, rowC]) '' t2 ''
       = Some (Inr [normalizeDashboardRow rowA, normalizeDashboardRow rowC])"
proof -
  have p: "mset [rowB, rowA, rowC] = mset [rowA, rowB, rowC]" by simp
  note t = drilldown_rows[OF p, of scenarioIndex DistrictLevel "''Porto''" codeUnitCompare "'' t2 ''",
      unfolded pass_ABC]
  have r: "regionsAt DistrictLevel metricsABC =
        [\<lparr>buy_count = 2, rent_count = 0, total_count = 2, region = ''Porto''\<rparr>,
         \<lparr>buy_count = 0, rent_count = 1, total_count = 1, region = ''Unknown''\<rparr>]"
    by (simp add: regionsAt_def metricsABC_def)
  let ?porto = "\<lparr>buy_count = 2, rent_count = 0, total_count = 2, region = ''Porto''\<rparr>"
  have 1: "getDashboardListingsByRegion (rangeOf [rowB, rowA, rowC]) scenarioIndex DistrictLevel ''Porto''
       = Some (Inr [normalizeDashboardRow rowA, normalizeDashboardRow rowC])"
    using t porto_rows(1) by simp
  have 2: "getDashboardListingsByTypology (rangeOf [rowB, rowA, rowC]) '' t2 ''
       = Some (Inr [normalizeDashboardRow rowA, normalizeDashboardRow rowC])"
    using t porto_rows(2) by simp
  have u: "?porto \<in> set (regionsAt DistrictLevel metricsABC)"
    "region ?porto \<noteq> []
     \<and> (\<forall>b'\<in>set (regionsAt DistrictLevel metricsABC).
           normalizeLocationPart (region b') = normalizeLocationPart (region ?porto) \<longrightarrow> b' = ?porto)"
    by (simp_all add: r porto_rows(3,4))
  have 3: "length (filter (\<lambda>row. normalizeLocationPart (regionLabel DistrictLevel scenarioIndex row)
                            = regionTarget (region ?porto)) [rowB, rowA, rowC]) = total_count ?porto"
    using t u by blast
  from p 1 2 3 r show ?thesis by simp
qed

end
